theory Spec2Isabelle
  imports Complex_Main "HOL-Library.Log_Nat"
begin

section \<open>Adaptive chunking: the value-range locator\<close>

text \<open>
  The model follows \<^verbatim>\<open>src/chunk_adaptive.c\<close>. A \<^verbatim>\<open>Datum\<close> of the partitioning
  column is an integer (the column of an open dimension holds integers or time stamps,
  whose datum is the 64-bit count itself), a heap tuple is the list of its attribute
  values with \<open>None\<close> for SQL NULL, and attribute numbers count from 1.
\<close>

type_synonym Datum = int
type_synonym AttrNumber = int
type_synonym HeapTuple = "Datum option list"

text \<open>
  PostgreSQL's \<^verbatim>\<open>heap_getattr\<close>: the value and the \<^verbatim>\<open>isnull\<close> flag. A NULL attribute
  (and one beyond the tuple's attributes) reads as datum 0 with the flag set.
\<close>

definition heap_getattr :: "HeapTuple \<Rightarrow> AttrNumber \<Rightarrow> Datum \<times> bool" where
  "heap_getattr tuple attnum =
     (if 1 \<le> attnum \<and> attnum \<le> int (length tuple)
      then (case tuple ! nat (attnum - 1) of None \<Rightarrow> (0, True) | Some v \<Rightarrow> (v, False))
      else (0, True))"

text \<open>
  An index relation, as far as this file looks at it: the attribute number of its leading
  column (\<^verbatim>\<open>idxrel->rd_att->attrs[0]->attnum\<close>) and the visible tuples in the order a
  forward scan of the index returns them.
\<close>

record Index =
  idx_attnum :: AttrNumber
  idx_tuples :: "HeapTuple list"

record Relation =
  rel_tuples :: "HeapTuple list"
  rel_indexes :: "Index list"

datatype ScanDirection = BackwardScanDirection | ForwardScanDirection

text \<open>
  Modelled from the spec: \<^verbatim>\<open>index_getnext\<close> is PostgreSQL's and not in the source file.
  The first call on a fresh (or rescanned) scan reads one extreme entry of the ordered
  index: the last entry for a backward scan, the first for a forward scan, and no tuple
  when the index has no visible entry.
\<close>

definition index_getnext :: "Index \<Rightarrow> ScanDirection \<Rightarrow> HeapTuple option" where
  "index_getnext idxrel dir =
     (case idx_tuples idxrel of
        [] \<Rightarrow> None
      | t # ts \<Rightarrow> (case dir of
                    ForwardScanDirection \<Rightarrow> Some t
                  | BackwardScanDirection \<Rightarrow> Some (last (t # ts))))"

datatype MinMaxResult = MINMAX_NO_INDEX | MINMAX_NO_TUPLES | MINMAX_FOUND

text \<open>
  The two-element C arrays \<^verbatim>\<open>minmax[2]\<close> and \<^verbatim>\<open>nulls[2]\<close> are pairs; \<open>arr2_set n\<close>
  is the assignment to slot \<open>n\<close>, which the code only performs for \<open>n\<close> 0 and 1.
\<close>

definition arr2_set :: "nat \<Rightarrow> 'a \<Rightarrow> 'a \<times> 'a \<Rightarrow> 'a \<times> 'a" where
  "arr2_set n v a = (if n = 0 then (v, snd a) else (fst a, v))"

definition arr2_get :: "nat \<Rightarrow> 'a \<times> 'a \<Rightarrow> 'a" where
  "arr2_get n a = (if n = 0 then fst a else snd a)"

text \<open>
  The comparison procedure of the column type from the type cache: for the integer datum
  it is the three-way comparison of the two values.
\<close>

definition btint8cmp :: "Datum \<Rightarrow> Datum \<Rightarrow> int" where
  "btint8cmp a b = (if a > b then 1 else if a = b then 0 else -1)"

datatype error =
    ERROR_no_comparison_function
  | ERROR_missing_configuration string
  | ERROR_could_not_parse string

text \<open>
  \<^verbatim>\<open>minmax_heapscan\<close>. The caller's array comes in and goes out: the function never
  initialises \<^verbatim>\<open>minmax\<close>, and \<^verbatim>\<open>bool nulls[2] = {true}\<close> sets only \<^verbatim>\<open>nulls[0]\<close>, the
  second element being zero-initialised, that is, false. The loop body handles one tuple.
\<close>

definition heapscan_step ::
  "(Datum \<Rightarrow> Datum \<Rightarrow> int) \<Rightarrow> AttrNumber \<Rightarrow> HeapTuple \<Rightarrow>
   (bool \<times> bool) \<times> (Datum \<times> Datum) \<Rightarrow> (bool \<times> bool) \<times> (Datum \<times> Datum)" where
  "heapscan_step cmp attnum tuple st =
     (let (nulls, minmax) = st;
          (val, isnull) = heap_getattr tuple attnum
      in if isnull then (nulls, minmax)
         else
           let (nulls1, minmax1) =
                 (if arr2_get 0 nulls \<or> cmp val (arr2_get 0 minmax) < 0
                  then (arr2_set 0 False nulls, arr2_set 0 val minmax)
                  else (nulls, minmax))
           in (if arr2_get 1 nulls1 \<or> cmp val (arr2_get 1 minmax1) > 0
               then (arr2_set 1 False nulls1, arr2_set 1 val minmax1)
               else (nulls1, minmax1)))"

fun heapscan_loop ::
  "(Datum \<Rightarrow> Datum \<Rightarrow> int) \<Rightarrow> AttrNumber \<Rightarrow> HeapTuple list \<Rightarrow>
   (bool \<times> bool) \<times> (Datum \<times> Datum) \<Rightarrow> (bool \<times> bool) \<times> (Datum \<times> Datum)" where
  "heapscan_loop cmp attnum [] st = st"
| "heapscan_loop cmp attnum (tuple # rest) st =
     heapscan_loop cmp attnum rest (heapscan_step cmp attnum tuple st)"

definition minmax_heapscan ::
  "Relation \<Rightarrow> (Datum \<Rightarrow> Datum \<Rightarrow> int) option \<Rightarrow> AttrNumber \<Rightarrow> Datum \<times> Datum \<Rightarrow>
   error + (MinMaxResult \<times> (Datum \<times> Datum))" where
  "minmax_heapscan rel tce attnum minmax =
     (case tce of
        None \<Rightarrow> Inl ERROR_no_comparison_function
      | Some cmp \<Rightarrow>
          (let (nulls, minmax') =
                 heapscan_loop cmp attnum (rel_tuples rel) ((True, False), minmax)
           in Inr (if arr2_get 0 nulls \<or> arr2_get 1 nulls
                   then MINMAX_NO_TUPLES else MINMAX_FOUND, minmax')))"

text \<open>
  \<^verbatim>\<open>minmax_indexscan\<close>: the backward scan's tuple is stored first, at \<^verbatim>\<open>minmax[n]\<close>
  with \<open>n = 0\<close>, the forward scan's tuple after it. The \<^verbatim>\<open>isnull\<close> flag of
  \<^verbatim>\<open>heap_getattr\<close> is not looked at.
\<close>

definition minmax_indexscan ::
  "Relation \<Rightarrow> Index \<Rightarrow> AttrNumber \<Rightarrow> Datum \<times> Datum \<Rightarrow> MinMaxResult \<times> (Datum \<times> Datum)" where
  "minmax_indexscan rel idxrel attnum minmax =
     (let nulls = (True, True);
          n = (0::nat);
          (minmax1, nulls1, n1) =
            (case index_getnext idxrel BackwardScanDirection of
               Some tuple \<Rightarrow>
                 (arr2_set n (fst (heap_getattr tuple attnum)) minmax, arr2_set n False nulls, n + 1)
             | None \<Rightarrow> (minmax, nulls, n));
          (minmax2, nulls2, n2) =
            (case index_getnext idxrel ForwardScanDirection of
               Some tuple \<Rightarrow>
                 (arr2_set n1 (fst (heap_getattr tuple attnum)) minmax1, arr2_set n1 False nulls1,
                  n1 + 1)
             | None \<Rightarrow> (minmax1, nulls1, n1))
      in (if arr2_get 0 nulls2 \<or> arr2_get 1 nulls2 then MINMAX_NO_TUPLES else MINMAX_FOUND,
          minmax2))"

text \<open>
  \<^verbatim>\<open>relation_minmax_indexscan\<close>: the \<^verbatim>\<open>foreach\<close> over the relation's index list, with
  the result so far and the array as the loop state; the loop is left at the first index
  that found both values.
\<close>

fun indexscan_loop ::
  "Relation \<Rightarrow> AttrNumber \<Rightarrow> Index list \<Rightarrow> MinMaxResult \<times> (Datum \<times> Datum) \<Rightarrow>
   MinMaxResult \<times> (Datum \<times> Datum)" where
  "indexscan_loop rel attnum [] st = st"
| "indexscan_loop rel attnum (idxrel # rest) st =
     (let st' = (if idx_attnum idxrel = attnum
                 then minmax_indexscan rel idxrel attnum (snd st) else st)
      in if fst st' = MINMAX_FOUND then st' else indexscan_loop rel attnum rest st')"

definition relation_minmax_indexscan ::
  "Relation \<Rightarrow> AttrNumber \<Rightarrow> Datum \<times> Datum \<Rightarrow> MinMaxResult \<times> (Datum \<times> Datum)" where
  "relation_minmax_indexscan rel attnum minmax =
     indexscan_loop rel attnum (rel_indexes rel) (MINMAX_NO_INDEX, minmax)"

definition table_has_minmax_index :: "Relation \<Rightarrow> AttrNumber \<Rightarrow> Datum \<times> Datum \<Rightarrow> bool" where
  "table_has_minmax_index rel attnum minmax =
     (fst (relation_minmax_indexscan rel attnum minmax) \<noteq> MINMAX_NO_INDEX)"

text \<open>
  \<^verbatim>\<open>chunk_get_minmax\<close>. What the function does besides computing its result is kept
  as a list of events: the warning it reports and the heap scan it starts.
\<close>

datatype event = WARNING_no_index_found | HEAP_SCAN

record minmax_outcome =
  events :: "event list"
  array :: "Datum \<times> Datum"
  returned :: "error + bool"

definition chunk_get_minmax ::
  "Relation \<Rightarrow> (Datum \<Rightarrow> Datum \<Rightarrow> int) option \<Rightarrow> AttrNumber \<Rightarrow> Datum \<times> Datum \<Rightarrow>
   minmax_outcome" where
  "chunk_get_minmax rel tce attnum minmax =
     (let (res, minmax1) = relation_minmax_indexscan rel attnum minmax
      in if res = MINMAX_NO_INDEX
         then (case minmax_heapscan rel tce attnum minmax1 of
                 Inl e \<Rightarrow>
                   \<lparr>events = [WARNING_no_index_found], array = minmax1, returned = Inl e\<rparr>
               | Inr (res2, minmax2) \<Rightarrow>
                   \<lparr>events = [WARNING_no_index_found, HEAP_SCAN], array = minmax2,
                    returned = Inr (res2 = MINMAX_FOUND)\<rparr>)
         else \<lparr>events = [], array = minmax1, returned = Inr (res = MINMAX_FOUND)\<rparr>)"


section \<open>The memory budget\<close>

text \<open>
  C's integer division truncates towards zero; \<open>div\<close> on \<open>int\<close> rounds down.
\<close>

definition c_div :: "int \<Rightarrow> int \<Rightarrow> int" where
  "c_div a b = sgn a * sgn b * (\<bar>a\<bar> div \<bar>b\<bar>)"

text \<open>
  \<^verbatim>\<open>estimate_effective_memory_cache_size\<close>. Its inputs are the static variable
  \<^verbatim>\<open>fixed_effective_memory_cache_size\<close>, the result of \<^verbatim>\<open>system_memory_bytes()\<close>, the
  block size \<^verbatim>\<open>BLCKSZ\<close> of the server build, the configuration (\<^verbatim>\<open>GetConfigOption\<close>, a
  missing option being \<open>None\<close>) and PostgreSQL's \<^verbatim>\<open>parse_int\<close>, which gives the number
  of blocks as a C \<^verbatim>\<open>int\<close> or fails with a hint. The product of a 32-bit count and the
  block size (at most \<open>2 ^ 15\<close>) fits the 64-bit result.
\<close>

definition estimate_effective_memory_cache_size ::
  "int \<Rightarrow> int \<Rightarrow> int \<Rightarrow> (string \<Rightarrow> string option) \<Rightarrow> (string \<Rightarrow> string + int) \<Rightarrow> error + int" where
  "estimate_effective_memory_cache_size fixed_effective_memory_cache_size system_memory_bytes
       BLCKSZ GetConfigOption parse_int =
     (let sysmem_bound_bytes = c_div system_memory_bytes 2
      in if fixed_effective_memory_cache_size > 0 then Inr fixed_effective_memory_cache_size
         else case GetConfigOption ''shared_buffers'' of
           None \<Rightarrow> Inl (ERROR_missing_configuration ''shared_buffers'')
         | Some val1 \<Rightarrow>
            (case parse_int val1 of
               Inl hintmsg \<Rightarrow> Inl (ERROR_could_not_parse ''shared_buffers'')
             | Inr shared_buffers \<Rightarrow>
                (case GetConfigOption ''effective_cache_size'' of
                   None \<Rightarrow> Inl (ERROR_missing_configuration ''effective_cache_size'')
                 | Some val2 \<Rightarrow>
                    (case parse_int val2 of
                       Inl hintmsg \<Rightarrow> Inl (ERROR_could_not_parse ''effective_cache_size'')
                     | Inr effective_cache_size \<Rightarrow>
                        (let memory_bytes = max shared_buffers effective_cache_size;
                             memory_bytes = memory_bytes * BLCKSZ
                         in Inr (if memory_bytes > sysmem_bound_bytes
                                 then sysmem_bound_bytes else memory_bytes))))))"

definition calculate_initial_chunk_target_size ::
  "int \<Rightarrow> int \<Rightarrow> int \<Rightarrow> (string \<Rightarrow> string option) \<Rightarrow> (string \<Rightarrow> string + int) \<Rightarrow> error + int" where
  "calculate_initial_chunk_target_size fixed sysmem BLCKSZ GetConfigOption parse_int =
     (case estimate_effective_memory_cache_size fixed sysmem BLCKSZ GetConfigOption parse_int of
        Inl e \<Rightarrow> Inl e
      | Inr bytes \<Rightarrow> Inr (c_div bytes 4))"

section \<open>Double-precision arithmetic\<close>

text \<open>
  The interval estimator computes in C \<^verbatim>\<open>double\<close>. The model is IEEE 754 binary64 with
  the default rounding (to nearest, ties to even): a value is a rational number that the
  format represents (\<open>Finite 0\<close> being the positive zero), the negative zero, an
  infinity, or a NaN. Every operation computes the exact result and rounds it.
\<close>

datatype double = Finite rat | NegZero | PInf | NInf | NaN

text \<open>
  The binary exponent of a rational \<open>x \<noteq> 0\<close>, the integer \<open>e\<close> with
  \<open>2 ^ e \<le> \<bar>x\<bar> < 2 ^ (e + 1)\<close>, from the bit lengths of numerator and denominator.
\<close>

definition ilogb :: "rat \<Rightarrow> int" where
  "ilogb x =
     (let (p, q) = quotient_of \<bar>x\<bar>;
          d = bitlen p - bitlen q
      in if 2 powi d \<le> \<bar>x\<bar> then d else d - 1)"

definition round_half_even :: "rat \<Rightarrow> int" where
  "round_half_even x =
     (let f = \<lfloor>x\<rfloor>; d = x - of_int f
      in if d < 1 / 2 then f else if 1 / 2 < d then f + 1 else if even f then f else f + 1)"

text \<open>
  Rounding to binary64: 53 significant bits, the unit in the last place never below
  \<open>2 ^ (-1074)\<close> (gradual underflow), and overflow to an infinity from \<open>2 ^ 1024\<close> on.
  \<open>ulp x\<close> is the spacing of the representable numbers around \<open>x\<close> and
  \<open>nearest x\<close> the multiple of it that is nearest to \<open>x\<close>.
\<close>

definition ulp :: "rat \<Rightarrow> rat" where
  "ulp x = 2 powi (max (ilogb x) (- 1022) - 52)"

definition nearest :: "rat \<Rightarrow> rat" where
  "nearest x = of_int (round_half_even (x / ulp x)) * ulp x"

definition round_double :: "rat \<Rightarrow> double" where
  "round_double x =
     (if x = 0 then Finite 0
      else
        let r = nearest x
        in if 2 ^ 1024 \<le> \<bar>r\<bar> then (if 0 < x then PInf else NInf)
           else if r = 0 then (if 0 < x then Finite 0 else NegZero)
           else Finite r)"

fun is_nan :: "double \<Rightarrow> bool" where
  "is_nan NaN = True"
| "is_nan _ = False"

fun is_inf :: "double \<Rightarrow> bool" where
  "is_inf PInf = True"
| "is_inf NInf = True"
| "is_inf _ = False"

fun sign_bit :: "double \<Rightarrow> bool" where
  "sign_bit (Finite q) = (q < 0)"
| "sign_bit NegZero = True"
| "sign_bit NInf = True"
| "sign_bit _ = False"

fun rat_of_double :: "double \<Rightarrow> rat" where
  "rat_of_double (Finite q) = q"
| "rat_of_double _ = 0"

definition signed_zero :: "bool \<Rightarrow> double" where
  "signed_zero neg = (if neg then NegZero else Finite 0)"

definition signed_inf :: "bool \<Rightarrow> double" where
  "signed_inf neg = (if neg then NInf else PInf)"

definition double_add :: "double \<Rightarrow> double \<Rightarrow> double" where
  "double_add a b =
     (if is_nan a \<or> is_nan b then NaN
      else if is_inf a then (if is_inf b \<and> a \<noteq> b then NaN else a)
      else if is_inf b then b
      else if rat_of_double a + rat_of_double b = 0
      then (if a = NegZero \<and> b = NegZero then NegZero else Finite 0)
      else round_double (rat_of_double a + rat_of_double b))"

fun double_neg :: "double \<Rightarrow> double" where
  "double_neg (Finite q) = (if q = 0 then NegZero else Finite (- q))"
| "double_neg NegZero = Finite 0"
| "double_neg PInf = NInf"
| "double_neg NInf = PInf"
| "double_neg NaN = NaN"

definition double_sub :: "double \<Rightarrow> double \<Rightarrow> double" where
  "double_sub a b = double_add a (double_neg b)"

definition double_mul :: "double \<Rightarrow> double \<Rightarrow> double" where
  "double_mul a b =
     (let neg = (sign_bit a \<noteq> sign_bit b)
      in if is_nan a \<or> is_nan b then NaN
         else if is_inf a \<or> is_inf b
         then (if (\<not> is_inf a \<and> rat_of_double a = 0) \<or> (\<not> is_inf b \<and> rat_of_double b = 0)
               then NaN else signed_inf neg)
         else if rat_of_double a * rat_of_double b = 0 then signed_zero neg
         else round_double (rat_of_double a * rat_of_double b))"

definition double_div :: "double \<Rightarrow> double \<Rightarrow> double" where
  "double_div a b =
     (let neg = (sign_bit a \<noteq> sign_bit b)
      in if is_nan a \<or> is_nan b then NaN
         else if is_inf a then (if is_inf b then NaN else signed_inf neg)
         else if is_inf b then signed_zero neg
         else if rat_of_double b = 0
         then (if rat_of_double a = 0 then NaN else signed_inf neg)
         else if rat_of_double a = 0 then signed_zero neg
         else round_double (rat_of_double a / rat_of_double b))"

fun fabs :: "double \<Rightarrow> double" where
  "fabs (Finite q) = Finite \<bar>q\<bar>"
| "fabs NegZero = Finite 0"
| "fabs PInf = PInf"
| "fabs NInf = PInf"
| "fabs NaN = NaN"

text \<open>
  The comparisons \<^verbatim>\<open><\<close>, \<^verbatim>\<open>>\<close> and \<^verbatim>\<open><=\<close>: false when an operand is a NaN, the two
  zeros equal.
\<close>

fun double_lt :: "double \<Rightarrow> double \<Rightarrow> bool" where
  "double_lt NaN b = False"
| "double_lt a NaN = False"
| "double_lt PInf b = False"
| "double_lt a NInf = False"
| "double_lt NInf b = True"
| "double_lt a PInf = True"
| "double_lt a b = (rat_of_double a < rat_of_double b)"

definition double_gt :: "double \<Rightarrow> double \<Rightarrow> bool" where
  "double_gt a b = double_lt b a"

definition double_le :: "double \<Rightarrow> double \<Rightarrow> bool" where
  "double_le a b = (\<not> is_nan a \<and> \<not> is_nan b \<and> \<not> double_lt b a)"

text \<open>The conversion of an integer to \<^verbatim>\<open>double\<close> rounds it.\<close>

definition double_of_int :: "int \<Rightarrow> double" where
  "double_of_int i = round_double (of_int i)"

text \<open>
  The conversion of a \<^verbatim>\<open>double\<close> to \<^verbatim>\<open>int64\<close> truncates towards zero. ISO C leaves the
  conversion of a NaN, an infinity or a value beyond the range undefined; the model takes
  what the x86-64 conversion instruction delivers then, the value \<open>- 2 ^ 63\<close>.
\<close>

definition double_to_int64 :: "double \<Rightarrow> int" where
  "double_to_int64 d =
     (case d of
        Finite q \<Rightarrow>
          (let t = (if 0 \<le> q then \<lfloor>q\<rfloor> else \<lceil>q\<rceil>)
           in if - (2 ^ 63) \<le> t \<and> t < 2 ^ 63 then t else - (2 ^ 63))
      | NegZero \<Rightarrow> 0
      | _ \<Rightarrow> - (2 ^ 63))"

text \<open>
  Arithmetic on \<^verbatim>\<open>int64\<close> wraps around (PostgreSQL is built with \<^verbatim>\<open>-fwrapv\<close>).
\<close>

definition int64 :: "int \<Rightarrow> int" where
  "int64 x = (x + 2 ^ 63) mod 2 ^ 64 - 2 ^ 63"

section \<open>The interval estimator\<close>

definition INTERVAL_FILLFACTOR_THRESH :: double where
  "INTERVAL_FILLFACTOR_THRESH = round_double (5 / 10)"

definition SIZE_FILLFACTOR_THRESH :: double where
  "SIZE_FILLFACTOR_THRESH = round_double (15 / 100)"

definition INTERVAL_MIN_CHANGE_THRESH :: double where
  "INTERVAL_MIN_CHANGE_THRESH = round_double (15 / 100)"

definition NUM_UNDERSIZED_INTERVALS :: int where
  "NUM_UNDERSIZED_INTERVALS = 1"

definition UNDERSIZED_FILLFACTOR_THRESH :: double where
  "UNDERSIZED_FILLFACTOR_THRESH = double_mul SIZE_FILLFACTOR_THRESH (round_double (11 / 10))"

definition CHUNK_SIZING_FUNC_NARGS :: int where
  "CHUNK_SIZING_FUNC_NARGS = 3"

definition DEFAULT_CHUNK_WINDOW :: nat where
  "DEFAULT_CHUNK_WINDOW = 3"

text \<open>
  What the loop of \<^verbatim>\<open>calculate_chunk_interval\<close> reads of a chunk of the window:
  its total relation size, the range of its slice in the dimension, and the outcome of
  \<^verbatim>\<open>chunk_get_minmax\<close> on its table: \<open>None\<close> when that returned false, and the two
  array elements \<^verbatim>\<open>minmax[0]\<close> and \<^verbatim>\<open>minmax[1]\<close>, in this order and in the dimension's
  internal 64-bit representation, when it returned true.
\<close>

record Chunk =
  chunk_size :: int
  range_start :: int
  range_end :: int
  chunk_minmax :: "(int \<times> int) option"

text \<open>
  The field \<open>chunk_minmax\<close> of a chunk from the outcome of \<^verbatim>\<open>chunk_get_minmax\<close> on its
  table: the caller reads \<^verbatim>\<open>min\<close> from \<^verbatim>\<open>minmax[0]\<close> and \<^verbatim>\<open>max\<close> from
  \<^verbatim>\<open>minmax[1]\<close> (\<^verbatim>\<open>time_value_to_internal\<close> leaves the datum of a 64-bit integer
  column as it is). An error inside \<^verbatim>\<open>chunk_get_minmax\<close> ends the call; no chunk
  comes of it.
\<close>

definition chunk_minmax_of :: "minmax_outcome \<Rightarrow> (int \<times> int) option" where
  "chunk_minmax_of outcome =
     (case returned outcome of
        Inr True \<Rightarrow> Some (arr2_get 0 (array outcome), arr2_get 1 (array outcome))
      | _ \<Rightarrow> None)"

text \<open>The variables that the loop updates.\<close>

record loop_state =
  chunk_interval :: int
  undersized_intervals :: int
  num_intervals :: int
  num_undersized_intervals :: int
  undersized_fillfactor :: double

definition interval_fillfactor_of :: "int \<Rightarrow> int \<Rightarrow> int \<Rightarrow> double" where
  "interval_fillfactor_of min_value max_value slice_interval =
     double_div (double_sub (double_of_int max_value) (double_of_int min_value))
       (double_of_int slice_interval)"

definition extrapolated_chunk_size_of :: "int \<Rightarrow> double \<Rightarrow> int" where
  "extrapolated_chunk_size_of chunk_size_bytes interval_fillfactor =
     double_to_int64 (double_div (double_of_int chunk_size_bytes) interval_fillfactor)"

definition size_fillfactor_of :: "int \<Rightarrow> int \<Rightarrow> double" where
  "size_fillfactor_of extrapolated_chunk_size chunk_target_size_bytes =
     double_div (double_of_int extrapolated_chunk_size) (double_of_int chunk_target_size_bytes)"

text \<open>The body of the \<^verbatim>\<open>foreach\<close> loop over the window.\<close>

definition chunk_step :: "int \<Rightarrow> Chunk \<Rightarrow> loop_state \<Rightarrow> loop_state" where
  "chunk_step chunk_target_size_bytes chunk st =
     (let slice_interval = int64 (range_end chunk - range_start chunk)
      in case chunk_minmax chunk of
           None \<Rightarrow> st
         | Some (min_value, max_value) \<Rightarrow>
             (let interval_fillfactor = interval_fillfactor_of min_value max_value slice_interval;
                  extrapolated_chunk_size =
                    extrapolated_chunk_size_of (chunk_size chunk) interval_fillfactor;
                  size_fillfactor =
                    size_fillfactor_of extrapolated_chunk_size chunk_target_size_bytes
              in if double_gt interval_fillfactor INTERVAL_FILLFACTOR_THRESH \<and>
                    double_gt size_fillfactor SIZE_FILLFACTOR_THRESH
                 then st\<lparr>chunk_interval :=
                            double_to_int64
                              (double_add (double_of_int (chunk_interval st))
                                 (double_div (double_of_int slice_interval) size_fillfactor)),
                         num_intervals := num_intervals st + 1\<rparr>
                 else if double_gt interval_fillfactor INTERVAL_FILLFACTOR_THRESH
                 then st\<lparr>undersized_intervals := int64 (undersized_intervals st + slice_interval),
                         undersized_fillfactor := double_add (undersized_fillfactor st) size_fillfactor,
                         num_undersized_intervals := num_undersized_intervals st + 1\<rparr>
                 else st))"

definition initial_state :: loop_state where
  "initial_state =
     \<lparr>chunk_interval = 0, undersized_intervals = 0, num_intervals = 0,
      num_undersized_intervals = 0, undersized_fillfactor = Finite 0\<rparr>"

fun window_loop :: "int \<Rightarrow> Chunk list \<Rightarrow> loop_state \<Rightarrow> loop_state" where
  "window_loop chunk_target_size_bytes [] st = st"
| "window_loop chunk_target_size_bytes (chunk # rest) st =
     window_loop chunk_target_size_bytes rest (chunk_step chunk_target_size_bytes chunk st)"

text \<open>
  The messages that tell the branches after the loop apart, as the function logs them.
\<close>

datatype elog =
    DEBUG1_increase_interval double
  | DEBUG1_use_previous_size int
  | DEBUG1_below_change_threshold int
  | LOG_making_change int

text \<open>The last step: the interval is kept unless it differs enough from the current one.\<close>

definition interval_diff_of :: "int \<Rightarrow> int \<Rightarrow> double" where
  "interval_diff_of new_interval current_interval =
     fabs (double_sub (round_double 1)
             (double_div (double_of_int new_interval) (double_of_int current_interval)))"

definition keep_or_change :: "int \<Rightarrow> int \<Rightarrow> elog list \<Rightarrow> int \<times> elog list" where
  "keep_or_change current_interval new_interval msgs =
     (let interval_diff = interval_diff_of new_interval current_interval
      in if double_le interval_diff INTERVAL_MIN_CHANGE_THRESH
         then (current_interval, msgs @ [DEBUG1_below_change_threshold new_interval])
         else (new_interval, msgs @ [LOG_making_change new_interval]))"

datatype call_error = ERROR_invalid_number_of_arguments | ERROR_no_matching_hypertable

text \<open>
  \<^verbatim>\<open>calculate_chunk_interval\<close>. The catalog is outside the file: the model takes the
  number of arguments of the call, the hypertable id that \<^verbatim>\<open>dimension_get_hypertable_id\<close>
  found for the dimension, the dimension's \<^verbatim>\<open>interval_length\<close> and the window that
  \<^verbatim>\<open>chunk_get_window\<close> returned when asked for \<^verbatim>\<open>DEFAULT_CHUNK_WINDOW\<close> chunks.
\<close>

definition calculate_chunk_interval ::
  "int \<Rightarrow> int \<Rightarrow> int \<Rightarrow> int \<Rightarrow> Chunk list \<Rightarrow> call_error + int \<times> elog list" where
  "calculate_chunk_interval nargs hypertable_id current_interval chunk_target_size_bytes chunks =
     (if nargs \<noteq> CHUNK_SIZING_FUNC_NARGS then Inl ERROR_invalid_number_of_arguments
      else if hypertable_id \<le> 0 then Inl ERROR_no_matching_hypertable
      else
        let st = window_loop chunk_target_size_bytes chunks initial_state
        in if num_intervals st = 0 \<and> num_undersized_intervals st > NUM_UNDERSIZED_INTERVALS
           then
             (let avg_fillfactor =
                    double_div (undersized_fillfactor st)
                      (double_of_int (num_undersized_intervals st));
                  incr_factor = double_div UNDERSIZED_FILLFACTOR_THRESH avg_fillfactor;
                  avg_interval = c_div (undersized_intervals st) (num_undersized_intervals st)
              in Inr (keep_or_change current_interval
                        (double_to_int64 (double_mul (double_of_int avg_interval) incr_factor))
                        [DEBUG1_increase_interval incr_factor]))
           else if num_intervals st = 0
           then Inr (current_interval, [DEBUG1_use_previous_size current_interval])
           else Inr (keep_or_change current_interval
                       (c_div (chunk_interval st) (num_intervals st)) []))"

section \<open>Notions for stating the properties\<close>

text \<open>
  The class of a chunk of the window, by the two tests of the loop body: usable when both
  fillfactors exceed their thresholds, undersized when only the interval fillfactor does,
  ignored otherwise and when \<^verbatim>\<open>chunk_get_minmax\<close> found nothing.
\<close>

datatype sample_class = USABLE | UNDERSIZED | IGNORED

definition slice_interval_of :: "Chunk \<Rightarrow> int" where
  "slice_interval_of chunk = int64 (range_end chunk - range_start chunk)"

definition chunk_interval_fillfactor :: "Chunk \<Rightarrow> double" where
  "chunk_interval_fillfactor chunk =
     (case chunk_minmax chunk of
        None \<Rightarrow> NaN
      | Some (min_value, max_value) \<Rightarrow>
          interval_fillfactor_of min_value max_value (slice_interval_of chunk))"

definition chunk_size_fillfactor :: "int \<Rightarrow> Chunk \<Rightarrow> double" where
  "chunk_size_fillfactor chunk_target_size_bytes chunk =
     size_fillfactor_of
       (extrapolated_chunk_size_of (chunk_size chunk) (chunk_interval_fillfactor chunk))
       chunk_target_size_bytes"

definition classify :: "int \<Rightarrow> Chunk \<Rightarrow> sample_class" where
  "classify chunk_target_size_bytes chunk =
     (if chunk_minmax chunk = None then IGNORED
      else if double_gt (chunk_interval_fillfactor chunk) INTERVAL_FILLFACTOR_THRESH \<and>
              double_gt (chunk_size_fillfactor chunk_target_size_bytes chunk)
                SIZE_FILLFACTOR_THRESH
      then USABLE
      else if double_gt (chunk_interval_fillfactor chunk) INTERVAL_FILLFACTOR_THRESH
      then UNDERSIZED
      else IGNORED)"

definition samples :: "sample_class \<Rightarrow> int \<Rightarrow> Chunk list \<Rightarrow> Chunk list" where
  "samples cl chunk_target_size_bytes chunks =
     filter (\<lambda>chunk. classify chunk_target_size_bytes chunk = cl) chunks"

text \<open>
  The interval that the function has computed when it reaches the comparison with the
  current interval: the mean over the usable chunks, or the increased mean over the
  undersized ones; \<open>None\<close> when the function has returned before.
\<close>

definition candidate_interval :: "int \<Rightarrow> Chunk list \<Rightarrow> int option" where
  "candidate_interval chunk_target_size_bytes chunks =
     (let st = window_loop chunk_target_size_bytes chunks initial_state
      in if num_intervals st = 0 \<and> num_undersized_intervals st > NUM_UNDERSIZED_INTERVALS
         then Some (double_to_int64
                      (double_mul
                         (double_of_int
                            (c_div (undersized_intervals st) (num_undersized_intervals st)))
                         (double_div UNDERSIZED_FILLFACTOR_THRESH
                            (double_div (undersized_fillfactor st)
                               (double_of_int (num_undersized_intervals st))))))
         else if num_intervals st = 0 then None
         else Some (c_div (chunk_interval st) (num_intervals st)))"

text \<open>
  The interval that a usable chunk implies: its slice width divided by its size
  fillfactor, the summand of the loop.
\<close>

definition implied_interval :: "int \<Rightarrow> Chunk \<Rightarrow> double" where
  "implied_interval chunk_target_size_bytes chunk =
     double_div (double_of_int (slice_interval_of chunk))
       (chunk_size_fillfactor chunk_target_size_bytes chunk)"

text \<open>
  Chunks within the bounds under which no conversion to \<^verbatim>\<open>int64\<close> overflows in a window
  of at most three chunks: a size from 0 to \<open>2 ^ 61\<close> bytes and a slice width from 1 to
  \<open>2 ^ 58\<close>.
\<close>

definition bounded_chunk :: "Chunk \<Rightarrow> bool" where
  "bounded_chunk chunk \<longleftrightarrow>
     0 \<le> chunk_size chunk \<and> chunk_size chunk \<le> 2 ^ 61 \<and>
     0 < slice_interval_of chunk \<and> slice_interval_of chunk \<le> 2 ^ 58"

text \<open>The sums over the undersized chunks, accumulated as the loop does.\<close>

definition undersized_interval_sum :: "Chunk list \<Rightarrow> int" where
  "undersized_interval_sum chunks =
     fold (\<lambda>chunk s. int64 (s + slice_interval_of chunk)) chunks 0"

definition undersized_fillfactor_sum :: "int \<Rightarrow> Chunk list \<Rightarrow> double" where
  "undersized_fillfactor_sum chunk_target_size_bytes chunks =
     fold (\<lambda>chunk s. double_add s (chunk_size_fillfactor chunk_target_size_bytes chunk))
       chunks (Finite 0)"

text \<open>
  The increase from the undersized chunks of a window: the mean slice width (an integer
  division), the mean size fillfactor, the factor by which the mean slice width is
  multiplied, the product, and the product converted to \<^verbatim>\<open>int64\<close>.
\<close>

definition undersized_avg_interval :: "int \<Rightarrow> Chunk list \<Rightarrow> int" where
  "undersized_avg_interval chunk_target_size_bytes chunks =
     c_div (undersized_interval_sum (samples UNDERSIZED chunk_target_size_bytes chunks))
       (int (length (samples UNDERSIZED chunk_target_size_bytes chunks)))"

definition undersized_avg_fillfactor :: "int \<Rightarrow> Chunk list \<Rightarrow> double" where
  "undersized_avg_fillfactor chunk_target_size_bytes chunks =
     double_div
       (undersized_fillfactor_sum chunk_target_size_bytes
          (samples UNDERSIZED chunk_target_size_bytes chunks))
       (double_of_int (int (length (samples UNDERSIZED chunk_target_size_bytes chunks))))"

definition boost_factor :: "int \<Rightarrow> Chunk list \<Rightarrow> double" where
  "boost_factor chunk_target_size_bytes chunks =
     double_div UNDERSIZED_FILLFACTOR_THRESH
       (undersized_avg_fillfactor chunk_target_size_bytes chunks)"

definition boost_product :: "int \<Rightarrow> Chunk list \<Rightarrow> double" where
  "boost_product chunk_target_size_bytes chunks =
     double_mul (double_of_int (undersized_avg_interval chunk_target_size_bytes chunks))
       (boost_factor chunk_target_size_bytes chunks)"

definition boosted_interval :: "int \<Rightarrow> Chunk list \<Rightarrow> int" where
  "boosted_interval chunk_target_size_bytes chunks =
     double_to_int64 (boost_product chunk_target_size_bytes chunks)"

text \<open>Whether a call has logged the message of the increase from undersized chunks.\<close>

definition boost_logged :: "call_error + int \<times> elog list \<Rightarrow> bool" where
  "boost_logged res =
     (case res of
        Inl e \<Rightarrow> False
      | Inr (new_interval, msgs) \<Rightarrow>
          list_ex (\<lambda>m. case m of DEBUG1_increase_interval f \<Rightarrow> True | _ \<Rightarrow> False) msgs)"

section \<open>Properties of the value-range locator\<close>







section \<open>Properties of the memory budget\<close>

text \<open>
  Claim C9. With a positive override, \<open>estimate_effective_memory_cache_size\<close>
  returns the override whatever the configuration holds (also when an option is missing).
  Without one, and with both options present and parsed, it returns the larger of the
  two sizes in bytes, bounded by half of the system memory.
\<close>

theorem estimate_effective_memory_cache_size_result:
  "(0 < fixed \<longrightarrow>
      estimate_effective_memory_cache_size fixed sysmem BLCKSZ GetConfigOption parse_int =
        Inr fixed) \<and>
   (\<not> 0 < fixed \<and> 0 < BLCKSZ \<and>
    GetConfigOption ''shared_buffers'' = Some val1 \<and> parse_int val1 = Inr shared_buffers \<and>
    GetConfigOption ''effective_cache_size'' = Some val2 \<and>
    parse_int val2 = Inr effective_cache_size \<longrightarrow>
      estimate_effective_memory_cache_size fixed sysmem BLCKSZ GetConfigOption parse_int =
        Inr (min (max (shared_buffers * BLCKSZ) (effective_cache_size * BLCKSZ))
               (c_div sysmem 2)))"
proof (intro conjI impI)
  assume "0 < fixed"
  then show "estimate_effective_memory_cache_size fixed sysmem BLCKSZ GetConfigOption parse_int =
      Inr fixed"
    by (simp add: estimate_effective_memory_cache_size_def)
next
  assume h: "\<not> 0 < fixed \<and> 0 < BLCKSZ \<and>
    GetConfigOption ''shared_buffers'' = Some val1 \<and> parse_int val1 = Inr shared_buffers \<and>
    GetConfigOption ''effective_cache_size'' = Some val2 \<and>
    parse_int val2 = Inr effective_cache_size"
  then have m: "max shared_buffers effective_cache_size * BLCKSZ =
      max (shared_buffers * BLCKSZ) (effective_cache_size * BLCKSZ)"
    by (simp add: max_def)
  show "estimate_effective_memory_cache_size fixed sysmem BLCKSZ GetConfigOption parse_int =
      Inr (min (max (shared_buffers * BLCKSZ) (effective_cache_size * BLCKSZ))
             (c_div sysmem 2))"
    using h unfolding m [symmetric]
    by (simp add: estimate_effective_memory_cache_size_def Let_def min_def)
qed

text \<open>
  An override of 1000 bytes is returned with no option configured. With no override,
  16 GiB of memory, 16384 blocks of shared buffers and 524288 blocks of effective cache
  size at 8192 bytes a block, the result is 4 GiB; with 4 GiB of memory it is the bound
  of 2 GiB.
\<close>

theorem estimate_effective_memory_cache_size_result_witness:
  "estimate_effective_memory_cache_size 1000 17179869184 8192 (\<lambda>name. None) (\<lambda>val. Inl ''hint'') =
     Inr 1000 \<and>
   estimate_effective_memory_cache_size (- 1) 17179869184 8192
       (\<lambda>name. if name = ''shared_buffers'' then Some ''16384''
               else if name = ''effective_cache_size'' then Some ''524288'' else None)
       (\<lambda>val. if val = ''16384'' then Inr 16384
              else if val = ''524288'' then Inr 524288 else Inl ''hint'') =
     Inr 4294967296 \<and>
   estimate_effective_memory_cache_size 0 4294967296 8192
       (\<lambda>name. if name = ''shared_buffers'' then Some ''16384''
               else if name = ''effective_cache_size'' then Some ''524288'' else None)
       (\<lambda>val. if val = ''16384'' then Inr 16384
              else if val = ''524288'' then Inr 524288 else Inl ''hint'') =
     Inr 2147483648"
  using estimate_effective_memory_cache_size_result
      [where fixed = 1000 and sysmem = 17179869184 and BLCKSZ = 8192
         and GetConfigOption = "\<lambda>name. None" and parse_int = "\<lambda>val. Inl ''hint''"]
    estimate_effective_memory_cache_size_result
      [where fixed = "- 1" and sysmem = 17179869184 and BLCKSZ = 8192
         and GetConfigOption = "\<lambda>name. if name = ''shared_buffers'' then Some ''16384''
               else if name = ''effective_cache_size'' then Some ''524288'' else None"
         and parse_int = "\<lambda>val. if val = ''16384'' then Inr 16384
              else if val = ''524288'' then Inr 524288 else Inl ''hint''"
         and ?val1.0 = "''16384''" and ?val2.0 = "''524288''"
         and shared_buffers = 16384 and effective_cache_size = 524288]
    estimate_effective_memory_cache_size_result
      [where fixed = 0 and sysmem = 4294967296 and BLCKSZ = 8192
         and GetConfigOption = "\<lambda>name. if name = ''shared_buffers'' then Some ''16384''
               else if name = ''effective_cache_size'' then Some ''524288'' else None"
         and parse_int = "\<lambda>val. if val = ''16384'' then Inr 16384
              else if val = ''524288'' then Inr 524288 else Inl ''hint''"
         and ?val1.0 = "''16384''" and ?val2.0 = "''524288''"
         and shared_buffers = 16384 and effective_cache_size = 524288]
  by (simp add: c_div_def)

section \<open>Properties of the rounding\<close>

subsection \<open>The binary exponent\<close>

lemma rat_of_quotient:
  assumes "quotient_of x = (p, q)"
  shows "x = of_int p / of_int q" "0 < q"
  using assms quotient_of_div quotient_of_denom_pos by blast+

lemma two_powi_pos [simp]: "0 < (2::rat) powi e"
  by (simp add: power_int_def)

lemma two_powi_Suc: "(2::rat) powi (e + 1) = 2 * 2 powi e"
  by (simp add: power_int_add)

lemma two_powi_mono: "a \<le> b \<Longrightarrow> (2::rat) powi a \<le> 2 powi b"
  by (rule power_int_increasing) simp_all

lemma two_powi_strict_mono: "a < b \<Longrightarrow> (2::rat) powi a < 2 powi b"
  by (rule power_int_strict_increasing) simp_all

lemma bitlen_powi_bounds:
  assumes "0 < p"
  shows "2 powi (bitlen p - 1) \<le> (of_int p :: rat)" "(of_int p :: rat) < 2 powi bitlen p"
proof -
  have b: "1 \<le> bitlen p" using assms bitlen_eq_zero_iff [of p] bitlen_nonneg [of p] by linarith
  have "(2::int) ^ nat (bitlen p - 1) \<le> p" "p < 2 ^ nat (bitlen p)"
    using bitlen_bounds [OF assms] by simp_all
  then have "(of_int ((2::int) ^ nat (bitlen p - 1)) :: rat) \<le> of_int p"
    "(of_int p :: rat) < of_int (2 ^ nat (bitlen p))"
    by (simp_all only: of_int_le_iff of_int_less_iff)
  then show "2 powi (bitlen p - 1) \<le> (of_int p :: rat)" "(of_int p :: rat) < 2 powi bitlen p"
    using b by (simp_all add: power_int_def)
qed

lemma ilogb_bounds:
  assumes "x \<noteq> 0"
  shows "2 powi ilogb x \<le> \<bar>x\<bar>" "\<bar>x\<bar> < 2 powi (ilogb x + 1)"
proof -
  obtain p q where pq: "quotient_of \<bar>x\<bar> = (p, q)" by (cases "quotient_of \<bar>x\<bar>")
  have x: "\<bar>x\<bar> = of_int p / of_int q" and q: "0 < q" using rat_of_quotient [OF pq] by simp_all
  have "0 < \<bar>x\<bar>" using assms by simp
  then have p: "0 < p" using x q by (simp add: zero_less_divide_iff)
  define d where "d = bitlen p - bitlen q"
  have il: "ilogb x = (if 2 powi d \<le> \<bar>x\<bar> then d else d - 1)"
    by (simp add: ilogb_def pq d_def Let_def)
  have qpos: "(0::rat) < of_int q" using q by simp
  have up: "\<bar>x\<bar> < 2 powi (d + 1)"
  proof -
    have "of_int p < (2::rat) powi bitlen p" using bitlen_powi_bounds [OF p] by simp
    also have "\<dots> = 2 powi (d + 1) * 2 powi (bitlen q - 1)"
      by (simp add: d_def power_int_add [symmetric])
    also have "\<dots> \<le> 2 powi (d + 1) * of_int q"
      using bitlen_powi_bounds(1) [OF q] by (simp add: mult_left_mono)
    finally show ?thesis using qpos by (simp add: x pos_divide_less_eq)
  qed
  have lo: "2 powi (d - 1) \<le> \<bar>x\<bar>"
  proof -
    have "2 powi (d - 1) * of_int q \<le> 2 powi (d - 1) * (2::rat) powi bitlen q"
      using bitlen_powi_bounds(2) [OF q] by (simp add: mult_left_mono)
    also have "\<dots> = 2 powi (bitlen p - 1)"
      by (simp add: d_def power_int_add [symmetric])
    also have "\<dots> \<le> of_int p" using bitlen_powi_bounds(1) [OF p] .
    finally show ?thesis using qpos by (simp add: x pos_le_divide_eq)
  qed
  show "2 powi ilogb x \<le> \<bar>x\<bar>" using lo by (simp add: il)
  show "\<bar>x\<bar> < 2 powi (ilogb x + 1)" using up by (auto simp: il not_le)
qed

lemma ilogb_unique:
  assumes "2 powi e \<le> \<bar>x\<bar>" "\<bar>x\<bar> < 2 powi (e + 1)"
  shows "ilogb x = e"
proof -
  have "0 < \<bar>x\<bar>" using assms(1) two_powi_pos [of e] by linarith
  then have nz: "x \<noteq> 0" by simp
  have "(2::rat) powi e < 2 powi (ilogb x + 1)"
    using assms(1) ilogb_bounds(2) [OF nz] by linarith
  then have a: "e < ilogb x + 1"
    by (metis not_le two_powi_mono leD)
  have "(2::rat) powi ilogb x < 2 powi (e + 1)"
    using assms(2) ilogb_bounds(1) [OF nz] by linarith
  then have b: "ilogb x < e + 1"
    by (metis not_le two_powi_mono leD)
  show ?thesis using a b by linarith
qed

lemma ilogb_minus [simp]: "ilogb (- x) = ilogb x"
  by (simp add: ilogb_def)

lemma ilogb_mono:
  assumes "x \<noteq> 0" "\<bar>x\<bar> \<le> \<bar>y\<bar>"
  shows "ilogb x \<le> ilogb y"
proof -
  have ny: "y \<noteq> 0" using assms by auto
  have "(2::rat) powi ilogb x < 2 powi (ilogb y + 1)"
    using ilogb_bounds(1) [OF assms(1)] ilogb_bounds(2) [OF ny] assms(2) by linarith
  then have "ilogb x < ilogb y + 1" by (metis not_le two_powi_mono leD)
  then show ?thesis by simp
qed

subsection \<open>Rounding to the nearest integer, ties to even\<close>

lemma round_half_even_of_int [simp]: "round_half_even (of_int n) = n"
  by (simp add: round_half_even_def)

lemma round_half_even_range:
  "\<lfloor>x\<rfloor> \<le> round_half_even x" "round_half_even x \<le> \<lfloor>x\<rfloor> + 1"
  by (simp_all add: round_half_even_def Let_def)

lemma round_half_even_mono:
  assumes "x \<le> y"
  shows "round_half_even x \<le> round_half_even y"
proof (cases "\<lfloor>x\<rfloor> = \<lfloor>y\<rfloor>")
  case True
  then show ?thesis using assms
    by (auto simp: round_half_even_def Let_def)
next
  case False
  then have "\<lfloor>x\<rfloor> + 1 \<le> \<lfloor>y\<rfloor>" using floor_mono [OF assms] by linarith
  then show ?thesis
    using round_half_even_range(2) [of x] round_half_even_range(1) [of y] by linarith
qed

lemma round_half_even_error: "\<bar>of_int (round_half_even x) - x\<bar> \<le> 1 / 2"
proof -
  have "of_int \<lfloor>x\<rfloor> \<le> x" "x < of_int \<lfloor>x\<rfloor> + 1" by linarith+
  then show ?thesis
    by (auto simp: round_half_even_def Let_def abs_le_iff)
qed

lemma round_half_even_minus: "round_half_even (- x) = - round_half_even x"
proof (cases "x = of_int \<lfloor>x\<rfloor>")
  case True
  then obtain n where "x = of_int n" by blast
  then show ?thesis by (simp flip: of_int_minus)
next
  case False
  define f where "f = \<lfloor>x\<rfloor>"
  define d where "d = x - of_int f"
  have fl: "\<lfloor>- x\<rfloor> = - f - 1"
    using False by (simp add: floor_minus ceiling_altdef f_def)
  have d': "- x - of_int (- f - 1) = 1 - d"
    by (simp add: d_def)
  have l: "round_half_even (- x) =
      (if 1 - d < 1 / 2 then - f - 1 else if 1 / 2 < 1 - d then - f else
       if even (- f - 1) then - f - 1 else - f)"
    unfolding round_half_even_def Let_def fl d' by simp
  have r: "round_half_even x =
      (if d < 1 / 2 then f else if 1 / 2 < d then f + 1 else if even f then f else f + 1)"
    unfolding round_half_even_def Let_def f_def d_def by simp
  consider "d < 1 / 2" | "1 / 2 < d" | "d = 1 / 2" by linarith
  then show ?thesis
  proof cases
    case 1
    then have "\<not> 1 - d < 1 / 2" "1 / 2 < 1 - d" by linarith+
    then show ?thesis using 1 by (simp add: l r)
  next
    case 2
    then have "1 - d < 1 / 2" "\<not> d < 1 / 2" by linarith+
    then show ?thesis using 2 by (simp add: l r)
  next
    case 3
    then show ?thesis by (simp add: l r)
  qed
qed

lemma round_half_even_nonneg: "0 \<le> x \<Longrightarrow> 0 \<le> round_half_even x"
  using round_half_even_mono [of 0 x] round_half_even_of_int [of 0] by simp

lemma ulp_pos [simp]: "0 < ulp x"
  by (simp add: ulp_def)

lemma ulp_nonneg [simp]: "0 \<le> ulp x"
  by (simp add: ulp_def)

lemma ulp_nonzero [simp]: "ulp x \<noteq> 0"
  by (simp add: ulp_def)

lemma ulp_minus [simp]: "ulp (- x) = ulp x"
  by (simp add: ulp_def)

lemma nearest_minus: "nearest (- x) = - nearest x"
  by (simp add: nearest_def round_half_even_minus)

lemma round_half_even_zero [simp]: "round_half_even 0 = 0"
  by (simp add: round_half_even_def)

lemma nearest_zero [simp]: "nearest 0 = 0"
  by (simp add: nearest_def)

lemma nearest_nonneg:
  assumes "0 \<le> x"
  shows "0 \<le> nearest x"
proof -
  have "0 \<le> x / ulp x" using assms by (simp add: zero_le_divide_iff)
  then have "0 \<le> round_half_even (x / ulp x)" by (rule round_half_even_nonneg)
  then show ?thesis by (simp add: nearest_def)
qed

lemma nearest_error: "\<bar>nearest x - x\<bar> \<le> ulp x / 2"
proof -
  have "nearest x - x = (of_int (round_half_even (x / ulp x)) - x / ulp x) * ulp x"
    by (simp add: nearest_def left_diff_distrib)
  then have "\<bar>nearest x - x\<bar> = \<bar>of_int (round_half_even (x / ulp x)) - x / ulp x\<bar> * ulp x"
    by (simp add: abs_mult)
  also have "\<dots> \<le> 1 / 2 * ulp x"
    by (rule mult_right_mono [OF round_half_even_error]) simp
  finally show ?thesis by simp
qed

lemma nearest_on_grid:
  assumes "x / ulp x = of_int n"
  shows "nearest x = x"
proof -
  have "nearest x = x / ulp x * ulp x" by (simp add: nearest_def assms)
  then show ?thesis by simp
qed

subsection \<open>Rounding is monotone and exact on representable numbers\<close>

lemma ulp_eq: "ulp x = 2 powi (max (ilogb x) (- 1022) - 52)"
  by (simp add: ulp_def)

lemma two_powi_add: "(2::rat) powi a * 2 powi b = 2 powi (a + b)"
  by (simp add: power_int_add)

lemma two_powi_53: "(2::rat) powi 53 * 2 powi (e - 52) = 2 powi (e + 1)"
proof -
  have "53 + (e - 52) = e + 1" by simp
  then show ?thesis by (metis two_powi_add)
qed

lemma two_powi_52: "(2::rat) powi 52 * 2 powi (e - 52) = 2 powi e"
proof -
  have "52 + (e - 52) = e" by simp
  then show ?thesis by (metis two_powi_add)
qed

lemma nearest_le_pow:
  assumes "0 < x"
  shows "nearest x \<le> 2 powi (max (ilogb x) (- 1022) + 1)"
proof -
  define e where "e = max (ilogb x) (- 1022)"
  have u: "ulp x = 2 powi (e - 52)" by (simp add: ulp_def e_def)
  have "x < 2 powi (ilogb x + 1)" using ilogb_bounds(2) [of x] assms by simp
  also have "\<dots> \<le> 2 powi (e + 1)" by (rule two_powi_mono) (simp add: e_def)
  finally have "x / ulp x \<le> 2 powi (e + 1) / ulp x"
    by (simp add: divide_right_mono)
  also have "\<dots> = 2 powi 53" unfolding u
    by (simp add: power_int_diff [symmetric])
  also have "\<dots> = of_int (2 ^ 53)" by simp
  finally have "round_half_even (x / ulp x) \<le> round_half_even (of_int (2 ^ 53))"
    by (rule round_half_even_mono)
  then have "round_half_even (x / ulp x) \<le> 2 ^ 53"
    by (simp only: round_half_even_of_int)
  then have "(of_int (round_half_even (x / ulp x)) :: rat) \<le> of_int (2 ^ 53)"
    by (simp only: of_int_le_iff)
  then have "nearest x \<le> of_int (2 ^ 53) * ulp x"
    unfolding nearest_def by (rule mult_right_mono) simp
  also have "\<dots> = 2 powi 53 * 2 powi (e - 52)" by (simp add: u)
  also have "\<dots> = 2 powi (e + 1)" by (rule two_powi_53)
  finally show ?thesis by (simp add: e_def)
qed

lemma nearest_ge_pow:
  assumes "0 < y" "- 1022 \<le> ilogb y"
  shows "2 powi ilogb y \<le> nearest y"
proof -
  define e where "e = ilogb y"
  have u: "ulp y = 2 powi (e - 52)" using assms(2) by (simp add: ulp_def e_def max_def)
  have "2 powi e \<le> y" using ilogb_bounds(1) [of y] assms by (simp add: e_def)
  then have "2 powi e / ulp y \<le> y / ulp y" by (simp add: divide_right_mono)
  moreover have "2 powi e / ulp y = 2 powi 52" unfolding u
    by (simp add: power_int_diff [symmetric])
  moreover have "(2::rat) powi 52 = of_int (2 ^ 52)" by simp
  ultimately have "of_int (2 ^ 52) \<le> y / ulp y" by simp
  then have "round_half_even (of_int (2 ^ 52)) \<le> round_half_even (y / ulp y)"
    by (rule round_half_even_mono)
  then have "2 ^ 52 \<le> round_half_even (y / ulp y)"
    by (simp only: round_half_even_of_int)
  then have "(of_int (2 ^ 52) :: rat) \<le> of_int (round_half_even (y / ulp y))"
    by (simp only: of_int_le_iff)
  then have "of_int (2 ^ 52) * ulp y \<le> nearest y"
    unfolding nearest_def by (rule mult_right_mono) simp
  moreover have "of_int (2 ^ 52) * ulp y = 2 powi 52 * 2 powi (e - 52)" by (simp add: u)
  moreover have "2 powi 52 * 2 powi (e - 52) = (2::rat) powi e" by (rule two_powi_52)
  ultimately show ?thesis by (simp add: e_def)
qed

lemma nearest_mono_pos:
  assumes "0 < x" "x \<le> y"
  shows "nearest x \<le> nearest y"
proof -
  have y: "0 < y" using assms by simp
  have il: "ilogb x \<le> ilogb y" using ilogb_mono [of x y] assms by simp
  show ?thesis
  proof (cases "max (ilogb x) (- 1022) = max (ilogb y) (- 1022)")
    case True
    then have u: "ulp x = ulp y" by (simp add: ulp_def)
    have "x / ulp y \<le> y / ulp y" using assms(2) by (simp add: divide_right_mono)
    then have "round_half_even (x / ulp y) \<le> round_half_even (y / ulp y)"
      by (rule round_half_even_mono)
    then have "(of_int (round_half_even (x / ulp y)) :: rat) \<le> of_int (round_half_even (y / ulp y))"
      by (simp only: of_int_le_iff)
    then show ?thesis unfolding nearest_def u by (rule mult_right_mono) simp
  next
    case False
    then have lt: "max (ilogb x) (- 1022) < ilogb y" and n: "- 1022 \<le> ilogb y"
      using il by (auto simp: max_def split: if_splits)
    have "nearest x \<le> 2 powi (max (ilogb x) (- 1022) + 1)" by (rule nearest_le_pow [OF assms(1)])
    also have "\<dots> \<le> 2 powi ilogb y" by (rule two_powi_mono) (use lt in linarith)
    also have "\<dots> \<le> nearest y" by (rule nearest_ge_pow [OF y n])
    finally show ?thesis .
  qed
qed

lemma nearest_mono:
  assumes "x \<le> y"
  shows "nearest x \<le> nearest y"
proof -
  consider "0 < x" | "x \<le> 0" "0 \<le> y" | "y < 0" by linarith
  then show ?thesis
  proof cases
    case 1
    then show ?thesis using assms by (rule nearest_mono_pos)
  next
    case 2
    have "0 \<le> nearest (- x)" using 2(1) by (simp add: nearest_nonneg)
    then have "nearest x \<le> 0" by (simp add: nearest_minus)
    also have "0 \<le> nearest y" using 2(2) by (rule nearest_nonneg)
    finally show ?thesis .
  next
    case 3
    have "nearest (- y) \<le> nearest (- x)"
      by (rule nearest_mono_pos) (use 3 assms in simp_all)
    then show ?thesis by (simp add: nearest_minus)
  qed
qed

lemma nearest_representable:
  assumes x: "x = of_int m * 2 powi k" and m: "\<bar>m\<bar> < 2 ^ 53" and k: "- 1074 \<le> k"
  shows "nearest x = x"
proof (cases "m = 0")
  case True
  then show ?thesis by (simp add: x)
next
  case False
  then have nz: "x \<noteq> 0" by (simp add: x)
  have "(of_int \<bar>m\<bar> :: rat) < of_int (2 ^ 53)" using m by (simp only: of_int_less_iff)
  then have "\<bar>of_int m :: rat\<bar> < 2 powi 53" by simp
  then have "\<bar>x\<bar> < 2 powi 53 * 2 powi k"
    by (simp add: x abs_mult)
  then have "\<bar>x\<bar> < 2 powi (53 + k)" by (simp add: power_int_add)
  then have "(2::rat) powi ilogb x < 2 powi (53 + k)"
    using ilogb_bounds(1) [OF nz] by linarith
  then have "ilogb x < 53 + k" by (metis not_le two_powi_mono leD)
  then have e: "max (ilogb x) (- 1022) - 52 \<le> k" using k by simp
  define j where "j = nat (k - (max (ilogb x) (- 1022) - 52))"
  have kj: "k = (max (ilogb x) (- 1022) - 52) + int j" using e by (simp add: j_def)
  define u where "u = ulp x"
  have upos: "u \<noteq> 0" by (simp add: u_def)
  have "2 powi k = u * 2 ^ j"
    unfolding u_def by (subst kj) (simp add: ulp_def power_int_add)
  then have "x / u = of_int m * 2 ^ j" using upos by (simp add: x)
  then have "x / ulp x = of_int m * 2 ^ j" by (simp add: u_def)
  also have "\<dots> = of_int (m * 2 ^ j)" by simp
  finally show ?thesis by (rule nearest_on_grid)
qed

lemma nearest_pow2: "- 1074 \<le> k \<Longrightarrow> nearest (2 powi k) = 2 powi k"
  using nearest_representable [of "2 powi k" 1 k] by simp

lemma nearest_of_int:
  assumes "\<bar>n\<bar> \<le> 2 ^ 53"
  shows "nearest (of_int n) = of_int n"
proof (cases "\<bar>n\<bar> = 2 ^ 53")
  case True
  then have "n = 2 ^ 53 \<or> n = - (2 ^ 53)" by linarith
  then have "of_int n = (2::rat) powi 53 \<or> of_int n = - ((2::rat) powi 53)" by auto
  then show ?thesis using nearest_pow2 [of 53] by (auto simp: nearest_minus)
next
  case False
  then have "\<bar>n\<bar> < 2 ^ 53" using assms by linarith
  then show ?thesis using nearest_representable [of "of_int n" n 0] by simp
qed

subsection \<open>Rounded results by certificate\<close>

text \<open>
  A rounded value is certified by its binary exponent \<open>e\<close> and the integer \<open>n\<close> of
  units in the last place: the exact value lies less than half a unit from \<open>n\<close> units.
\<close>

lemma round_double_nonneg:
  assumes "0 \<le> x" "nearest x < 2 ^ 1024"
  shows "round_double x = Finite (nearest x)"
proof (cases "x = 0")
  case True
  then show ?thesis by (simp add: round_double_def)
next
  case False
  then have "0 < x" using assms(1) by simp
  moreover have "0 \<le> nearest x" using assms(1) by (rule nearest_nonneg)
  ultimately show ?thesis using assms(2) by (simp add: round_double_def Let_def)
qed

lemma round_half_even_eqI:
  assumes "of_int n - 1 / 2 < x" "x < of_int n + 1 / 2"
  shows "round_half_even x = n"
proof -
  consider "of_int n \<le> x" | "x < of_int n" by linarith
  then show ?thesis
  proof cases
    case 1
    then have "\<lfloor>x\<rfloor> = n" using assms(2) by (intro floor_unique) simp_all
    then show ?thesis using assms(2) by (simp add: round_half_even_def Let_def)
  next
    case 2
    then have "\<lfloor>x\<rfloor> = n - 1" using assms(1) by (intro floor_unique) simp_all
    then show ?thesis using assms(1) 2 by (simp add: round_half_even_def Let_def)
  qed
qed

lemma nearest_eqI:
  assumes "2 powi e \<le> \<bar>x\<bar>" "\<bar>x\<bar> < 2 powi (e + 1)"
    and "\<bar>x - of_int n * 2 powi (max e (- 1022) - 52)\<bar> < 2 powi (max e (- 1022) - 52) / 2"
  shows "nearest x = of_int n * 2 powi (max e (- 1022) - 52)"
proof -
  define u :: rat where "u = 2 powi (max e (- 1022) - 52)"
  have il: "ilogb x = e" using assms(1,2) by (rule ilogb_unique)
  have u: "ulp x = u" by (simp add: ulp_def il u_def)
  have upos: "0 < u" by (simp add: u_def)
  have "x / u - of_int n = (x - of_int n * u) / u"
    using upos by (simp add: diff_divide_distrib)
  then have "\<bar>x / u - of_int n\<bar> = \<bar>x - of_int n * u\<bar> / u"
    using upos by (simp add: abs_divide)
  also have "\<dots> < u / 2 / u"
    using assms(3) upos unfolding u_def [symmetric] by (simp add: divide_strict_right_mono)
  finally have "\<bar>x / u - of_int n\<bar> < 1 / 2" using upos by simp
  then have "of_int n - 1 / 2 < x / u" "x / u < of_int n + 1 / 2"
    by linarith+
  then have "round_half_even (x / u) = n"
    by (rule round_half_even_eqI)
  then show ?thesis by (simp add: nearest_def u) (simp add: u_def)
qed

lemma round_double_eqI:
  assumes "2 powi e \<le> \<bar>x\<bar>" "\<bar>x\<bar> < 2 powi (e + 1)"
    and "\<bar>x - of_int n * 2 powi (max e (- 1022) - 52)\<bar> < 2 powi (max e (- 1022) - 52) / 2"
    and "r = of_int n * 2 powi (max e (- 1022) - 52)" "r \<noteq> 0" "\<bar>r\<bar> < 2 ^ 1024"
  shows "round_double x = Finite r"
proof -
  have "0 < \<bar>x\<bar>" using assms(1) two_powi_pos [of e] by linarith
  then have nz: "x \<noteq> 0" by simp
  have "nearest x = r" using nearest_eqI [OF assms(1-3)] assms(4) by simp
  then show ?thesis using nz assms(5,6) by (simp add: round_double_def Let_def)
qed

lemma round_double_zero [simp]: "round_double 0 = Finite 0"
  by (simp add: round_double_def)

lemma round_double_of_int:
  assumes "\<bar>n\<bar> \<le> 2 ^ 53"
  shows "round_double (of_int n) = Finite (of_int n)"
proof (cases "n = 0")
  case True
  then show ?thesis by simp
next
  case False
  have "(of_int \<bar>n\<bar> :: rat) \<le> of_int (2 ^ 53)" using assms by (simp only: of_int_le_iff)
  then have "\<bar>of_int n :: rat\<bar> \<le> 2 ^ 53" by simp
  also have "\<dots> < 2 ^ 1024" by simp
  finally have "\<bar>of_int n :: rat\<bar> < 2 ^ 1024" .
  then show ?thesis
    using False by (simp add: round_double_def nearest_of_int [OF assms])
qed

lemma round_double_numeral:
  "numeral k \<le> (2::int) ^ 53 \<Longrightarrow> round_double (numeral k) = Finite (numeral k)"
  using round_double_of_int [of "numeral k"] by simp

lemma round_double_neg_numeral:
  "numeral k \<le> (2::int) ^ 53 \<Longrightarrow> round_double (- numeral k) = Finite (- numeral k)"
  using round_double_of_int [of "- numeral k"] by simp

lemma round_double_one: "round_double 1 = Finite 1"
  using round_double_of_int [of 1] by simp

text \<open>The integer part of a quotient of numerals.\<close>

lemma floor_rat_numeral: "\<lfloor>(numeral a :: rat) / numeral b\<rfloor> = numeral a div numeral b"
  using floor_divide_of_int_eq [of "numeral a" "numeral b", where ?'a = rat] by simp

lemma floor_rat_one: "\<lfloor>(1 :: rat) / numeral b\<rfloor> = 1 div numeral b"
  using floor_divide_of_int_eq [of 1 "numeral b", where ?'a = rat] by simp

section \<open>Properties of the interval estimator\<close>

subsection \<open>The loop over the window\<close>

lemma INTERVAL_FILLFACTOR_THRESH_value: "INTERVAL_FILLFACTOR_THRESH = Finite (1 / 2)"
  unfolding INTERVAL_FILLFACTOR_THRESH_def
  by (rule round_double_eqI [where e = "- 1" and n = 4503599627370496]) simp_all

lemma SIZE_FILLFACTOR_THRESH_value:
  "SIZE_FILLFACTOR_THRESH = Finite (5404319552844595 / 36028797018963968)"
  unfolding SIZE_FILLFACTOR_THRESH_def
  by (rule round_double_eqI [where e = "- 3" and n = 5404319552844595]) simp_all

lemma INTERVAL_MIN_CHANGE_THRESH_value:
  "INTERVAL_MIN_CHANGE_THRESH = Finite (5404319552844595 / 36028797018963968)"
  unfolding INTERVAL_MIN_CHANGE_THRESH_def
  by (rule round_double_eqI [where e = "- 3" and n = 5404319552844595]) simp_all

lemma chunk_step_classify:
  "chunk_step target chunk st =
     (case classify target chunk of
        USABLE \<Rightarrow>
          st\<lparr>chunk_interval :=
               double_to_int64
                 (double_add (double_of_int (chunk_interval st))
                    (double_div (double_of_int (slice_interval_of chunk))
                       (chunk_size_fillfactor target chunk))),
             num_intervals := num_intervals st + 1\<rparr>
      | UNDERSIZED \<Rightarrow>
          st\<lparr>undersized_intervals := int64 (undersized_intervals st + slice_interval_of chunk),
             undersized_fillfactor :=
               double_add (undersized_fillfactor st) (chunk_size_fillfactor target chunk),
             num_undersized_intervals := num_undersized_intervals st + 1\<rparr>
      | IGNORED \<Rightarrow> st)"
  by (cases "chunk_minmax chunk")
    (auto simp: chunk_step_def classify_def chunk_size_fillfactor_def
      chunk_interval_fillfactor_def slice_interval_of_def Let_def)

lemma window_loop_append:
  "window_loop target (xs @ ys) st = window_loop target ys (window_loop target xs st)"
  by (induction xs arbitrary: st) simp_all

lemma window_loop_num_intervals:
  "num_intervals (window_loop target chunks st) =
     num_intervals st + int (length (samples USABLE target chunks))"
proof (induction chunks arbitrary: st)
  case Nil
  then show ?case by (simp add: samples_def)
next
  case (Cons chunk rest)
  show ?case
    by (cases "classify target chunk")
      (simp_all add: Cons.IH chunk_step_classify samples_def)
qed

lemma window_loop_num_undersized_intervals:
  "num_undersized_intervals (window_loop target chunks st) =
     num_undersized_intervals st + int (length (samples UNDERSIZED target chunks))"
proof (induction chunks arbitrary: st)
  case Nil
  then show ?case by (simp add: samples_def)
next
  case (Cons chunk rest)
  show ?case
    by (cases "classify target chunk")
      (simp_all add: Cons.IH chunk_step_classify samples_def)
qed

lemma window_loop_undersized_intervals:
  "undersized_intervals (window_loop target chunks st) =
     fold (\<lambda>chunk s. int64 (s + slice_interval_of chunk)) (samples UNDERSIZED target chunks)
       (undersized_intervals st)"
proof (induction chunks arbitrary: st)
  case Nil
  then show ?case by (simp add: samples_def)
next
  case (Cons chunk rest)
  show ?case
    by (cases "classify target chunk")
      (simp_all add: Cons.IH chunk_step_classify samples_def)
qed

lemma window_loop_undersized_fillfactor:
  "undersized_fillfactor (window_loop target chunks st) =
     fold (\<lambda>chunk s. double_add s (chunk_size_fillfactor target chunk))
       (samples UNDERSIZED target chunks) (undersized_fillfactor st)"
proof (induction chunks arbitrary: st)
  case Nil
  then show ?case by (simp add: samples_def)
next
  case (Cons chunk rest)
  show ?case
    by (cases "classify target chunk")
      (simp_all add: Cons.IH chunk_step_classify samples_def)
qed

lemma calculate_chunk_interval_candidate:
  assumes "nargs = 3" "0 < hypertable_id"
  shows "calculate_chunk_interval nargs hypertable_id current_interval target chunks =
     Inr (case candidate_interval target chunks of
            None \<Rightarrow> (current_interval, [DEBUG1_use_previous_size current_interval])
          | Some new_interval \<Rightarrow>
              keep_or_change current_interval new_interval
                (if samples USABLE target chunks = []
                 then [DEBUG1_increase_interval
                         (double_div UNDERSIZED_FILLFACTOR_THRESH
                            (double_div (undersized_fillfactor_sum target (samples UNDERSIZED target chunks))
                               (double_of_int (int (length (samples UNDERSIZED target chunks))))))]
                 else []))"
  using assms
  by (simp add: calculate_chunk_interval_def candidate_interval_def CHUNK_SIZING_FUNC_NARGS_def
      Let_def window_loop_num_intervals window_loop_num_undersized_intervals
      window_loop_undersized_fillfactor undersized_fillfactor_sum_def initial_state_def)

lemma candidate_interval_cases:
  "candidate_interval target chunks =
     (if samples USABLE target chunks = [] \<and> 1 < length (samples UNDERSIZED target chunks)
      then Some (double_to_int64
                   (double_mul
                      (double_of_int
                         (c_div (undersized_interval_sum (samples UNDERSIZED target chunks))
                            (int (length (samples UNDERSIZED target chunks)))))
                      (double_div UNDERSIZED_FILLFACTOR_THRESH
                         (double_div (undersized_fillfactor_sum target (samples UNDERSIZED target chunks))
                            (double_of_int (int (length (samples UNDERSIZED target chunks))))))))
      else if samples USABLE target chunks = [] then None
      else Some (c_div (chunk_interval (window_loop target chunks initial_state))
                   (int (length (samples USABLE target chunks)))))"
  by (simp add: candidate_interval_def Let_def NUM_UNDERSIZED_INTERVALS_def
      window_loop_num_intervals window_loop_num_undersized_intervals
      window_loop_undersized_fillfactor window_loop_undersized_intervals
      undersized_fillfactor_sum_def undersized_interval_sum_def initial_state_def)

subsection \<open>Evaluation at concrete inputs\<close>

lemmas double_eval =
  double_of_int_def double_sub_def double_add_def double_div_def double_mul_def
  double_to_int64_def double_gt_def double_le_def signed_zero_def signed_inf_def Let_def
  round_double_numeral round_double_neg_numeral round_double_one floor_rat_numeral floor_rat_one

lemmas estimator_eval =
  calculate_chunk_interval_def CHUNK_SIZING_FUNC_NARGS_def NUM_UNDERSIZED_INTERVALS_def
  initial_state_def chunk_step_def int64_def interval_fillfactor_of_def
  extrapolated_chunk_size_of_def size_fillfactor_of_def keep_or_change_def interval_diff_of_def
  c_div_def INTERVAL_FILLFACTOR_THRESH_value SIZE_FILLFACTOR_THRESH_value
  INTERVAL_MIN_CHANGE_THRESH_value

lemmas samples_eval =
  samples_def classify_def chunk_interval_fillfactor_def chunk_size_fillfactor_def
  slice_interval_of_def int64_def interval_fillfactor_of_def extrapolated_chunk_size_of_def
  size_fillfactor_of_def INTERVAL_FILLFACTOR_THRESH_value SIZE_FILLFACTOR_THRESH_value

lemma UNDERSIZED_FILLFACTOR_THRESH_value:
  "UNDERSIZED_FILLFACTOR_THRESH = Finite (5944751508129055 / 36028797018963968)"
proof -
  have a: "round_double (11 / 10) = Finite (2476979795053773 / 2251799813685248)"
    by (rule round_double_eqI [where e = 0 and n = 4953959590107546]) simp_all
  have b: "round_double (13386390338410103065273137406935 / 81129638414606681695789005144064) =
      Finite (5944751508129055 / 36028797018963968)"
    by (rule round_double_eqI [where e = "- 3" and n = 5944751508129055]) simp_all
  show ?thesis
    by (simp add: UNDERSIZED_FILLFACTOR_THRESH_def SIZE_FILLFACTOR_THRESH_value double_mul_def
        Let_def a b)
qed

subsection \<open>A chunk whose values all coincide\<close>

lemma double_sub_self: "double_sub a a = Finite 0 \<or> double_sub a a = NaN"
  by (cases a) (simp_all add: double_sub_def double_add_def)

lemma double_div_zero_not_gt:
  assumes "z = Finite 0 \<or> z = NaN"
  shows "\<not> double_gt (double_div z b) (Finite (1 / 2))"
  using assms
  by (cases b) (auto simp: double_gt_def double_div_def signed_zero_def Let_def)

lemma classify_min_eq_max:
  assumes "chunk_minmax chunk = Some (v, v)"
  shows "classify target chunk = IGNORED"
proof -
  have "\<not> double_gt (chunk_interval_fillfactor chunk) INTERVAL_FILLFACTOR_THRESH"
    unfolding chunk_interval_fillfactor_def assms interval_fillfactor_of_def
      INTERVAL_FILLFACTOR_THRESH_value
    using double_div_zero_not_gt [OF double_sub_self] by simp
  then show ?thesis by (simp add: classify_def)
qed

subsection \<open>Arithmetic on non-negative finite values\<close>

lemma nearest_le_fixed:
  assumes "x \<le> b" "nearest b = b"
  shows "nearest x \<le> b"
  using nearest_mono [OF assms(1)] assms(2) by simp

lemma nearest_ge_fixed:
  assumes "b \<le> x" "nearest b = b"
  shows "b \<le> nearest x"
  using nearest_mono [OF assms(1)] assms(2) by simp

lemma nearest_numeral_pow2: "nearest (2 ^ k) = 2 ^ k"
  using nearest_pow2 [of "int k"] by simp

lemma nearest_one [simp]: "nearest 1 = 1"
  using nearest_pow2 [of 0] by simp

lemma double_of_int_nonneg:
  assumes "0 \<le> n" "n \<le> 2 ^ 63"
  shows "double_of_int n = Finite (nearest (of_int n))"
    and "0 \<le> nearest (of_int n :: rat)" and "nearest (of_int n :: rat) \<le> 2 ^ 63"
proof -
  have x: "(0::rat) \<le> of_int n" using assms(1) by simp
  have "(of_int n :: rat) \<le> of_int (2 ^ 63)" using assms(2) by (simp only: of_int_le_iff)
  then have le: "(of_int n :: rat) \<le> 2 ^ 63" by simp
  show b: "nearest (of_int n :: rat) \<le> 2 ^ 63"
    by (rule nearest_le_fixed [OF le nearest_numeral_pow2])
  show "0 \<le> nearest (of_int n :: rat)" by (rule nearest_nonneg [OF x])
  have "nearest (of_int n :: rat) < 2 ^ 1024" using b by (rule le_less_trans) simp
  then show "double_of_int n = Finite (nearest (of_int n))"
    unfolding double_of_int_def by (rule round_double_nonneg [OF x])
qed

lemma double_div_nonneg:
  assumes "0 \<le> a" "0 < b" "nearest (a / b) < 2 ^ 1024"
  shows "double_div (Finite a) (Finite b) = Finite (nearest (a / b))"
proof (cases "a = 0")
  case True
  then show ?thesis using assms(2) by (simp add: double_div_def signed_zero_def)
next
  case False
  have "0 \<le> a / b" using assms(1,2) by simp
  then have "round_double (a / b) = Finite (nearest (a / b))"
    using assms(3) by (rule round_double_nonneg)
  then show ?thesis using False assms(1,2) by (simp add: double_div_def)
qed

lemma double_add_nonneg:
  assumes "0 \<le> a" "0 \<le> b" "nearest (a + b) < 2 ^ 1024"
  shows "double_add (Finite a) (Finite b) = Finite (nearest (a + b))"
proof (cases "a + b = 0")
  case True
  then show ?thesis by (simp add: double_add_def)
next
  case False
  have "0 \<le> a + b" using assms(1,2) by simp
  then have "round_double (a + b) = Finite (nearest (a + b))"
    using assms(3) by (rule round_double_nonneg)
  then show ?thesis using False by (simp add: double_add_def)
qed

lemma double_to_int64_nonneg:
  assumes "0 \<le> q" "q < 2 ^ 63"
  shows "double_to_int64 (Finite q) = \<lfloor>q\<rfloor>"
proof -
  have "0 \<le> \<lfloor>q\<rfloor>" using assms(1) by simp
  moreover have "\<lfloor>q\<rfloor> < 2 ^ 63" using assms(2) by (simp add: floor_less_iff)
  ultimately show ?thesis using assms(1) by (simp add: double_to_int64_def Let_def)
qed

lemma double_gt_Finite [simp]: "double_gt (Finite a) (Finite b) \<longleftrightarrow> b < a"
  by (simp add: double_gt_def)

subsection \<open>The fillfactors of a usable chunk\<close>

lemma double_gt_half_cases:
  assumes "double_gt d (Finite (1 / 2))"
  shows "(\<exists>f. d = Finite f \<and> 1 / 2 < f) \<or> d = PInf"
  using assms by (cases d) (simp_all add: double_gt_def)

lemma size_fillfactor_of_zero:
  assumes "0 < target" "target \<le> 2 ^ 63"
  shows "size_fillfactor_of 0 target = Finite 0"
proof -
  have "1 \<le> (of_int target :: rat)" using assms(1) by simp
  then have "1 \<le> nearest (of_int target :: rat)"
    by (rule nearest_ge_fixed) simp
  then have "0 < nearest (of_int target :: rat)" by simp
  then show ?thesis
    using double_of_int_nonneg(1) [of target] assms
    by (simp add: size_fillfactor_of_def double_of_int_def double_div_def signed_zero_def)
qed

lemma usable_chunk_fillfactors:
  assumes size: "0 \<le> chunk_size ch" "chunk_size ch \<le> 2 ^ 61"
    and target: "0 < target" "target \<le> 2 ^ 63"
    and usable: "classify target ch = USABLE"
  shows "\<exists>f. chunk_interval_fillfactor ch = Finite f \<and> 1 / 2 < f \<and>
           chunk_size_fillfactor target ch =
             Finite (nearest (nearest (of_int \<lfloor>nearest (nearest (of_int (chunk_size ch)) / f)\<rfloor>) /
                       nearest (of_int target))) \<and>
           5404319552844595 / 36028797018963968 <
             nearest (nearest (of_int \<lfloor>nearest (nearest (of_int (chunk_size ch)) / f)\<rfloor>) /
                       nearest (of_int target))"
proof -
  define a :: rat where "a = nearest (of_int (chunk_size ch))"
  have sz: "double_of_int (chunk_size ch) = Finite a" and a0: "0 \<le> a"
    using double_of_int_nonneg(1,2) [of "chunk_size ch"] size by (simp_all add: a_def)
  have "(of_int (chunk_size ch) :: rat) \<le> of_int (2 ^ 61)"
    using size(2) by (simp only: of_int_le_iff)
  then have "(of_int (chunk_size ch) :: rat) \<le> 2 ^ 61" by simp
  then have a61: "a \<le> 2 ^ 61"
    unfolding a_def by (rule nearest_le_fixed [OF _ nearest_numeral_pow2])
  define nt :: rat where "nt = nearest (of_int target)"
  have tg: "double_of_int target = Finite nt"
    using double_of_int_nonneg(1) [of target] target by (simp add: nt_def)
  have "1 \<le> (of_int target :: rat)" using target(1) by simp
  then have nt1: "1 \<le> nt" unfolding nt_def by (rule nearest_ge_fixed) simp
  have gi: "double_gt (chunk_interval_fillfactor ch) (Finite (1 / 2))"
    and gs: "double_gt (chunk_size_fillfactor target ch)
               (Finite (5404319552844595 / 36028797018963968))"
    using usable
    by (simp_all add: classify_def INTERVAL_FILLFACTOR_THRESH_value SIZE_FILLFACTOR_THRESH_value
        split: if_splits)
  have "chunk_interval_fillfactor ch \<noteq> PInf"
  proof
    assume p: "chunk_interval_fillfactor ch = PInf"
    have "extrapolated_chunk_size_of (chunk_size ch) PInf = 0"
      using a0 by (simp add: extrapolated_chunk_size_of_def sz double_div_def signed_zero_def
          double_to_int64_def)
    then have "chunk_size_fillfactor target ch = Finite 0"
      by (simp add: chunk_size_fillfactor_def p size_fillfactor_of_zero [OF target])
    then show False using gs by simp
  qed
  then obtain f where f: "chunk_interval_fillfactor ch = Finite f" and fh: "1 / 2 < f"
    using double_gt_half_cases [OF gi] by blast
  have "a / f \<le> a / (1 / 2)"
    using a0 fh by (intro divide_left_mono) simp_all
  also have "\<dots> \<le> 2 ^ 62" using a61 by simp
  finally have q62: "nearest (a / f) \<le> 2 ^ 62"
    by (rule nearest_le_fixed [OF _ nearest_numeral_pow2])
  have q0: "0 \<le> nearest (a / f)" using a0 fh by (intro nearest_nonneg) simp
  have dv: "double_div (Finite a) (Finite f) = Finite (nearest (a / f))"
    using a0 fh q62 by (intro double_div_nonneg) simp_all
  define ext where "ext = \<lfloor>nearest (a / f)\<rfloor>"
  have ext: "extrapolated_chunk_size_of (chunk_size ch) (Finite f) = ext"
    using q0 q62
    by (simp add: extrapolated_chunk_size_of_def sz dv ext_def double_to_int64_nonneg)
  have e0: "0 \<le> ext" using q0 by (simp add: ext_def)
  have "ext \<le> \<lfloor>(2::rat) ^ 62\<rfloor>" unfolding ext_def using q62 by (rule floor_mono)
  then have e62: "ext \<le> 2 ^ 62" by simp
  then have e63: "ext \<le> 2 ^ 63" by simp
  define ne :: rat where "ne = nearest (of_int ext)"
  have de: "double_of_int ext = Finite ne" and ne0: "0 \<le> ne" and ne63: "ne \<le> 2 ^ 63"
    using double_of_int_nonneg [OF e0 e63] by (simp_all add: ne_def)
  have "ne / nt \<le> ne / 1" using ne0 nt1 by (intro divide_left_mono) simp_all
  then have "ne / nt \<le> 2 ^ 63" using ne63 by simp
  then have "nearest (ne / nt) \<le> 2 ^ 63"
    by (rule nearest_le_fixed [OF _ nearest_numeral_pow2])
  then have "nearest (ne / nt) < 2 ^ 1024" by (rule le_less_trans) simp
  then have "double_div (Finite ne) (Finite nt) = Finite (nearest (ne / nt))"
    using ne0 nt1 by (intro double_div_nonneg) simp_all
  then have sf: "chunk_size_fillfactor target ch = Finite (nearest (ne / nt))"
    by (simp add: chunk_size_fillfactor_def f ext size_fillfactor_of_def de tg)
  then have "5404319552844595 / 36028797018963968 < nearest (ne / nt)"
    using gs by simp
  then show ?thesis
    using f fh sf unfolding ne_def nt_def ext_def a_def by blast
qed

subsection \<open>The relative change in exact arithmetic\<close>

lemma nearest_abs: "nearest \<bar>x\<bar> = \<bar>nearest x\<bar>"
proof (cases "0 \<le> x")
  case True
  then show ?thesis using nearest_nonneg [of x] by simp
next
  case False
  then have "0 \<le> nearest (- x)" by (intro nearest_nonneg) simp
  then show ?thesis using False by (simp add: nearest_minus)
qed

lemma fabs_round_double:
  assumes "nearest \<bar>x\<bar> < 2 ^ 1024"
  shows "fabs (round_double x) = Finite (nearest \<bar>x\<bar>)"
proof (cases "x = 0")
  case True
  then show ?thesis by simp
next
  case False
  have "\<bar>nearest x\<bar> < 2 ^ 1024" using assms by (simp add: nearest_abs)
  then show ?thesis
    using False by (auto simp: round_double_def Let_def nearest_abs)
qed

lemma ilogb_pow2 [simp]: "ilogb (2 powi k) = k"
  by (rule ilogb_unique) (simp_all add: two_powi_strict_mono)

lemma ilogb_ge:
  assumes "2 powi k \<le> \<bar>x\<bar>"
  shows "k \<le> ilogb x"
  using ilogb_mono [of "2 powi k" x] assms by simp

lemma nearest_relative_error:
  assumes "x \<noteq> 0" "- 1022 \<le> ilogb x"
  shows "\<bar>nearest x - x\<bar> \<le> \<bar>x\<bar> / 2 ^ 53"
proof -
  have "ilogb x + (- 52) = max (ilogb x) (- 1022) - 52" using assms(2) by simp
  then have u: "ulp x = 2 powi ilogb x * 2 powi (- 52)"
    unfolding ulp_def two_powi_add by simp
  have "\<bar>nearest x - x\<bar> \<le> ulp x / 2" by (rule nearest_error)
  also have "\<dots> = 2 powi ilogb x / 2 ^ 53" by (simp add: u)
  also have "\<dots> \<le> \<bar>x\<bar> / 2 ^ 53"
    using ilogb_bounds(1) [OF assms(1)] by (simp add: divide_right_mono)
  finally show ?thesis .
qed

lemma round_double_within:
  assumes "2 powi (- 63) \<le> \<bar>x\<bar>" "\<bar>x\<bar> \<le> 2 ^ 63"
  shows "round_double x = Finite (nearest x)"
    and "2 powi (- 63) \<le> \<bar>nearest x\<bar>" and "\<bar>nearest x\<bar> \<le> 2 ^ 63"
proof -
  have lo: "2 powi (- 63) \<le> nearest \<bar>x\<bar>"
    using assms(1) by (rule nearest_ge_fixed [OF _ nearest_pow2]) simp
  have hi: "nearest \<bar>x\<bar> \<le> 2 ^ 63"
    using assms(2) by (rule nearest_le_fixed [OF _ nearest_numeral_pow2])
  show "2 powi (- 63) \<le> \<bar>nearest x\<bar>" using lo by (simp add: nearest_abs)
  show "\<bar>nearest x\<bar> \<le> 2 ^ 63" using hi by (simp add: nearest_abs)
  have "0 < nearest \<bar>x\<bar>" using lo two_powi_pos [of "- 63"] by linarith
  then have nz: "nearest x \<noteq> 0" by (simp add: nearest_abs)
  have "0 < \<bar>x\<bar>" using assms(1) two_powi_pos [of "- 63"] by linarith
  then have xz: "x \<noteq> 0" by simp
  have "\<bar>nearest x\<bar> < 2 ^ 1024"
    using hi unfolding nearest_abs by (rule le_less_trans) simp
  then show "round_double x = Finite (nearest x)"
    using xz nz by (simp add: round_double_def Let_def)
qed

lemma relative_error_within:
  assumes "2 powi (- 63) \<le> \<bar>x\<bar>"
  shows "\<bar>nearest x - x\<bar> \<le> \<bar>x\<bar> / 2 ^ 53"
proof -
  have "- 63 \<le> ilogb x" using assms by (rule ilogb_ge)
  then have il: "- 1022 \<le> ilogb x" by simp
  have "0 < \<bar>x\<bar>" using assms two_powi_pos [of "- 63"] by linarith
  then have xz: "x \<noteq> 0" by simp
  show ?thesis by (rule nearest_relative_error [OF xz il])
qed

lemma of_int_within:
  assumes "- (2 ^ 63) \<le> n" "n \<le> 2 ^ 63"
  shows "\<bar>of_int n :: rat\<bar> \<le> 2 ^ 63"
    and "n \<noteq> 0 \<Longrightarrow> 2 powi (- 63) \<le> \<bar>of_int n :: rat\<bar>"
proof -
  have "\<bar>n\<bar> \<le> 2 ^ 63" using assms by simp
  then have "(of_int \<bar>n\<bar> :: rat) \<le> of_int (2 ^ 63)" by (simp only: of_int_le_iff)
  then show "\<bar>of_int n :: rat\<bar> \<le> 2 ^ 63" by simp
  assume "n \<noteq> 0"
  then have "(1::rat) \<le> of_int \<bar>n\<bar>" by (simp only: of_int_1_le_iff)
  then have "1 \<le> \<bar>of_int n :: rat\<bar>" by simp
  moreover have "(2::rat) powi (- 63) \<le> 1" by (simp add: power_int_minus_divide)
  ultimately show "2 powi (- 63) \<le> \<bar>of_int n :: rat\<bar>" by linarith
qed

lemma double_of_int_within:
  assumes "- (2 ^ 63) \<le> n" "n \<le> 2 ^ 63"
  shows "double_of_int n = Finite (nearest (of_int n))"
    and "\<bar>nearest (of_int n :: rat)\<bar> \<le> 2 ^ 63"
    and "\<bar>nearest (of_int n) - of_int n :: rat\<bar> \<le> \<bar>of_int n\<bar> / 2 ^ 53"
    and "n \<noteq> 0 \<Longrightarrow> 1 \<le> \<bar>nearest (of_int n :: rat)\<bar>"
proof -
  show "double_of_int n = Finite (nearest (of_int n))"
  proof (cases "n = 0")
    case True
    then show ?thesis by (simp add: double_of_int_def)
  next
    case False
    show ?thesis
      unfolding double_of_int_def
      by (rule round_double_within [OF of_int_within(2) [OF assms False] of_int_within(1) [OF assms]])
  qed
  have "nearest \<bar>of_int n :: rat\<bar> \<le> 2 ^ 63"
    using of_int_within(1) [OF assms] by (rule nearest_le_fixed [OF _ nearest_numeral_pow2])
  then show "\<bar>nearest (of_int n :: rat)\<bar> \<le> 2 ^ 63" by (simp add: nearest_abs)
  show "\<bar>nearest (of_int n) - of_int n :: rat\<bar> \<le> \<bar>of_int n\<bar> / 2 ^ 53"
  proof (cases "n = 0")
    case True
    then show ?thesis by simp
  next
    case False
    show ?thesis by (rule relative_error_within [OF of_int_within(2) [OF assms False]])
  qed
  assume "n \<noteq> 0"
  then have "(1::rat) \<le> of_int \<bar>n\<bar>" by (simp only: of_int_1_le_iff)
  then have "1 \<le> \<bar>of_int n :: rat\<bar>" by simp
  then have "1 \<le> nearest \<bar>of_int n :: rat\<bar>" by (rule nearest_ge_fixed) simp
  then show "1 \<le> \<bar>nearest (of_int n :: rat)\<bar>" by (simp add: nearest_abs)
qed


lemma double_div_within:
  assumes c: "0 < c" "c \<le> 2 ^ 63" and n: "- (2 ^ 63) \<le> n" "n \<le> 2 ^ 63"
  shows "double_div (double_of_int n) (double_of_int c) =
           Finite (nearest (nearest (of_int n) / nearest (of_int c)))"
    and "\<bar>nearest (nearest (of_int n) / nearest (of_int c) :: rat)\<bar> \<le> 2 ^ 63"
    and "\<bar>nearest (nearest (of_int n) / nearest (of_int c)) - of_int n / of_int c :: rat\<bar> \<le>
           \<bar>of_int n / of_int c\<bar> / 2 ^ 51"
proof -
  define x :: rat where "x = of_int n"
  define y :: rat where "y = of_int c"
  define a where "a = nearest x"
  define b where "b = nearest y"
  define u :: rat where "u = 1 / 2 ^ 53"
  have cm: "- (2 ^ 63) \<le> c" using c(1) by simp
  have cz: "c \<noteq> 0" using c(1) by simp
  have dn: "double_of_int n = Finite a" and a63: "\<bar>a\<bar> \<le> 2 ^ 63"
    and ea: "\<bar>a - x\<bar> \<le> \<bar>x\<bar> * u"
    using double_of_int_within(1,2,3) [OF n] by (simp_all add: a_def x_def u_def)
  have dc: "double_of_int c = Finite b" and b63: "\<bar>b\<bar> \<le> 2 ^ 63"
    and eb: "\<bar>b - y\<bar> \<le> \<bar>y\<bar> * u" and b1': "1 \<le> \<bar>b\<bar>"
    using double_of_int_within [OF cm c(2)] cz by (simp_all add: b_def y_def u_def)
  have y1: "1 \<le> y" using c(1) by (simp add: y_def)
  have "0 \<le> b" unfolding b_def using y1 by (intro nearest_nonneg) simp
  then have b1: "1 \<le> b" using b1' by simp
  have b0: "0 < b" using b1 by simp
  have y0: "0 < y" using y1 by simp
  have q63: "\<bar>a / b\<bar> \<le> 2 ^ 63"
  proof -
    have "\<bar>a / b\<bar> = \<bar>a\<bar> / b" using b0 by simp
    also have "\<dots> \<le> \<bar>a\<bar> / 1" using b1 by (intro divide_left_mono) simp_all
    finally show ?thesis using a63 by simp
  qed
  then have "nearest \<bar>a / b\<bar> \<le> 2 ^ 63"
    by (rule nearest_le_fixed [OF _ nearest_numeral_pow2])
  then have "\<bar>nearest (a / b)\<bar> \<le> 2 ^ 63" unfolding nearest_abs .
  then show "\<bar>nearest (nearest (of_int n) / nearest (of_int c) :: rat)\<bar> \<le> 2 ^ 63"
    by (simp only: a_def b_def x_def y_def)
  have lo: "2 powi (- 63) \<le> \<bar>a / b\<bar>" if "n \<noteq> 0"
  proof -
    have a1: "1 \<le> \<bar>a\<bar>"
      using double_of_int_within(4) [OF n that] by (simp add: a_def x_def)
    have "b \<le> 2 ^ 63" using b63 by simp
    then have "1 / 2 ^ 63 \<le> 1 / b" using b0 by (intro divide_left_mono) simp_all
    also have "\<dots> \<le> \<bar>a\<bar> / b" using a1 b0 by (intro divide_right_mono) simp_all
    finally show ?thesis using b0 by (simp add: power_int_minus_divide)
  qed
  show "double_div (double_of_int n) (double_of_int c) =
      Finite (nearest (nearest (of_int n) / nearest (of_int c)))"
  proof (cases "n = 0")
    case True
    then show ?thesis
      using b0 by (simp add: double_of_int_def dc [unfolded double_of_int_def] double_div_def
          signed_zero_def)
  next
    case False
    have a1: "1 \<le> \<bar>a\<bar>"
      using double_of_int_within(4) [OF n False] by (simp add: a_def x_def)
    then have az: "a \<noteq> 0" by auto
    have "round_double (a / b) = Finite (nearest (a / b))"
      by (rule round_double_within(1) [OF lo [OF False] q63])
    then show ?thesis
      using az b0 by (simp add: dn dc double_div_def) (simp add: a_def b_def x_def y_def)
  qed
  have k: "\<bar>a / b - x / y\<bar> \<le> \<bar>x / y\<bar> * (2 / 9007199254740991)"
  proof -
    have "b - y \<ge> - (y * u)" using eb y0 by simp
    then have bl: "y * (1 - u) \<le> b" by (simp add: algebra_simps)
    have u1: "0 < 1 - u" by (simp add: u_def)
    have yu: "0 < y * (1 - u)" using y0 u1 by simp
    have "a * y - x * b = (a - x) * y - x * (b - y)" by (simp add: algebra_simps)
    then have "\<bar>a * y - x * b\<bar> \<le> \<bar>(a - x) * y\<bar> + \<bar>x * (b - y)\<bar>" by simp
    also have "\<dots> = \<bar>a - x\<bar> * y + \<bar>x\<bar> * \<bar>b - y\<bar>" using y0 by (simp add: abs_mult)
    also have "\<dots> \<le> (\<bar>x\<bar> * u) * y + \<bar>x\<bar> * (y * u)"
      using ea eb y0 by (intro add_mono mult_right_mono mult_left_mono) simp_all
    finally have num: "\<bar>a * y - x * b\<bar> \<le> 2 * u * \<bar>x\<bar> * y" by (simp add: algebra_simps)
    have "a / b - x / y = (a * y - x * b) / (b * y)"
      using b0 y0 by (simp add: field_simps)
    then have "\<bar>a / b - x / y\<bar> = \<bar>a * y - x * b\<bar> / (b * y)"
      using b0 y0 by (simp add: abs_mult)
    also have "\<dots> \<le> (2 * u * \<bar>x\<bar> * y) / (b * y)"
      using num b0 y0 by (intro divide_right_mono) simp_all
    also have "\<dots> = (2 * u * \<bar>x\<bar>) / b" using y0 by simp
    also have "\<dots> \<le> (2 * u * \<bar>x\<bar>) / (y * (1 - u))"
      using bl yu by (intro divide_left_mono) (simp_all add: u_def)
    also have "\<dots> = \<bar>x / y\<bar> * (2 * u / (1 - u))" using y0 by simp
    also have "\<dots> = \<bar>x / y\<bar> * (2 / 9007199254740991)" by (simp add: u_def)
    finally show ?thesis .
  qed
  have e3: "\<bar>nearest (a / b) - a / b\<bar> \<le> \<bar>a / b\<bar> * u"
  proof (cases "n = 0")
    case True
    then show ?thesis by (simp add: a_def x_def)
  next
    case False
    show ?thesis using relative_error_within [OF lo [OF False]] by (simp add: u_def)
  qed
  have "\<bar>a / b\<bar> \<le> \<bar>x / y\<bar> + \<bar>a / b - x / y\<bar>" by linarith
  also have "\<dots> \<le> \<bar>x / y\<bar> + \<bar>x / y\<bar> * (2 / 9007199254740991)"
    using k by (rule add_left_mono)
  finally have "\<bar>a / b\<bar> \<le> \<bar>x / y\<bar> + \<bar>x / y\<bar> * (2 / 9007199254740991)" .
  then have "\<bar>a / b\<bar> * u \<le> (\<bar>x / y\<bar> + \<bar>x / y\<bar> * (2 / 9007199254740991)) * u"
    by (intro mult_right_mono) (simp_all add: u_def)
  then have e3': "\<bar>nearest (a / b) - a / b\<bar> \<le>
      (\<bar>x / y\<bar> + \<bar>x / y\<bar> * (2 / 9007199254740991)) * u"
    by (rule order_trans [OF e3])
  have "\<bar>nearest (a / b) - x / y\<bar> \<le> \<bar>nearest (a / b) - a / b\<bar> + \<bar>a / b - x / y\<bar>" by linarith
  also have "\<dots> \<le> (\<bar>x / y\<bar> + \<bar>x / y\<bar> * (2 / 9007199254740991)) * u +
      \<bar>x / y\<bar> * (2 / 9007199254740991)"
    using e3' k by (intro add_mono)
  also have "\<dots> = \<bar>x / y\<bar> * ((1 + 2 / 9007199254740991) * u + 2 / 9007199254740991)"
    by (simp add: algebra_simps)
  also have "\<dots> \<le> \<bar>x / y\<bar> * (1 / 2 ^ 51)"
    by (intro mult_left_mono) (simp_all add: u_def)
  finally show "\<bar>nearest (nearest (of_int n) / nearest (of_int c)) - of_int n / of_int c :: rat\<bar> \<le>
      \<bar>of_int n / of_int c\<bar> / 2 ^ 51"
    by (simp add: a_def b_def x_def y_def)
qed


lemma interval_diff_of_value:
  assumes "0 < current" "current \<le> 2 ^ 63" "- (2 ^ 63) \<le> new" "new \<le> 2 ^ 63"
  shows "interval_diff_of new current =
           Finite (nearest \<bar>1 - nearest (nearest (of_int new) / nearest (of_int current))\<bar>)"
proof -
  define q' :: rat where "q' = nearest (nearest (of_int new) / nearest (of_int current))"
  have dv: "double_div (double_of_int new) (double_of_int current) = Finite q'"
    and q63: "\<bar>q'\<bar> \<le> 2 ^ 63"
    unfolding q'_def by (rule double_div_within [OF assms])+
  have "\<bar>1 - q'\<bar> \<le> 2 ^ 64" using q63 by simp
  then have "nearest \<bar>1 - q'\<bar> \<le> 2 ^ 64" by (rule nearest_le_fixed [OF _ nearest_numeral_pow2])
  then have b: "nearest \<bar>1 - q'\<bar> < 2 ^ 1024" by (rule le_less_trans) simp
  have "fabs (double_sub (Finite 1) (Finite q')) = Finite (nearest \<bar>1 - q'\<bar>)"
  proof (cases "q' = 0")
    case True
    then show ?thesis by (simp add: double_sub_def double_add_def round_double_one)
  next
    case False
    show ?thesis
    proof (cases "1 - q' = 0")
      case True
      then show ?thesis using False by (simp add: double_sub_def double_add_def)
    next
      case nz: False
      then have "double_sub (Finite 1) (Finite q') = round_double (1 - q')"
        using False by (simp add: double_sub_def double_add_def)
      then show ?thesis using fabs_round_double [OF b] by simp
    qed
  qed
  then show ?thesis
    by (simp add: interval_diff_of_def round_double_one dv q'_def)
qed

lemma threshold_representable:
  "nearest (5404319552844592 / 36028797018963968) = 5404319552844592 / 36028797018963968"
  "nearest (5404319552844595 / 36028797018963968) = 5404319552844595 / 36028797018963968"
  "nearest (5404319552844596 / 36028797018963968) = 5404319552844596 / 36028797018963968"
  "nearest (5404319552844600 / 36028797018963968) = 5404319552844600 / 36028797018963968"
  using nearest_representable [of "5404319552844592 / 36028797018963968" 5404319552844592 "- 55"]
    nearest_representable [of "5404319552844595 / 36028797018963968" 5404319552844595 "- 55"]
    nearest_representable [of "5404319552844596 / 36028797018963968" 5404319552844596 "- 55"]
    nearest_representable [of "5404319552844600 / 36028797018963968" 5404319552844600 "- 55"]
  by simp_all

lemma relative_change_small:
  assumes "0 < current" "current \<le> 2 ^ 63" "- (2 ^ 63) \<le> new" "new \<le> 2 ^ 63"
    and "\<bar>1 - of_int new / of_int current :: rat\<bar> \<le> 15 / 100 - 1 / 2 ^ 50"
  shows "double_le (interval_diff_of new current) INTERVAL_MIN_CHANGE_THRESH"
proof -
  define q :: rat where "q = of_int new / of_int current"
  define q' :: rat where "q' = nearest (nearest (of_int new) / nearest (of_int current))"
  have r: "\<bar>1 - q\<bar> \<le> 15 / 100 - 1 / 2 ^ 50" using assms(5) by (simp add: q_def)
  then have "\<bar>1 - q\<bar> \<le> 15 / 100" by (rule order_trans) simp
  then have "\<bar>q\<bar> \<le> 23 / 20" by linarith
  then have "\<bar>q\<bar> / 2 ^ 51 \<le> (23 / 20) / 2 ^ 51" by (rule divide_right_mono) simp
  moreover have "\<bar>q' - q\<bar> \<le> \<bar>q\<bar> / 2 ^ 51"
    unfolding q'_def q_def by (rule double_div_within(3) [OF assms(1-4)])
  ultimately have e: "\<bar>q' - q\<bar> \<le> (23 / 20) / 2 ^ 51" by (rule order_trans [rotated])
  have "\<bar>1 - q\<bar> + \<bar>q' - q\<bar> \<le> (15 / 100 - 1 / 2 ^ 50) + (23 / 20) / 2 ^ 51"
    using r e by (intro add_mono)
  moreover have "\<bar>1 - q'\<bar> \<le> \<bar>1 - q\<bar> + \<bar>q' - q\<bar>" by linarith
  moreover have "(15 / 100 - 1 / 2 ^ 50) + (23 / 20) / 2 ^ 51 \<le>
      (5404319552844595 / 36028797018963968 :: rat)"
    by simp
  ultimately have "\<bar>1 - q'\<bar> \<le> 5404319552844595 / 36028797018963968"
    by (meson order_trans)
  then have "nearest \<bar>1 - q'\<bar> \<le> 5404319552844595 / 36028797018963968"
    by (rule nearest_le_fixed [OF _ threshold_representable(2)])
  then show ?thesis
    by (simp add: interval_diff_of_value [OF assms(1-4)] INTERVAL_MIN_CHANGE_THRESH_value
        double_le_def q'_def)
qed

lemma relative_change_large:
  assumes "0 < current" "current \<le> 2 ^ 63" "- (2 ^ 63) \<le> new" "new \<le> 2 ^ 63"
    and "15 / 100 + 1 / 2 ^ 50 \<le> \<bar>1 - of_int new / of_int current :: rat\<bar>"
  shows "double_gt (interval_diff_of new current) INTERVAL_MIN_CHANGE_THRESH"
proof -
  define q :: rat where "q = of_int new / of_int current"
  define q' :: rat where "q' = nearest (nearest (of_int new) / nearest (of_int current))"
  define r :: rat where "r = \<bar>1 - q\<bar>"
  define d :: rat where "d = \<bar>q' - q\<bar>"
  have r: "15 / 100 + 1 / 2 ^ 50 \<le> r" using assms(5) by (simp add: q_def r_def)
  have "d \<le> \<bar>q\<bar> / 2 ^ 51"
    unfolding d_def q'_def q_def by (rule double_div_within(3) [OF assms(1-4)])
  moreover have "\<bar>q\<bar> \<le> 1 + r" unfolding r_def by linarith
  then have "\<bar>q\<bar> / 2 ^ 51 \<le> (1 + r) / 2 ^ 51" by (rule divide_right_mono) simp
  ultimately have d: "d \<le> (1 + r) / 2 ^ 51" by (rule order_trans)
  have "r \<le> \<bar>1 - q'\<bar> + d" unfolding r_def d_def by linarith
  then have "r - (1 + r) / 2 ^ 51 \<le> \<bar>1 - q'\<bar>" using d by linarith
  moreover have "5404319552844596 / 36028797018963968 \<le> r - (1 + r) / 2 ^ 51"
    using r by (simp add: add_divide_distrib)
  ultimately have "5404319552844596 / 36028797018963968 \<le> \<bar>1 - q'\<bar>" by (rule order_trans [rotated])
  then have "5404319552844596 / 36028797018963968 \<le> nearest \<bar>1 - q'\<bar>"
    by (rule nearest_ge_fixed [OF _ threshold_representable(3)])
  then have "5404319552844595 / 36028797018963968 < nearest \<bar>1 - q'\<bar>"
    by (rule less_le_trans [rotated]) simp
  then show ?thesis
    by (simp add: interval_diff_of_value [OF assms(1-4)] INTERVAL_MIN_CHANGE_THRESH_value q'_def)
qed

lemma quotient_rounding:
  "nearest (17 / 20) = 7656119366529843 / 9007199254740992"
  "nearest (23 / 20) = 5179139571476070 / 4503599627370496"
  "nearest (17 / 20 + 1 / (20 * 1501199875790165)) = 7656119366529844 / 9007199254740992"
  "nearest (23 / 20 + 1 / (20 * 1501199875790165)) = 5179139571476071 / 4503599627370496"
  using nearest_eqI [of "- 1" "17 / 20" 7656119366529843]
    nearest_eqI [of 0 "23 / 20" 5179139571476070]
    nearest_eqI [of "- 1" "17 / 20 + 1 / (20 * 1501199875790165)" 7656119366529844]
    nearest_eqI [of 0 "23 / 20 + 1 / (20 * 1501199875790165)" 5179139571476071]
  by simp_all

lemma quotient_above:
  assumes "0 < current" "current \<le> 1501199875790165" "k * current < 20 * new"
  shows "of_int k / 20 + 1 / (20 * 1501199875790165) \<le> (of_int new / of_int current :: rat)"
proof -
  define y :: rat where "y = of_int current"
  have y0: "0 < y" using assms(1) by (simp add: y_def)
  have "(of_int current :: rat) \<le> of_int 1501199875790165"
    using assms(2) by (simp only: of_int_le_iff)
  then have "20 * y \<le> 20 * 1501199875790165" by (simp add: y_def)
  then have g: "1 / (20 * 1501199875790165) \<le> 1 / (20 * y)"
    using y0 by (intro divide_left_mono) simp_all
  have "k * current + 1 \<le> 20 * new" using assms(3) by simp
  then have "(of_int (k * current + 1) :: rat) \<le> of_int (20 * new)" by (simp only: of_int_le_iff)
  then have "of_int k * y + 1 \<le> 20 * of_int new" by (simp add: y_def)
  then have "(of_int k * y + 1) / (20 * y) \<le> (20 * of_int new) / (20 * y)"
    using y0 by (intro divide_right_mono) simp_all
  moreover have "(of_int k * y + 1) / (20 * y) = of_int k / 20 + 1 / (20 * y)"
    using y0 by (simp add: field_simps)
  ultimately have "of_int k / 20 + 1 / (20 * y) \<le> of_int new / y" by simp
  then show ?thesis using g unfolding y_def by linarith
qed

lemma quotient_below:
  assumes "0 < current" "20 * new \<le> k * current"
  shows "(of_int new / of_int current :: rat) \<le> of_int k / 20"
proof -
  define y :: rat where "y = of_int current"
  have y0: "0 < y" using assms(1) by (simp add: y_def)
  have "(of_int (20 * new) :: rat) \<le> of_int (k * current)" using assms(2) by (simp only: of_int_le_iff)
  then have "20 * of_int new \<le> of_int k * y" by (simp add: y_def)
  then have "(20 * of_int new) / (20 * y) \<le> (of_int k * y) / (20 * y)"
    using y0 by (intro divide_right_mono) simp_all
  then show ?thesis using y0 by (simp add: y_def)
qed

lemma keep_or_change_cases:
  assumes c: "0 < current" "current \<le> 1501199875790165"
    and n: "- (2 ^ 63) \<le> new" "new \<le> 2 ^ 63"
  shows "double_le (interval_diff_of new current) INTERVAL_MIN_CHANGE_THRESH \<longleftrightarrow>
           17 * current < 20 * new \<and> 20 * new \<le> 23 * current"
proof -
  have c63: "current \<le> 2 ^ 63" using c by simp
  have gt: "\<not> double_le d t" if "double_gt d t" for d t
    using that by (simp add: double_gt_def double_le_def)
  define q :: rat where "q = of_int new / of_int current"
  consider (low) "20 * new \<le> 10 * current" | (high) "40 * current \<le> 20 * new"
    | (mid) "current < 2 * new" "new < 2 * current"
    by linarith
  then show ?thesis
  proof cases
    case low
    have "q \<le> of_int 10 / 20" unfolding q_def by (rule quotient_below [OF c(1) low])
    then have "15 / 100 + 1 / 2 ^ 50 \<le> \<bar>1 - q\<bar>" by simp
    then have "double_gt (interval_diff_of new current) INTERVAL_MIN_CHANGE_THRESH"
      unfolding q_def by (rule relative_change_large [OF c(1) c63 n])
    then show ?thesis using low c(1) gt by auto
  next
    case high
    have "40 * current \<le> 20 * new" using high by simp
    then have "(of_int (40 * current) :: rat) \<le> of_int (20 * new)" by (simp only: of_int_le_iff)
    then have "2 * (of_int current :: rat) \<le> of_int new" by simp
    then have "(2 * of_int current) / of_int current \<le> (of_int new :: rat) / of_int current"
      using c(1) by (intro divide_right_mono) simp_all
    then have "2 \<le> q" using c(1) by (simp add: q_def)
    then have "15 / 100 + 1 / 2 ^ 50 \<le> \<bar>1 - q\<bar>" by simp
    then have "double_gt (interval_diff_of new current) INTERVAL_MIN_CHANGE_THRESH"
      unfolding q_def by (rule relative_change_large [OF c(1) c63 n])
    then show ?thesis using high c(1) gt by auto
  next
    case mid
    have n53: "\<bar>new\<bar> \<le> 2 ^ 53" and c53: "\<bar>current\<bar> \<le> 2 ^ 53" using mid c by simp_all
    have v: "interval_diff_of new current = Finite (nearest \<bar>1 - nearest q\<bar>)"
      by (simp add: interval_diff_of_value [OF c(1) c63 n] nearest_of_int [OF n53]
          nearest_of_int [OF c53] q_def)
    consider (below) "20 * new \<le> 17 * current"
      | (within) "17 * current < 20 * new" "20 * new \<le> 23 * current"
      | (above) "23 * current < 20 * new"
      by linarith
    then show ?thesis
    proof cases
      case below
      have "q \<le> of_int 17 / 20" unfolding q_def by (rule quotient_below [OF c(1) below])
      then have "q \<le> 17 / 20" by simp
      then have "nearest q \<le> 7656119366529843 / 9007199254740992"
        using nearest_mono [of q "17 / 20"] by (simp add: quotient_rounding)
      then have "5404319552844596 / 36028797018963968 \<le> \<bar>1 - nearest q\<bar>" by simp
      then have "5404319552844596 / 36028797018963968 \<le> nearest \<bar>1 - nearest q\<bar>"
        by (rule nearest_ge_fixed [OF _ threshold_representable(3)])
      then have "5404319552844595 / 36028797018963968 < nearest \<bar>1 - nearest q\<bar>"
        by (rule less_le_trans [rotated]) simp
      then show ?thesis
        using below c(1) by (simp add: v INTERVAL_MIN_CHANGE_THRESH_value double_le_def)
    next
      case within
      have "of_int 17 / 20 + 1 / (20 * 1501199875790165) \<le> q"
        unfolding q_def by (rule quotient_above [OF c within(1)])
      then have "17 / 20 + 1 / (20 * 1501199875790165) \<le> q" by simp
      then have lo: "7656119366529844 / 9007199254740992 \<le> nearest q"
        using nearest_mono [of "17 / 20 + 1 / (20 * 1501199875790165)" q]
        by (simp only: quotient_rounding)
      have "q \<le> of_int 23 / 20" unfolding q_def by (rule quotient_below [OF c(1) within(2)])
      then have "q \<le> 23 / 20" by simp
      then have hi: "nearest q \<le> 5179139571476070 / 4503599627370496"
        using nearest_mono [of q "23 / 20"] by (simp only: quotient_rounding)
      have "1 - nearest q \<le> 5404319552844592 / 36028797018963968" using lo by simp
      moreover have "- (1 - nearest q) \<le> 5404319552844592 / 36028797018963968"
        using hi by simp
      ultimately have "\<bar>1 - nearest q\<bar> \<le> 5404319552844592 / 36028797018963968"
        by (rule abs_leI)
      then have "nearest \<bar>1 - nearest q\<bar> \<le> 5404319552844592 / 36028797018963968"
        by (rule nearest_le_fixed [OF _ threshold_representable(1)])
      then have "nearest \<bar>1 - nearest q\<bar> \<le> 5404319552844595 / 36028797018963968"
        by (rule order_trans) simp
      then show ?thesis
        using within by (simp add: v INTERVAL_MIN_CHANGE_THRESH_value double_le_def)
    next
      case above
      have "of_int 23 / 20 + 1 / (20 * 1501199875790165) \<le> q"
        unfolding q_def by (rule quotient_above [OF c above])
      then have "23 / 20 + 1 / (20 * 1501199875790165) \<le> q" by simp
      then have "5179139571476071 / 4503599627370496 \<le> nearest q"
        using nearest_mono [of "23 / 20 + 1 / (20 * 1501199875790165)" q]
        by (simp only: quotient_rounding)
      then have "5404319552844600 / 36028797018963968 \<le> \<bar>1 - nearest q\<bar>" by simp
      then have "5404319552844600 / 36028797018963968 \<le> nearest \<bar>1 - nearest q\<bar>"
        by (rule nearest_ge_fixed [OF _ threshold_representable(4)])
      then have "5404319552844595 / 36028797018963968 < nearest \<bar>1 - nearest q\<bar>"
        by (rule less_le_trans [rotated]) simp
      then show ?thesis
        using above c(1) by (simp add: v INTERVAL_MIN_CHANGE_THRESH_value double_le_def)
    qed
  qed
qed

lemma keep_or_change_exact:
  assumes c: "0 < current" "current \<le> 1501199875790165"
    and n: "- (2 ^ 63) \<le> new" "new \<le> 2 ^ 63"
  shows "double_le (interval_diff_of new current) INTERVAL_MIN_CHANGE_THRESH \<longleftrightarrow>
           - (15 / 100) \<le> (1 - of_int new / of_int current :: rat) \<and>
           (1 - of_int new / of_int current :: rat) < 15 / 100"
proof -
  define x :: rat where "x = of_int new"
  define y :: rat where "y = of_int current"
  have y0: "0 < y" using c(1) by (simp add: y_def)
  have "1 - x / y < 15 / 100 \<longleftrightarrow> 17 * y < 20 * x" using y0 by (simp add: field_simps)
  also have "\<dots> \<longleftrightarrow> (of_int (17 * current) :: rat) < of_int (20 * new)"
    by (simp add: x_def y_def)
  also have "\<dots> \<longleftrightarrow> 17 * current < 20 * new" by (simp only: of_int_less_iff)
  finally have a: "1 - x / y < 15 / 100 \<longleftrightarrow> 17 * current < 20 * new" .
  have "- (15 / 100) \<le> 1 - x / y \<longleftrightarrow> 20 * x \<le> 23 * y" using y0 by (simp add: field_simps)
  also have "\<dots> \<longleftrightarrow> (of_int (20 * new) :: rat) \<le> of_int (23 * current)"
    by (simp add: x_def y_def)
  also have "\<dots> \<longleftrightarrow> 20 * new \<le> 23 * current" by (simp only: of_int_le_iff)
  finally have b: "- (15 / 100) \<le> 1 - x / y \<longleftrightarrow> 20 * new \<le> 23 * current" .
  show ?thesis
    unfolding keep_or_change_cases [OF c n] x_def [symmetric] y_def [symmetric] a b by auto
qed

subsection \<open>The range of the candidate\<close>

lemma c_div_nonneg: "0 \<le> a \<Longrightarrow> 0 < n \<Longrightarrow> c_div a n = a div n"
  by (cases "a = 0") (simp_all add: c_div_def)

lemma double_to_int64_range:
  "- (2 ^ 63) \<le> double_to_int64 d" "double_to_int64 d < 2 ^ 63"
  by (cases d; simp add: double_to_int64_def Let_def)+

lemma chunk_step_chunk_interval_range:
  assumes "- (2 ^ 63) \<le> chunk_interval st \<and> chunk_interval st < 2 ^ 63"
  shows "- (2 ^ 63) \<le> chunk_interval (chunk_step target ch st) \<and>
         chunk_interval (chunk_step target ch st) < 2 ^ 63"
  using assms double_to_int64_range
  by (cases "classify target ch") (simp_all add: chunk_step_classify)

lemma window_loop_chunk_interval_range:
  assumes "- (2 ^ 63) \<le> chunk_interval st \<and> chunk_interval st < 2 ^ 63"
  shows "- (2 ^ 63) \<le> chunk_interval (window_loop target chunks st) \<and>
         chunk_interval (window_loop target chunks st) < 2 ^ 63"
  using assms
proof (induction chunks arbitrary: st)
  case Nil
  then show ?case by simp
next
  case (Cons ch rest)
  show ?case
    unfolding window_loop.simps
    by (rule Cons.IH [OF chunk_step_chunk_interval_range [OF Cons.prems]])
qed

lemma c_div_range:
  assumes "0 < n" "- (2 ^ 63) \<le> a" "a < 2 ^ 63"
  shows "- (2 ^ 63) \<le> c_div a n \<and> c_div a n < 2 ^ 63"
proof -
  have "\<bar>a\<bar> div n \<le> \<bar>a\<bar> div 1" using assms(1) by (intro zdiv_mono2) simp_all
  then have le: "\<bar>a\<bar> div n \<le> \<bar>a\<bar>" by simp
  have ge: "0 \<le> \<bar>a\<bar> div n" using assms(1) by (simp add: pos_imp_zdiv_nonneg_iff)
  show ?thesis
  proof (cases "0 \<le> a")
    case True
    then have "c_div a n = \<bar>a\<bar> div n \<or> c_div a n = 0" using assms(1) by (cases "a = 0") (simp_all add: c_div_def)
    then show ?thesis using le ge assms(2,3) True by auto
  next
    case False
    then have "c_div a n = - (\<bar>a\<bar> div n)" using assms(1) by (simp add: c_div_def)
    then show ?thesis using le ge assms(2,3) False by auto
  qed
qed

lemma candidate_interval_range:
  assumes "candidate_interval target chunks = Some new"
  shows "- (2 ^ 63) \<le> new" "new \<le> 2 ^ 63"
proof -
  have r: "- (2 ^ 63) \<le> chunk_interval (window_loop target chunks initial_state) \<and>
      chunk_interval (window_loop target chunks initial_state) < 2 ^ 63"
    by (rule window_loop_chunk_interval_range) (simp add: initial_state_def)
  have "- (2 ^ 63) \<le> new \<and> new < 2 ^ 63"
  proof (cases "samples USABLE target chunks = []")
    case True
    then show ?thesis
      using assms double_to_int64_range by (auto simp: candidate_interval_cases split: if_splits)
  next
    case False
    then have "0 < int (length (samples USABLE target chunks))" by simp
    then show ?thesis
      using assms False c_div_range [OF _ conjunct1 [OF r] conjunct2 [OF r]]
      by (auto simp: candidate_interval_cases split: if_splits)
  qed
  then show "- (2 ^ 63) \<le> new" "new \<le> 2 ^ 63" by simp_all
qed

subsection \<open>The increase from undersized chunks\<close>

lemma round_double_ge_one:
  assumes "1 \<le> x"
  shows "round_double x = PInf \<or> (\<exists>r. round_double x = Finite r \<and> 1 \<le> r)"
proof -
  have "1 \<le> nearest x" using assms by (rule nearest_ge_fixed) simp
  then show ?thesis using assms by (simp add: round_double_def Let_def)
qed

lemma chunk_size_fillfactor_nonneg:
  assumes size: "0 \<le> chunk_size ch" "chunk_size ch \<le> 2 ^ 61"
    and target: "0 < target" "target \<le> 2 ^ 63"
    and gi: "double_gt (chunk_interval_fillfactor ch) (Finite (1 / 2))"
  shows "\<exists>g. chunk_size_fillfactor target ch = Finite g \<and> 0 \<le> g"
proof -
  define a :: rat where "a = nearest (of_int (chunk_size ch))"
  have sz: "double_of_int (chunk_size ch) = Finite a" and a0: "0 \<le> a"
    using double_of_int_nonneg(1,2) [of "chunk_size ch"] size by (simp_all add: a_def)
  have "(of_int (chunk_size ch) :: rat) \<le> of_int (2 ^ 61)"
    using size(2) by (simp only: of_int_le_iff)
  then have "(of_int (chunk_size ch) :: rat) \<le> 2 ^ 61" by simp
  then have a61: "a \<le> 2 ^ 61"
    unfolding a_def by (rule nearest_le_fixed [OF _ nearest_numeral_pow2])
  define nt :: rat where "nt = nearest (of_int target)"
  have tg: "double_of_int target = Finite nt"
    using double_of_int_nonneg(1) [of target] target by (simp add: nt_def)
  have "1 \<le> (of_int target :: rat)" using target(1) by simp
  then have nt1: "1 \<le> nt" unfolding nt_def by (rule nearest_ge_fixed) simp
  consider "chunk_interval_fillfactor ch = PInf"
    | f where "chunk_interval_fillfactor ch = Finite f" "1 / 2 < f"
    using double_gt_half_cases [OF gi] by blast
  then show ?thesis
  proof cases
    case 1
    have "extrapolated_chunk_size_of (chunk_size ch) PInf = 0"
      using a0 by (simp add: extrapolated_chunk_size_of_def sz double_div_def signed_zero_def
          double_to_int64_def)
    then show ?thesis
      by (simp add: chunk_size_fillfactor_def 1 size_fillfactor_of_zero [OF target])
  next
    case 2
    have "a / f \<le> a / (1 / 2)"
      using a0 2(2) by (intro divide_left_mono) simp_all
    also have "\<dots> \<le> 2 ^ 62" using a61 by simp
    finally have q62: "nearest (a / f) \<le> 2 ^ 62"
      by (rule nearest_le_fixed [OF _ nearest_numeral_pow2])
    have q0: "0 \<le> nearest (a / f)" using a0 2(2) by (intro nearest_nonneg) simp
    have dv: "double_div (Finite a) (Finite f) = Finite (nearest (a / f))"
      using a0 2(2) q62 by (intro double_div_nonneg) simp_all
    define ext where "ext = \<lfloor>nearest (a / f)\<rfloor>"
    have ext: "extrapolated_chunk_size_of (chunk_size ch) (Finite f) = ext"
      using q0 q62
      by (simp add: extrapolated_chunk_size_of_def sz dv ext_def double_to_int64_nonneg)
    have e0: "0 \<le> ext" using q0 by (simp add: ext_def)
    have "ext \<le> \<lfloor>(2::rat) ^ 62\<rfloor>" unfolding ext_def using q62 by (rule floor_mono)
    then have e63: "ext \<le> 2 ^ 63" by simp
    define ne :: rat where "ne = nearest (of_int ext)"
    have de: "double_of_int ext = Finite ne" and ne0: "0 \<le> ne" and ne63: "ne \<le> 2 ^ 63"
      using double_of_int_nonneg [OF e0 e63] by (simp_all add: ne_def)
    have "ne / nt \<le> ne / 1" using ne0 nt1 by (intro divide_left_mono) simp_all
    then have "ne / nt \<le> 2 ^ 63" using ne63 by simp
    then have "nearest (ne / nt) \<le> 2 ^ 63"
      by (rule nearest_le_fixed [OF _ nearest_numeral_pow2])
    then have "nearest (ne / nt) < 2 ^ 1024" by (rule le_less_trans) simp
    then have "double_div (Finite ne) (Finite nt) = Finite (nearest (ne / nt))"
      using ne0 nt1 by (intro double_div_nonneg) simp_all
    moreover have "0 \<le> nearest (ne / nt)" using ne0 nt1 by (intro nearest_nonneg) simp
    ultimately show ?thesis
      by (simp add: chunk_size_fillfactor_def 2(1) ext size_fillfactor_of_def de tg)
  qed
qed

lemma undersized_chunk_fillfactor:
  assumes "bounded_chunk ch" "0 < target" "target \<le> 2 ^ 63" "classify target ch = UNDERSIZED"
  shows "\<exists>g. chunk_size_fillfactor target ch = Finite g \<and> 0 \<le> g \<and> g \<le> 5 / 32"
proof -
  have size: "0 \<le> chunk_size ch" "chunk_size ch \<le> 2 ^ 61"
    using assms(1) by (simp_all add: bounded_chunk_def)
  have gi: "double_gt (chunk_interval_fillfactor ch) (Finite (1 / 2))"
    and gs: "\<not> double_gt (chunk_size_fillfactor target ch)
               (Finite (5404319552844595 / 36028797018963968))"
    using assms(4)
    by (simp_all add: classify_def INTERVAL_FILLFACTOR_THRESH_value SIZE_FILLFACTOR_THRESH_value
        split: if_splits)
  obtain g where g: "chunk_size_fillfactor target ch = Finite g" "0 \<le> g"
    using chunk_size_fillfactor_nonneg [OF size assms(2,3) gi] by blast
  have "g \<le> 5404319552844595 / 36028797018963968" using gs g(1) by simp
  then have "g \<le> 5 / 32" by simp
  then show ?thesis using g by simp
qed

lemma nearest_multiple_5_32:
  assumes "0 \<le> j" "j \<le> 3"
  shows "nearest (of_int j * (5 / 32)) = of_int j * (5 / 32)"
  using nearest_representable [of "of_int j * (5 / 32)" "5 * j" "- 5"] assms
  by (simp add: power_int_minus_divide)

lemma fold_undersized_fillfactor:
  assumes "\<forall>ch \<in> set us. \<exists>g. chunk_size_fillfactor target ch = Finite g \<and> 0 \<le> g \<and> g \<le> 5 / 32"
    and "0 \<le> s" "s \<le> of_int j * (5 / 32)" "0 \<le> j" "j + int (length us) \<le> 3"
  shows "\<exists>r. fold (\<lambda>chunk s. double_add s (chunk_size_fillfactor target chunk)) us (Finite s) =
               Finite r \<and> 0 \<le> r \<and> r \<le> of_int (j + int (length us)) * (5 / 32)"
  using assms
proof (induction us arbitrary: s j)
  case Nil
  then show ?case by simp
next
  case (Cons ch rest)
  obtain g where g: "chunk_size_fillfactor target ch = Finite g" "0 \<le> g" "g \<le> 5 / 32"
    using Cons.prems(1) by auto
  have j2: "j + 1 \<le> 3" using Cons.prems(5) by simp
  have "s + g \<le> of_int (j + 1) * (5 / 32)"
    using Cons.prems(3) g(3) by (simp add: algebra_simps)
  then have le: "nearest (s + g) \<le> of_int (j + 1) * (5 / 32)"
    by (rule nearest_le_fixed [OF _ nearest_multiple_5_32]) (use Cons.prems(4) j2 in simp_all)
  have "(of_int (j + 1) :: rat) \<le> 3" using j2 by simp
  then have "(of_int (j + 1) :: rat) * (5 / 32) \<le> 3 * (5 / 32)" by simp
  then have "nearest (s + g) < 2 ^ 1024" using le by simp
  then have ad: "double_add (Finite s) (Finite g) = Finite (nearest (s + g))"
    using Cons.prems(2) g(2) by (intro double_add_nonneg)
  have n0: "0 \<le> nearest (s + g)" using Cons.prems(2) g(2) by (intro nearest_nonneg) simp
  have "\<exists>r. fold (\<lambda>chunk s. double_add s (chunk_size_fillfactor target chunk)) rest
               (Finite (nearest (s + g))) = Finite r \<and> 0 \<le> r \<and>
             r \<le> of_int ((j + 1) + int (length rest)) * (5 / 32)"
    by (rule Cons.IH [OF _ n0 le]) (use Cons.prems(1,4,5) in simp_all)
  then show ?case by (simp add: g(1) ad add.commute add.left_commute)
qed

lemma int64_id: "- (2 ^ 63) \<le> x \<Longrightarrow> x < 2 ^ 63 \<Longrightarrow> int64 x = x"
  by (simp add: int64_def)

lemma fold_undersized_intervals:
  assumes "\<forall>ch \<in> set us. 0 < slice_interval_of ch \<and> slice_interval_of ch \<le> 2 ^ 58"
    and "j \<le> s" "s \<le> j * 2 ^ 58" "0 \<le> j" "j + int (length us) \<le> 3"
  shows "j + int (length us) \<le>
           fold (\<lambda>chunk s. int64 (s + slice_interval_of chunk)) us s \<and>
         fold (\<lambda>chunk s. int64 (s + slice_interval_of chunk)) us s \<le>
           (j + int (length us)) * 2 ^ 58"
  using assms
proof (induction us arbitrary: s j)
  case Nil
  then show ?case by simp
next
  case (Cons ch rest)
  have w: "0 < slice_interval_of ch" "slice_interval_of ch \<le> 2 ^ 58"
    using Cons.prems(1) by simp_all
  have j2: "j \<le> 2" using Cons.prems(5) by simp
  have lo: "j + 1 \<le> s + slice_interval_of ch" using Cons.prems(2) w(1) by simp
  have hi: "s + slice_interval_of ch \<le> (j + 1) * 2 ^ 58"
    using Cons.prems(3) w(2) by (simp add: algebra_simps)
  have "(j + 1) * 2 ^ 58 \<le> 3 * (2 ^ 58 :: int)" using j2 by simp
  then have "s + slice_interval_of ch < 2 ^ 63" using hi by simp
  moreover have "- (2 ^ 63) \<le> s + slice_interval_of ch" using lo Cons.prems(4) by simp
  ultimately have i: "int64 (s + slice_interval_of ch) = s + slice_interval_of ch"
    by (rule int64_id [rotated])
  have "(j + 1) + int (length rest) \<le>
          fold (\<lambda>chunk s. int64 (s + slice_interval_of chunk)) rest (s + slice_interval_of ch) \<and>
        fold (\<lambda>chunk s. int64 (s + slice_interval_of chunk)) rest (s + slice_interval_of ch) \<le>
          ((j + 1) + int (length rest)) * 2 ^ 58"
    by (rule Cons.IH [OF _ lo hi]) (use Cons.prems(1,4,5) in simp_all)
  then show ?case by (simp add: i add.commute add.left_commute)
qed

lemma boost_product_cases:
  assumes bnd: "\<forall>ch \<in> set chunks. bounded_chunk ch"
    and t: "0 < target" "target \<le> 2 ^ 63"
    and len: "length chunks \<le> 3"
    and many: "1 < length (samples UNDERSIZED target chunks)"
  shows "boost_product target chunks = PInf \<or>
         (\<exists>p. boost_product target chunks = Finite p \<and> 1 \<le> p)"
proof -
  define us where "us = samples UNDERSIZED target chunks"
  define m where "m = int (length us)"
  have sub: "\<forall>ch \<in> set us. bounded_chunk ch \<and> classify target ch = UNDERSIZED"
    using bnd by (simp add: us_def samples_def)
  have "length us \<le> length chunks" by (simp add: us_def samples_def)
  then have m3: "m \<le> 3" and m2: "2 \<le> m"
    using len many by (simp_all add: m_def us_def)
  have ff: "\<forall>ch \<in> set us. \<exists>g. chunk_size_fillfactor target ch = Finite g \<and> 0 \<le> g \<and> g \<le> 5 / 32"
    using sub undersized_chunk_fillfactor [OF _ t] by blast
  obtain r where r: "undersized_fillfactor_sum target us = Finite r" "0 \<le> r"
    "r \<le> of_int m * (5 / 32)"
    using fold_undersized_fillfactor [OF ff, of 0 0] m3
    by (auto simp: undersized_fillfactor_sum_def m_def)
  have dm: "double_of_int m = Finite (of_int m)"
    unfolding double_of_int_def by (rule round_double_of_int) (use m2 m3 in simp)
  have mpos: "(0::rat) < of_int m" using m2 by simp
  have "r / of_int m \<le> (of_int m * (5 / 32)) / of_int m"
    using r(3) mpos by (intro divide_right_mono) simp_all
  then have "r / of_int m \<le> of_int 1 * (5 / 32)" using mpos by simp
  then have al: "nearest (r / of_int m) \<le> of_int 1 * (5 / 32)"
    by (rule nearest_le_fixed [OF _ nearest_multiple_5_32]) simp_all
  define al where "al = nearest (r / of_int m)"
  have al5: "al \<le> 5 / 32" using al by (simp add: al_def)
  have al0: "0 \<le> al" unfolding al_def using r(2) mpos by (intro nearest_nonneg) simp
  have "nearest (r / of_int m) < 2 ^ 1024" using al5 unfolding al_def by simp
  then have avg: "undersized_avg_fillfactor target chunks = Finite al"
    using double_div_nonneg [OF r(2) mpos]
    by (simp add: undersized_avg_fillfactor_def us_def [symmetric] m_def [symmetric] r(1) dm al_def)
  have fac: "boost_factor target chunks = PInf \<or>
      (\<exists>f. boost_factor target chunks = Finite f \<and> 1 \<le> f)"
  proof (cases "al = 0")
    case True
    then show ?thesis
      by (simp add: boost_factor_def avg UNDERSIZED_FILLFACTOR_THRESH_value double_div_def
          signed_inf_def)
  next
    case False
    then have ap: "0 < al" using al0 by simp
    have "al \<le> 5944751508129055 / 36028797018963968" using al5 by simp
    then have "1 \<le> (5944751508129055 / 36028797018963968) / al"
      using ap by (simp add: le_divide_eq)
    then have "round_double ((5944751508129055 / 36028797018963968) / al) = PInf \<or>
        (\<exists>f. round_double ((5944751508129055 / 36028797018963968) / al) = Finite f \<and> 1 \<le> f)"
      by (rule round_double_ge_one)
    then show ?thesis
      using False
      by (simp add: boost_factor_def avg UNDERSIZED_FILLFACTOR_THRESH_value double_div_def)
  qed
  have w: "\<forall>ch \<in> set us. 0 < slice_interval_of ch \<and> slice_interval_of ch \<le> 2 ^ 58"
    using sub by (simp add: bounded_chunk_def)
  have s: "m \<le> undersized_interval_sum us" "undersized_interval_sum us \<le> m * 2 ^ 58"
    using fold_undersized_intervals [OF w, of 0 0] m3
    by (simp_all add: undersized_interval_sum_def m_def)
  define av where "av = undersized_avg_interval target chunks"
  have av: "av = undersized_interval_sum us div m"
    using s(1) m2
    by (simp add: av_def undersized_avg_interval_def us_def [symmetric] m_def [symmetric]
        c_div_nonneg)
  have av1: "1 \<le> av"
    unfolding av using s(1) m2 pos_imp_zdiv_pos_iff [of m "undersized_interval_sum us"] by simp
  have "undersized_interval_sum us div m \<le> undersized_interval_sum us div 1"
    using s(1) m2 by (intro zdiv_mono2) simp_all
  then have "av \<le> m * 2 ^ 58" using s(2) by (simp add: av)
  moreover have "m * 2 ^ 58 \<le> 3 * (2 ^ 58 :: int)" using m3 by simp
  ultimately have av63: "av \<le> 2 ^ 63" by simp
  define na :: rat where "na = nearest (of_int av)"
  have da: "double_of_int av = Finite na"
    using double_of_int_nonneg(1) [of av] av1 av63 by (simp add: na_def)
  have "(1::rat) \<le> of_int av" using av1 by simp
  then have na1: "1 \<le> na" unfolding na_def by (rule nearest_ge_fixed) simp
  show ?thesis
    using fac
  proof
    assume "boost_factor target chunks = PInf"
    then show ?thesis
      using na1
      by (simp add: boost_product_def av_def [symmetric] da double_mul_def signed_inf_def)
  next
    assume "\<exists>f. boost_factor target chunks = Finite f \<and> 1 \<le> f"
    then obtain f where f: "boost_factor target chunks = Finite f" "1 \<le> f" by blast
    have "1 * 1 \<le> na * f" using na1 f(2) by (intro mult_mono) simp_all
    then have p1: "1 \<le> na * f" by simp
    have nz: "na * f \<noteq> 0" using na1 f(2) by simp
    have "round_double (na * f) = PInf \<or> (\<exists>p. round_double (na * f) = Finite p \<and> 1 \<le> p)"
      using p1 by (rule round_double_ge_one)
    then show ?thesis
      using nz by (simp add: boost_product_def av_def [symmetric] da f(1) double_mul_def)
  qed
qed

lemma boosted_interval_cases:
  assumes bnd: "\<forall>ch \<in> set chunks. bounded_chunk ch"
    and t: "0 < target" "target \<le> 2 ^ 63"
    and len: "length chunks \<le> 3"
    and many: "1 < length (samples UNDERSIZED target chunks)"
  shows "if double_lt (boost_product target chunks) (Finite (2 ^ 63))
         then 1 \<le> boosted_interval target chunks
         else boosted_interval target chunks = - (2 ^ 63)"
  using boost_product_cases [OF assms]
proof
  assume "boost_product target chunks = PInf"
  then show ?thesis by (simp add: boosted_interval_def double_to_int64_def)
next
  assume "\<exists>p. boost_product target chunks = Finite p \<and> 1 \<le> p"
  then obtain p where p: "boost_product target chunks = Finite p" "1 \<le> p" by blast
  show ?thesis
  proof (cases "p < 2 ^ 63")
    case True
    have "\<lfloor>1::rat\<rfloor> \<le> \<lfloor>p\<rfloor>" using p(2) by (rule floor_mono)
    then have "1 \<le> \<lfloor>p\<rfloor>" by simp
    moreover have "double_to_int64 (Finite p) = \<lfloor>p\<rfloor>"
      using p(2) True by (intro double_to_int64_nonneg) simp_all
    ultimately show ?thesis using True by (simp add: boosted_interval_def p(1))
  next
    case False
    then have "\<lfloor>(2::rat) ^ 63\<rfloor> \<le> \<lfloor>p\<rfloor>" by (intro floor_mono) simp
    then have "2 ^ 63 \<le> \<lfloor>p\<rfloor>" by simp
    then show ?thesis
      using False p(2) by (simp add: boosted_interval_def p(1) double_to_int64_def Let_def)
  qed
qed

lemma lowest_candidate_is_adopted:
  assumes "0 < current" "current \<le> 2 ^ 63"
  shows "double_gt (interval_diff_of (- (2 ^ 63)) current) INTERVAL_MIN_CHANGE_THRESH"
proof -
  have "(0::rat) < of_int current" using assms(1) by simp
  then have "(0::rat) \<le> 2 ^ 63 / of_int current" by simp
  then have "15 / 100 + 1 / 2 ^ 50 \<le> \<bar>1 - of_int (- (2 ^ 63)) / of_int current :: rat\<bar>"
    by simp
  then show ?thesis
    by (intro relative_change_large [OF assms]) simp_all
qed

lemma boosted_interval_candidate:
  assumes "samples USABLE target chunks = []" "1 < length (samples UNDERSIZED target chunks)"
  shows "candidate_interval target chunks = Some (boosted_interval target chunks)"
  using assms
  by (simp add: candidate_interval_cases boosted_interval_def boost_product_def
      boost_factor_def undersized_avg_fillfactor_def undersized_avg_interval_def)

subsection \<open>Ignored chunks, the literal scenario and the paths after the loop\<close>

text \<open>
  Claim C3. A chunk whose located minimum equals its located maximum has the interval
  fillfactor zero (or NaN), which fails the test against 0.5 in both branches: the chunk
  is ignored, the loop variables stay as they are, and the call returns what it returns
  for the window without the chunk. The quotient of the chunk size by this fillfactor is
  computed before the test and its value is used nowhere.
\<close>

theorem min_equal_max_chunk_is_ignored:
  assumes "chunk_minmax chunk = Some (v, v)"
  shows "classify target chunk = IGNORED \<and>
         chunk_step target chunk st = st \<and>
         calculate_chunk_interval nargs hypertable_id current_interval target
             (before @ chunk # after) =
           calculate_chunk_interval nargs hypertable_id current_interval target (before @ after)"
proof -
  have c: "classify target chunk = IGNORED" using assms by (rule classify_min_eq_max)
  then have s: "\<And>st. chunk_step target chunk st = st" by (simp add: chunk_step_classify)
  have "window_loop target (before @ chunk # after) initial_state =
      window_loop target (before @ after) initial_state"
    by (simp add: window_loop_append s)
  then show ?thesis using c s by (simp add: calculate_chunk_interval_def)
qed

text \<open>
  A chunk holding the single value 90000, after a usable chunk: it is ignored and the
  result is that of the usable chunk alone.
\<close>

theorem min_equal_max_chunk_is_ignored_witness:
  "classify 100000000 \<lparr>chunk_size = 120000000, range_start = 86400, range_end = 172800, chunk_minmax = Some (90000, 90000)\<rparr> = IGNORED \<and>
   chunk_step 100000000 \<lparr>chunk_size = 120000000, range_start = 86400, range_end = 172800, chunk_minmax = Some (90000, 90000)\<rparr> initial_state = initial_state \<and>
   calculate_chunk_interval 3 1 86400 100000000 ([\<lparr>chunk_size = 120000000, range_start = 0, range_end = 86400, chunk_minmax = Some (0, 86400)\<rparr>] @ \<lparr>chunk_size = 120000000, range_start = 86400, range_end = 172800, chunk_minmax = Some (90000, 90000)\<rparr> # []) =
     calculate_chunk_interval 3 1 86400 100000000 ([\<lparr>chunk_size = 120000000, range_start = 0, range_end = 86400, chunk_minmax = Some (0, 86400)\<rparr>] @ [])"
  using min_equal_max_chunk_is_ignored
    [where chunk = "\<lparr>chunk_size = 120000000, range_start = 86400, range_end = 172800, chunk_minmax = Some (90000, 90000)\<rparr>" and v = 90000 and target = 100000000 and st = initial_state
       and nargs = 3 and hypertable_id = 1 and current_interval = 86400
       and before = "[\<lparr>chunk_size = 120000000, range_start = 0, range_end = 86400, chunk_minmax = Some (0, 86400)\<rparr>]" and after = "[]"]
  by simp

text \<open>
  Claim C4. The literal scenario: current interval 86400, target size 100000000 bytes, one
  chunk of slice width 86400 filled from end to end, 120000000 bytes. The size
  fillfactor is the double nearest to 1.2, the quotient of 86400 by it rounds to 72000,
  the relative change is above the threshold, and 72000 is returned.
\<close>

theorem literal_scenario:
  "chunk_interval_fillfactor \<lparr>chunk_size = 120000000, range_start = 0, range_end = 86400, chunk_minmax = Some (0, 86400)\<rparr> = Finite 1 \<and>
   chunk_size_fillfactor 100000000 \<lparr>chunk_size = 120000000, range_start = 0, range_end = 86400, chunk_minmax = Some (0, 86400)\<rparr> = round_double (12 / 10) \<and>
   classify 100000000 \<lparr>chunk_size = 120000000, range_start = 0, range_end = 86400, chunk_minmax = Some (0, 86400)\<rparr> = USABLE \<and>
   implied_interval 100000000 \<lparr>chunk_size = 120000000, range_start = 0, range_end = 86400, chunk_minmax = Some (0, 86400)\<rparr> = Finite 72000 \<and>
   candidate_interval 100000000 [\<lparr>chunk_size = 120000000, range_start = 0, range_end = 86400, chunk_minmax = Some (0, 86400)\<rparr>] = Some 72000 \<and>
   double_gt (interval_diff_of 72000 86400) INTERVAL_MIN_CHANGE_THRESH \<and>
   calculate_chunk_interval 3 1 86400 100000000 [\<lparr>chunk_size = 120000000, range_start = 0, range_end = 86400, chunk_minmax = Some (0, 86400)\<rparr>] =
     Inr (72000, [LOG_making_change 72000])"
proof -
  have r1: "round_double (1501199875790165 / 9007199254740992) = Finite (1501199875790165 / 9007199254740992)"
    by (rule round_double_eqI [where e = "- 3" and n = 6004799503160660]) simp_all
  have r2: "round_double (5 / 6) = Finite (7505999378950827 / 9007199254740992)"
    by (rule round_double_eqI [where e = "- 1" and n = 7505999378950827]) simp_all
  have r3: "round_double (6 / 5) = Finite (5404319552844595 / 4503599627370496)"
    by (rule round_double_eqI [where e = 0 and n = 5404319552844595]) simp_all
  have r4: "round_double (77822201560962170880 / 1080863910568919) = Finite (72000)"
    by (rule round_double_eqI [where e = 16 and n = 4947802324992000]) simp_all
  show ?thesis
    by (simp add: candidate_interval_def implied_interval_def samples_eval estimator_eval
        double_eval r1 r2 r3 r4)
qed

text \<open>
  Claim C5, as stated, fails at the threshold. With the current interval 86400 and one
  chunk of slice width 73440, filled from end to end and of exactly the target size, the
  candidate is 73440 and the relative change is exactly 0.15; the quotient 0.85 rounds
  down, the computed change is 0.15000000000000002, and the call returns the candidate.
  For large intervals the same rounding decides below the threshold too: with the current
  interval 1501199875790167 and the candidate 1276019894421642 the relative change is less
  than 0.15 and the candidate is returned.
\<close>

theorem hysteresis_fails_at_threshold:
  "candidate_interval 100000000 [\<lparr>chunk_size = 100000000, range_start = 0, range_end = 73440, chunk_minmax = Some (0, 73440)\<rparr>] = Some 73440 \<and>
   \<bar>1 - 73440 / 86400 :: rat\<bar> \<le> 15 / 100 \<and>
   calculate_chunk_interval 3 1 86400 100000000 [\<lparr>chunk_size = 100000000, range_start = 0, range_end = 73440, chunk_minmax = Some (0, 73440)\<rparr>] =
     Inr (73440, [LOG_making_change 73440]) \<and>
   candidate_interval 100000000 [\<lparr>chunk_size = 100000000, range_start = 0, range_end = 1276019894421642, chunk_minmax = Some (0, 1276019894421642)\<rparr>] = Some 1276019894421642 \<and>
   \<bar>1 - 1276019894421642 / 1501199875790167 :: rat\<bar> < 15 / 100 \<and>
   calculate_chunk_interval 3 1 1501199875790167 100000000 [\<lparr>chunk_size = 100000000, range_start = 0, range_end = 1276019894421642, chunk_minmax = Some (0, 1276019894421642)\<rparr>] =
     Inr (1276019894421642, [LOG_making_change 1276019894421642])"
proof -
  have t1: "round_double (1351079888211149 / 9007199254740992) = Finite (1351079888211149 / 9007199254740992)"
    by (rule round_double_eqI [where e = "- 3" and n = 5404319552844596]) simp_all
  have t2: "round_double (17 / 20) = Finite (7656119366529843 / 9007199254740992)"
    by (rule round_double_eqI [where e = "- 1" and n = 7656119366529843]) simp_all
  have t3: "round_double (1276019894421642 / 1501199875790167) = Finite (7656119366529843 / 9007199254740992)"
    by (rule round_double_eqI [where e = "- 1" and n = 7656119366529843]) simp_all
  show ?thesis
    by (simp add: candidate_interval_def estimator_eval double_eval t1 t2 t3)
qed

text \<open>
  Claim C5, amended. A candidate interval exists exactly on the path of the usable chunks
  and on the path of the undersized chunks. For a current interval up to 1501199875790165,
  the integer part of \<open>2 ^ 53 / 6\<close>, the call returns the current interval exactly when
  \<open>- 0.15 \<le> 1 - candidate / current < 0.15\<close>, and the candidate otherwise: at a relative
  change of exactly 0.15 a candidate above the current interval is dropped and a candidate
  below it is adopted. For every positive current interval of 64 bits the current interval
  is returned when the relative change is at most \<open>0.15 - 2 ^ (-50)\<close>, the candidate when
  it is at least \<open>0.15 + 2 ^ (-50)\<close>.
\<close>

theorem hysteresis:
  assumes "nargs = CHUNK_SIZING_FUNC_NARGS" "0 < hypertable_id" "0 < current_interval"
  shows "(candidate_interval target chunks \<noteq> None \<longleftrightarrow>
            samples USABLE target chunks \<noteq> [] \<or>
            1 < length (samples UNDERSIZED target chunks)) \<and>
         (\<forall>new_interval. candidate_interval target chunks = Some new_interval \<longrightarrow>
            (current_interval \<le> 1501199875790165 \<longrightarrow>
               (- (15 / 100) \<le> (1 - of_int new_interval / of_int current_interval :: rat) \<and>
                (1 - of_int new_interval / of_int current_interval :: rat) < 15 / 100 \<longrightarrow>
                  (\<exists>msgs. calculate_chunk_interval nargs hypertable_id current_interval target
                             chunks = Inr (current_interval, msgs))) \<and>
               ((1 - of_int new_interval / of_int current_interval :: rat) < - (15 / 100) \<or>
                15 / 100 \<le> (1 - of_int new_interval / of_int current_interval :: rat) \<longrightarrow>
                  (\<exists>msgs. calculate_chunk_interval nargs hypertable_id current_interval target
                             chunks = Inr (new_interval, msgs)))) \<and>
            (current_interval \<le> 2 ^ 63 \<longrightarrow>
               (\<bar>1 - of_int new_interval / of_int current_interval :: rat\<bar> \<le>
                  15 / 100 - 1 / 2 ^ 50 \<longrightarrow>
                  (\<exists>msgs. calculate_chunk_interval nargs hypertable_id current_interval target
                             chunks = Inr (current_interval, msgs))) \<and>
               (15 / 100 + 1 / 2 ^ 50 \<le>
                  \<bar>1 - of_int new_interval / of_int current_interval :: rat\<bar> \<longrightarrow>
                  (\<exists>msgs. calculate_chunk_interval nargs hypertable_id current_interval target
                             chunks = Inr (new_interval, msgs)))))"
proof -
  have n: "nargs = 3" using assms(1) by (simp add: CHUNK_SIZING_FUNC_NARGS_def)
  have gt: "\<not> double_le d t" if "double_gt d t" for d t
    using that by (simp add: double_gt_def double_le_def)
  have a: "candidate_interval target chunks \<noteq> None \<longleftrightarrow>
      samples USABLE target chunks \<noteq> [] \<or> 1 < length (samples UNDERSIZED target chunks)"
    by (simp add: candidate_interval_cases)
  have b: "\<exists>msgs. calculate_chunk_interval nargs hypertable_id current_interval target chunks =
      Inr (if double_le (interval_diff_of new_interval current_interval)
                INTERVAL_MIN_CHANGE_THRESH
           then current_interval else new_interval, msgs)"
    if "candidate_interval target chunks = Some new_interval" for new_interval
    using that
    by (simp add: calculate_chunk_interval_candidate [OF n assms(2)] keep_or_change_def Let_def)
  have c: "\<exists>msgs. calculate_chunk_interval nargs hypertable_id current_interval target chunks =
        Inr (current_interval, msgs)"
    if "candidate_interval target chunks = Some new_interval"
      and "double_le (interval_diff_of new_interval current_interval) INTERVAL_MIN_CHANGE_THRESH"
    for new_interval
    using b [OF that(1)] that(2) by simp
  have d: "\<exists>msgs. calculate_chunk_interval nargs hypertable_id current_interval target chunks =
        Inr (new_interval, msgs)"
    if "candidate_interval target chunks = Some new_interval"
      and "\<not> double_le (interval_diff_of new_interval current_interval) INTERVAL_MIN_CHANGE_THRESH"
    for new_interval
    using b [OF that(1)] that(2) by simp
  have e: "(current_interval \<le> 1501199875790165 \<longrightarrow>
               (- (15 / 100) \<le> (1 - of_int new_interval / of_int current_interval :: rat) \<and>
                (1 - of_int new_interval / of_int current_interval :: rat) < 15 / 100 \<longrightarrow>
                  (\<exists>msgs. calculate_chunk_interval nargs hypertable_id current_interval target
                             chunks = Inr (current_interval, msgs))) \<and>
               ((1 - of_int new_interval / of_int current_interval :: rat) < - (15 / 100) \<or>
                15 / 100 \<le> (1 - of_int new_interval / of_int current_interval :: rat) \<longrightarrow>
                  (\<exists>msgs. calculate_chunk_interval nargs hypertable_id current_interval target
                             chunks = Inr (new_interval, msgs))))"
    if k: "candidate_interval target chunks = Some new_interval" for new_interval
  proof
    assume s: "current_interval \<le> 1501199875790165"
    note x = keep_or_change_exact [OF assms(3) s candidate_interval_range [OF k]]
    show "(- (15 / 100) \<le> (1 - of_int new_interval / of_int current_interval :: rat) \<and>
                (1 - of_int new_interval / of_int current_interval :: rat) < 15 / 100 \<longrightarrow>
                  (\<exists>msgs. calculate_chunk_interval nargs hypertable_id current_interval target
                             chunks = Inr (current_interval, msgs))) \<and>
               ((1 - of_int new_interval / of_int current_interval :: rat) < - (15 / 100) \<or>
                15 / 100 \<le> (1 - of_int new_interval / of_int current_interval :: rat) \<longrightarrow>
                  (\<exists>msgs. calculate_chunk_interval nargs hypertable_id current_interval target
                             chunks = Inr (new_interval, msgs)))"
      using c [OF k] d [OF k] unfolding x by (meson not_le)
  qed
  have f: "(current_interval \<le> 2 ^ 63 \<longrightarrow>
               (\<bar>1 - of_int new_interval / of_int current_interval :: rat\<bar> \<le>
                  15 / 100 - 1 / 2 ^ 50 \<longrightarrow>
                  (\<exists>msgs. calculate_chunk_interval nargs hypertable_id current_interval target
                             chunks = Inr (current_interval, msgs))) \<and>
               (15 / 100 + 1 / 2 ^ 50 \<le>
                  \<bar>1 - of_int new_interval / of_int current_interval :: rat\<bar> \<longrightarrow>
                  (\<exists>msgs. calculate_chunk_interval nargs hypertable_id current_interval target
                             chunks = Inr (new_interval, msgs))))"
    if k: "candidate_interval target chunks = Some new_interval" for new_interval
  proof
    assume s: "current_interval \<le> 2 ^ 63"
    note r = candidate_interval_range [OF k]
    show "(\<bar>1 - of_int new_interval / of_int current_interval :: rat\<bar> \<le>
                  15 / 100 - 1 / 2 ^ 50 \<longrightarrow>
                  (\<exists>msgs. calculate_chunk_interval nargs hypertable_id current_interval target
                             chunks = Inr (current_interval, msgs))) \<and>
               (15 / 100 + 1 / 2 ^ 50 \<le>
                  \<bar>1 - of_int new_interval / of_int current_interval :: rat\<bar> \<longrightarrow>
                  (\<exists>msgs. calculate_chunk_interval nargs hypertable_id current_interval target
                             chunks = Inr (new_interval, msgs)))"
      using c [OF k] d [OF k] relative_change_small [OF assms(3) s r]
        gt [OF relative_change_large [OF assms(3) s r]]
      by blast
  qed
  show ?thesis using a e f by blast
qed

text \<open>
  A candidate of 115 against the current interval 100, a relative change of exactly 0.15,
  is dropped; the candidate 72000 of a usable chunk and the candidate 712800 of two
  undersized chunks, against the current interval 86400, are adopted.
\<close>

theorem hysteresis_witness:
  "(\<exists>msgs. calculate_chunk_interval 3 1 100 100000000 [\<lparr>chunk_size = 100000000, range_start = 0, range_end = 115, chunk_minmax = Some (0, 115)\<rparr>] = Inr (100, msgs)) \<and>
   (\<exists>msgs. calculate_chunk_interval 3 1 86400 100000000 [\<lparr>chunk_size = 120000000, range_start = 0, range_end = 86400, chunk_minmax = Some (0, 86400)\<rparr>] = Inr (72000, msgs)) \<and>
   (\<exists>msgs. calculate_chunk_interval 3 1 86400 100000000 [\<lparr>chunk_size = 1000000, range_start = 0, range_end = 86400, chunk_minmax = Some (0, 86400)\<rparr>, \<lparr>chunk_size = 3000000, range_start = 86400, range_end = 172800, chunk_minmax = Some (86400, 172800)\<rparr>] = Inr (712800, msgs))"
proof -
  have h1: "round_double (1 / 100) = Finite (5764607523034235 / 576460752303423488)"
    by (rule round_double_eqI [where e = "- 7" and n = 5764607523034235]) simp_all
  have h2: "round_double (5764607523034235 / 576460752303423488) = Finite (5764607523034235 / 576460752303423488)"
    by (rule round_double_eqI [where e = "- 7" and n = 5764607523034235]) simp_all
  have h3: "round_double (5764607523034235 / 288230376151711744) = Finite (5764607523034235 / 288230376151711744)"
    by (rule round_double_eqI [where e = "- 6" and n = 5764607523034235]) simp_all
  have h4: "round_double (3 / 100) = Finite (1080863910568919 / 36028797018963968)"
    by (rule round_double_eqI [where e = "- 6" and n = 8646911284551352]) simp_all
  have h5: "round_double (23058430092136939 / 576460752303423488) = Finite (5764607523034235 / 144115188075855872)"
    by (rule round_double_eqI [where e = "- 5" and n = 5764607523034235]) simp_all
  have h6: "round_double (- (337769972052787 / 2251799813685248)) = Finite (- (337769972052787 / 2251799813685248))"
    by (rule round_double_eqI [where e = "- 3" and n = "- 5404319552844592"]) simp_all
  have h7: "round_double (1501199875790165 / 9007199254740992) = Finite (1501199875790165 / 9007199254740992)"
    by (rule round_double_eqI [where e = "- 3" and n = 6004799503160660]) simp_all
  have h8: "round_double (5 / 6) = Finite (7505999378950827 / 9007199254740992)"
    by (rule round_double_eqI [where e = "- 1" and n = 7505999378950827]) simp_all
  have h9: "round_double (23 / 20) = Finite (2589569785738035 / 2251799813685248)"
    by (rule round_double_eqI [where e = 0 and n = 5179139571476070]) simp_all
  have h10: "round_double (6 / 5) = Finite (5404319552844595 / 4503599627370496)"
    by (rule round_double_eqI [where e = 0 and n = 5404319552844595]) simp_all
  have h11: "round_double (- (29 / 4)) = Finite (- (29 / 4))"
    by (rule round_double_eqI [where e = 2 and n = "- 8162774324609024"]) simp_all
  have h12: "round_double (33 / 4) = Finite (33 / 4)"
    by (rule round_double_eqI [where e = 3 and n = 4644337115725824]) simp_all
  have h13: "round_double (9511602413006488 / 1152921504606847) = Finite (33 / 4)"
    by (rule round_double_eqI [where e = 3 and n = 4644337115725824]) simp_all
  have h14: "round_double (77822201560962170880 / 1080863910568919) = Finite (72000)"
    by (rule round_double_eqI [where e = 16 and n = 4947802324992000]) simp_all
  have k: "candidate_interval 100000000 [\<lparr>chunk_size = 100000000, range_start = 0, range_end = 115, chunk_minmax = Some (0, 115)\<rparr>] = Some 115"
    by (simp add: candidate_interval_def estimator_eval double_eval h1 h2 h3 h4 h5 h6 h7 h8 h9 h10 h11 h12 h13 h14)
  have c: "candidate_interval 100000000 [\<lparr>chunk_size = 120000000, range_start = 0, range_end = 86400, chunk_minmax = Some (0, 86400)\<rparr>] = Some 72000"
    by (simp add: candidate_interval_def estimator_eval double_eval h1 h2 h3 h4 h5 h6 h7 h8 h9 h10 h11 h12 h13 h14)
  have u: "candidate_interval 100000000 [\<lparr>chunk_size = 1000000, range_start = 0, range_end = 86400, chunk_minmax = Some (0, 86400)\<rparr>, \<lparr>chunk_size = 3000000, range_start = 86400, range_end = 172800, chunk_minmax = Some (86400, 172800)\<rparr>] = Some 712800"
    by (simp add: candidate_interval_def estimator_eval double_eval
        UNDERSIZED_FILLFACTOR_THRESH_value h1 h2 h3 h4 h5 h6 h7 h8 h9 h10 h11 h12 h13 h14)
  have n: "(3::int) = CHUNK_SIZING_FUNC_NARGS" by (simp add: CHUNK_SIZING_FUNC_NARGS_def)
  have "\<exists>msgs. calculate_chunk_interval 3 1 100 100000000 [\<lparr>chunk_size = 100000000, range_start = 0, range_end = 115, chunk_minmax = Some (0, 115)\<rparr>] = Inr (100, msgs)"
    using hysteresis [OF n, where hypertable_id = 1 and current_interval = 100
        and target = 100000000 and chunks = "[\<lparr>chunk_size = 100000000, range_start = 0, range_end = 115, chunk_minmax = Some (0, 115)\<rparr>]"] k
    by simp
  moreover have "\<exists>msgs. calculate_chunk_interval 3 1 86400 100000000 [\<lparr>chunk_size = 120000000, range_start = 0, range_end = 86400, chunk_minmax = Some (0, 86400)\<rparr>] = Inr (72000, msgs)"
    using hysteresis [OF n, where hypertable_id = 1 and current_interval = 86400
        and target = 100000000 and chunks = "[\<lparr>chunk_size = 120000000, range_start = 0, range_end = 86400, chunk_minmax = Some (0, 86400)\<rparr>]"] c
    by simp
  moreover have "\<exists>msgs. calculate_chunk_interval 3 1 86400 100000000 [\<lparr>chunk_size = 1000000, range_start = 0, range_end = 86400, chunk_minmax = Some (0, 86400)\<rparr>, \<lparr>chunk_size = 3000000, range_start = 86400, range_end = 172800, chunk_minmax = Some (86400, 172800)\<rparr>] = Inr (712800, msgs)"
    using hysteresis [OF n, where hypertable_id = 1 and current_interval = 86400
        and target = 100000000 and chunks = "[\<lparr>chunk_size = 1000000, range_start = 0, range_end = 86400, chunk_minmax = Some (0, 86400)\<rparr>, \<lparr>chunk_size = 3000000, range_start = 86400, range_end = 172800, chunk_minmax = Some (86400, 172800)\<rparr>]"] u
    by simp
  ultimately show ?thesis by simp
qed

text \<open>
  Claim C6. A window without usable chunks and with at most one undersized chunk: the
  current interval is returned, and the only message is that the previous size is used.
\<close>

theorem no_evidence_keeps_current_interval:
  assumes "nargs = CHUNK_SIZING_FUNC_NARGS" "0 < hypertable_id"
    and "length (samples USABLE target chunks) = 0"
    and "length (samples UNDERSIZED target chunks) \<le> 1"
  shows "calculate_chunk_interval nargs hypertable_id current_interval target chunks =
           Inr (current_interval, [DEBUG1_use_previous_size current_interval])"
proof -
  have n: "nargs = 3" using assms(1) by (simp add: CHUNK_SIZING_FUNC_NARGS_def)
  have "candidate_interval target chunks = None"
    using assms(3,4) by (simp add: candidate_interval_cases)
  then show ?thesis by (simp add: calculate_chunk_interval_candidate [OF n assms(2)])
qed

text \<open>
  A window of a chunk without located values and of one undersized chunk (1000000 bytes
  against a target of 100000000).
\<close>

theorem no_evidence_keeps_current_interval_witness:
  "length (samples UNDERSIZED 100000000 [\<lparr>chunk_size = 1000000, range_start = 0, range_end = 86400, chunk_minmax = None\<rparr>, \<lparr>chunk_size = 1000000, range_start = 0, range_end = 86400, chunk_minmax = Some (0, 86400)\<rparr>]) = 1 \<and>
   calculate_chunk_interval 3 1 86400 100000000 [\<lparr>chunk_size = 1000000, range_start = 0, range_end = 86400, chunk_minmax = None\<rparr>, \<lparr>chunk_size = 1000000, range_start = 0, range_end = 86400, chunk_minmax = Some (0, 86400)\<rparr>] =
     Inr (86400, [DEBUG1_use_previous_size 86400])"
proof -
  have r1: "round_double (1 / 100) = Finite (5764607523034235 / 576460752303423488)"
    by (rule round_double_eqI [where e = "- 7" and n = 5764607523034235]) simp_all
  have r2: "round_double (5764607523034235 / 576460752303423488) = Finite (5764607523034235 / 576460752303423488)"
    by (rule round_double_eqI [where e = "- 7" and n = 5764607523034235]) simp_all
  have u: "samples USABLE 100000000 [\<lparr>chunk_size = 1000000, range_start = 0, range_end = 86400, chunk_minmax = None\<rparr>, \<lparr>chunk_size = 1000000, range_start = 0, range_end = 86400, chunk_minmax = Some (0, 86400)\<rparr>] = []"
    and v: "samples UNDERSIZED 100000000 [\<lparr>chunk_size = 1000000, range_start = 0, range_end = 86400, chunk_minmax = None\<rparr>, \<lparr>chunk_size = 1000000, range_start = 0, range_end = 86400, chunk_minmax = Some (0, 86400)\<rparr>] = [\<lparr>chunk_size = 1000000, range_start = 0, range_end = 86400, chunk_minmax = Some (0, 86400)\<rparr>]"
    by (simp_all add: samples_eval double_eval r1 r2)
  have n: "(3::int) = CHUNK_SIZING_FUNC_NARGS" by (simp add: CHUNK_SIZING_FUNC_NARGS_def)
  show ?thesis
    using no_evidence_keeps_current_interval [OF n, of 1 100000000 "[\<lparr>chunk_size = 1000000, range_start = 0, range_end = 86400, chunk_minmax = None\<rparr>, \<lparr>chunk_size = 1000000, range_start = 0, range_end = 86400, chunk_minmax = Some (0, 86400)\<rparr>]" 86400] u v
    by simp
qed

text \<open>
  Claim C7. The increase from the undersized chunks is computed exactly when no chunk is
  usable and more than one is undersized. The call then logs the factor, the quotient of
  the raised threshold (the double nearest to 0.165) by the mean size fillfactor, takes as
  candidate the product of the mean slice width (an integer division) and the factor,
  converted to an integer, and returns the candidate or, when the candidate is within the
  change threshold, the current interval. In every other window no increase is logged, and
  the result is that from the usable chunks or, without any, the current interval; one
  undersized chunk alone leaves the current interval.
\<close>

theorem undersized_boost_condition:
  assumes "nargs = CHUNK_SIZING_FUNC_NARGS" "0 < hypertable_id"
  shows "UNDERSIZED_FILLFACTOR_THRESH = round_double (165 / 1000) \<and>
         (length (samples USABLE target chunks) = 0 \<and>
          1 < length (samples UNDERSIZED target chunks) \<longrightarrow>
            calculate_chunk_interval nargs hypertable_id current_interval target chunks =
              Inr (if double_le
                        (interval_diff_of (boosted_interval target chunks) current_interval)
                        INTERVAL_MIN_CHANGE_THRESH
                   then (current_interval,
                         [DEBUG1_increase_interval (boost_factor target chunks),
                          DEBUG1_below_change_threshold (boosted_interval target chunks)])
                   else (boosted_interval target chunks,
                         [DEBUG1_increase_interval (boost_factor target chunks),
                          LOG_making_change (boosted_interval target chunks)]))) \<and>
         (\<not> (length (samples USABLE target chunks) = 0 \<and>
             1 < length (samples UNDERSIZED target chunks)) \<longrightarrow>
            \<not> boost_logged
                (calculate_chunk_interval nargs hypertable_id current_interval target chunks) \<and>
            calculate_chunk_interval nargs hypertable_id current_interval target chunks =
              (if samples USABLE target chunks = []
               then Inr (current_interval, [DEBUG1_use_previous_size current_interval])
               else Inr (keep_or_change current_interval
                           (c_div (chunk_interval (window_loop target chunks initial_state))
                              (int (length (samples USABLE target chunks)))) []))) \<and>
         (boost_logged
            (calculate_chunk_interval nargs hypertable_id current_interval target chunks) \<longleftrightarrow>
            length (samples USABLE target chunks) = 0 \<and>
            1 < length (samples UNDERSIZED target chunks)) \<and>
         (length (samples USABLE target chunks) = 0 \<and>
          length (samples UNDERSIZED target chunks) = 1 \<longrightarrow>
            calculate_chunk_interval nargs hypertable_id current_interval target chunks =
              Inr (current_interval, [DEBUG1_use_previous_size current_interval]))"
proof -
  have n: "nargs = 3" using assms(1) by (simp add: CHUNK_SIZING_FUNC_NARGS_def)
  have t: "round_double (33 / 200) = Finite (5944751508129055 / 36028797018963968)"
    by (rule round_double_eqI [where e = "- 3" and n = 5944751508129055]) simp_all
  have "UNDERSIZED_FILLFACTOR_THRESH = round_double (165 / 1000)"
    by (simp add: UNDERSIZED_FILLFACTOR_THRESH_value t)
  then show ?thesis
    by (auto simp: calculate_chunk_interval_candidate [OF n assms(2)] candidate_interval_cases
        boost_logged_def keep_or_change_def Let_def boosted_interval_def boost_product_def
        boost_factor_def undersized_avg_fillfactor_def undersized_avg_interval_def)
qed

text \<open>
  Two undersized chunks of 1000000 and 3000000 bytes against a target of 100000000: the
  mean fillfactor is 0.02, the factor 8.25, and the call returns 712800, the mean slice
  width 86400 times the factor. One of them alone: the current interval.
\<close>

theorem undersized_boost_condition_witness:
  "calculate_chunk_interval 3 1 86400 100000000 [\<lparr>chunk_size = 1000000, range_start = 0, range_end = 86400, chunk_minmax = Some (0, 86400)\<rparr>, \<lparr>chunk_size = 3000000, range_start = 86400, range_end = 172800, chunk_minmax = Some (86400, 172800)\<rparr>] =
     Inr (712800, [DEBUG1_increase_interval (Finite (33 / 4)), LOG_making_change 712800]) \<and>
   boost_logged (calculate_chunk_interval 3 1 86400 100000000 [\<lparr>chunk_size = 1000000, range_start = 0, range_end = 86400, chunk_minmax = Some (0, 86400)\<rparr>, \<lparr>chunk_size = 3000000, range_start = 86400, range_end = 172800, chunk_minmax = Some (86400, 172800)\<rparr>]) \<and>
   calculate_chunk_interval 3 1 86400 100000000 [\<lparr>chunk_size = 1000000, range_start = 0, range_end = 86400, chunk_minmax = None\<rparr>, \<lparr>chunk_size = 1000000, range_start = 0, range_end = 86400, chunk_minmax = Some (0, 86400)\<rparr>] =
     Inr (86400, [DEBUG1_use_previous_size 86400]) \<and>
   \<not> boost_logged (calculate_chunk_interval 3 1 86400 100000000 [\<lparr>chunk_size = 1000000, range_start = 0, range_end = 86400, chunk_minmax = None\<rparr>, \<lparr>chunk_size = 1000000, range_start = 0, range_end = 86400, chunk_minmax = Some (0, 86400)\<rparr>])"
proof -
  have r1: "round_double (1 / 100) = Finite (5764607523034235 / 576460752303423488)"
    by (rule round_double_eqI [where e = "- 7" and n = 5764607523034235]) simp_all
  have r2: "round_double (5764607523034235 / 576460752303423488) = Finite (5764607523034235 / 576460752303423488)"
    by (rule round_double_eqI [where e = "- 7" and n = 5764607523034235]) simp_all
  have r3: "round_double (5764607523034235 / 288230376151711744) = Finite (5764607523034235 / 288230376151711744)"
    by (rule round_double_eqI [where e = "- 6" and n = 5764607523034235]) simp_all
  have r4: "round_double (3 / 100) = Finite (1080863910568919 / 36028797018963968)"
    by (rule round_double_eqI [where e = "- 6" and n = 8646911284551352]) simp_all
  have r5: "round_double (23058430092136939 / 576460752303423488) = Finite (5764607523034235 / 144115188075855872)"
    by (rule round_double_eqI [where e = "- 5" and n = 5764607523034235]) simp_all
  have r6: "round_double (- (29 / 4)) = Finite (- (29 / 4))"
    by (rule round_double_eqI [where e = 2 and n = "- 8162774324609024"]) simp_all
  have r7: "round_double (33 / 4) = Finite (33 / 4)"
    by (rule round_double_eqI [where e = 3 and n = 4644337115725824]) simp_all
  have r8: "round_double (9511602413006488 / 1152921504606847) = Finite (33 / 4)"
    by (rule round_double_eqI [where e = 3 and n = 4644337115725824]) simp_all
  have u2: "samples USABLE 100000000 [\<lparr>chunk_size = 1000000, range_start = 0, range_end = 86400, chunk_minmax = Some (0, 86400)\<rparr>, \<lparr>chunk_size = 3000000, range_start = 86400, range_end = 172800, chunk_minmax = Some (86400, 172800)\<rparr>] = []"
    and v2: "samples UNDERSIZED 100000000 [\<lparr>chunk_size = 1000000, range_start = 0, range_end = 86400, chunk_minmax = Some (0, 86400)\<rparr>, \<lparr>chunk_size = 3000000, range_start = 86400, range_end = 172800, chunk_minmax = Some (86400, 172800)\<rparr>] = [\<lparr>chunk_size = 1000000, range_start = 0, range_end = 86400, chunk_minmax = Some (0, 86400)\<rparr>, \<lparr>chunk_size = 3000000, range_start = 86400, range_end = 172800, chunk_minmax = Some (86400, 172800)\<rparr>]"
    by (simp_all add: samples_eval double_eval r1 r2 r3 r4 r5 r6 r7 r8)
  have u1: "samples USABLE 100000000 [\<lparr>chunk_size = 1000000, range_start = 0, range_end = 86400, chunk_minmax = None\<rparr>, \<lparr>chunk_size = 1000000, range_start = 0, range_end = 86400, chunk_minmax = Some (0, 86400)\<rparr>] = []"
    and v1: "samples UNDERSIZED 100000000 [\<lparr>chunk_size = 1000000, range_start = 0, range_end = 86400, chunk_minmax = None\<rparr>, \<lparr>chunk_size = 1000000, range_start = 0, range_end = 86400, chunk_minmax = Some (0, 86400)\<rparr>] = [\<lparr>chunk_size = 1000000, range_start = 0, range_end = 86400, chunk_minmax = Some (0, 86400)\<rparr>]"
    by (simp_all add: samples_eval double_eval r1 r2 r3 r4 r5 r6 r7 r8)
  have s: "undersized_interval_sum [\<lparr>chunk_size = 1000000, range_start = 0, range_end = 86400, chunk_minmax = Some (0, 86400)\<rparr>, \<lparr>chunk_size = 3000000, range_start = 86400, range_end = 172800, chunk_minmax = Some (86400, 172800)\<rparr>] = 172800"
    by (simp add: undersized_interval_sum_def slice_interval_of_def int64_def)
  have f: "undersized_fillfactor_sum 100000000 [\<lparr>chunk_size = 1000000, range_start = 0, range_end = 86400, chunk_minmax = Some (0, 86400)\<rparr>, \<lparr>chunk_size = 3000000, range_start = 86400, range_end = 172800, chunk_minmax = Some (86400, 172800)\<rparr>] =
      Finite (5764607523034235 / 144115188075855872)"
    by (simp add: undersized_fillfactor_sum_def samples_eval double_eval r1 r2 r3 r4 r5 r6 r7 r8)
  have bf: "boost_factor 100000000 [\<lparr>chunk_size = 1000000, range_start = 0, range_end = 86400, chunk_minmax = Some (0, 86400)\<rparr>, \<lparr>chunk_size = 3000000, range_start = 86400, range_end = 172800, chunk_minmax = Some (86400, 172800)\<rparr>] = Finite (33 / 4)"
    by (simp add: boost_factor_def undersized_avg_fillfactor_def v2 f
        UNDERSIZED_FILLFACTOR_THRESH_value double_eval r1 r2 r3 r4 r5 r6 r7 r8)
  have bi: "boosted_interval 100000000 [\<lparr>chunk_size = 1000000, range_start = 0, range_end = 86400, chunk_minmax = Some (0, 86400)\<rparr>, \<lparr>chunk_size = 3000000, range_start = 86400, range_end = 172800, chunk_minmax = Some (86400, 172800)\<rparr>] = 712800"
    by (simp add: boosted_interval_def boost_product_def undersized_avg_interval_def v2 s bf
        c_div_def double_eval r1 r2 r3 r4 r5 r6 r7 r8)
  have dd: "\<not> double_le (interval_diff_of 712800 86400) INTERVAL_MIN_CHANGE_THRESH"
    by (simp add: interval_diff_of_def INTERVAL_MIN_CHANGE_THRESH_value double_eval r1 r2 r3 r4 r5 r6 r7 r8)
  have n: "(3::int) = CHUNK_SIZING_FUNC_NARGS" by (simp add: CHUNK_SIZING_FUNC_NARGS_def)
  show ?thesis
    using undersized_boost_condition [OF n, where hypertable_id = 1 and current_interval = 86400
        and target = 100000000 and chunks = "[\<lparr>chunk_size = 1000000, range_start = 0, range_end = 86400, chunk_minmax = Some (0, 86400)\<rparr>, \<lparr>chunk_size = 3000000, range_start = 86400, range_end = 172800, chunk_minmax = Some (86400, 172800)\<rparr>]"]
      undersized_boost_condition [OF n, where hypertable_id = 1 and current_interval = 86400
        and target = 100000000 and chunks = "[\<lparr>chunk_size = 1000000, range_start = 0, range_end = 86400, chunk_minmax = None\<rparr>, \<lparr>chunk_size = 1000000, range_start = 0, range_end = 86400, chunk_minmax = Some (0, 86400)\<rparr>]"]
      u1 v1 u2 v2 bf bi dd
    by (simp add: boost_logged_def)
qed

subsection \<open>The sum over the usable chunks\<close>

lemma nearest_multiple_61:
  assumes "0 \<le> j" "j \<le> 3"
  shows "nearest (of_int j * 2 ^ 61) = of_int j * 2 ^ 61"
  using nearest_representable [of "of_int j * 2 ^ 61" j 61] assms by simp

lemma implied_interval_bounds:
  assumes "bounded_chunk ch" "0 < target" "target \<le> 2 ^ 63" "classify target ch = USABLE"
  shows "\<exists>r. implied_interval target ch = Finite r \<and> 0 \<le> r \<and> r \<le> 2 ^ 61"
proof -
  have size: "0 \<le> chunk_size ch" "chunk_size ch \<le> 2 ^ 61"
    and s0: "0 < slice_interval_of ch" and s58: "slice_interval_of ch \<le> 2 ^ 58"
    using assms(1) by (simp_all add: bounded_chunk_def)
  obtain g where sf: "chunk_size_fillfactor target ch = Finite g"
    and g: "5404319552844595 / 36028797018963968 < g"
    using usable_chunk_fillfactors [OF size assms(2,3,4)] by blast
  define ns :: rat where "ns = nearest (of_int (slice_interval_of ch))"
  have ds: "double_of_int (slice_interval_of ch) = Finite ns" and ns0: "0 \<le> ns"
    using double_of_int_nonneg(1,2) [of "slice_interval_of ch"] s0 s58 by (simp_all add: ns_def)
  have "(of_int (slice_interval_of ch) :: rat) \<le> of_int (2 ^ 58)"
    using s58 by (simp only: of_int_le_iff)
  then have "(of_int (slice_interval_of ch) :: rat) \<le> 2 ^ 58" by simp
  then have ns58: "ns \<le> 2 ^ 58"
    unfolding ns_def by (rule nearest_le_fixed [OF _ nearest_numeral_pow2])
  have g8: "1 / 8 < g" using g by simp
  have "ns / g \<le> ns / (1 / 8)" using ns0 g8 by (intro divide_left_mono) simp_all
  also have "\<dots> \<le> 2 ^ 61" using ns58 by simp
  finally have b: "nearest (ns / g) \<le> 2 ^ 61"
    by (rule nearest_le_fixed [OF _ nearest_numeral_pow2])
  then have "nearest (ns / g) < 2 ^ 1024" by (rule le_less_trans) simp
  then have "double_div (Finite ns) (Finite g) = Finite (nearest (ns / g))"
    using ns0 g8 by (intro double_div_nonneg) simp_all
  moreover have "0 \<le> nearest (ns / g)" using ns0 g8 by (intro nearest_nonneg) simp
  ultimately show ?thesis using b by (simp add: implied_interval_def ds sf)
qed

lemma implied_interval_antimono:
  assumes b: "bounded_chunk ch" and t: "0 < target" "target \<le> 2 ^ 63"
    and sz: "chunk_size ch \<le> size2" "size2 \<le> 2 ^ 61"
    and u1: "classify target ch = USABLE"
    and u2: "classify target (ch\<lparr>chunk_size := size2\<rparr>) = USABLE"
  shows "\<exists>r r2. implied_interval target ch = Finite r \<and>
           implied_interval target (ch\<lparr>chunk_size := size2\<rparr>) = Finite r2 \<and> r2 \<le> r"
proof -
  let ?ch2 = "ch\<lparr>chunk_size := size2\<rparr>"
  have size: "0 \<le> chunk_size ch" "chunk_size ch \<le> 2 ^ 61"
    and s0: "0 < slice_interval_of ch" and s58: "slice_interval_of ch \<le> 2 ^ 58"
    using b by (simp_all add: bounded_chunk_def)
  have size2: "0 \<le> chunk_size ?ch2" "chunk_size ?ch2 \<le> 2 ^ 61"
    using size(1) sz by simp_all
  have same2: "slice_interval_of ?ch2 = slice_interval_of ch"
    by (simp add: slice_interval_of_def)
  have same1: "chunk_interval_fillfactor ?ch2 = chunk_interval_fillfactor ch"
    by (simp add: chunk_interval_fillfactor_def same2 split: option.split)
  note same = same1 same2
  define nt :: rat where "nt = nearest (of_int target)"
  define G where "G = (\<lambda>f n. nearest (nearest (of_int \<lfloor>nearest (nearest (of_int n) / f)\<rfloor>) / nt))"
  obtain f where f: "chunk_interval_fillfactor ch = Finite f" and fh: "1 / 2 < f"
    and sf: "chunk_size_fillfactor target ch = Finite (G f (chunk_size ch))"
    and g: "5404319552844595 / 36028797018963968 < G f (chunk_size ch)"
    using usable_chunk_fillfactors [OF size t u1] unfolding G_def nt_def by blast
  obtain f2 where f2: "chunk_interval_fillfactor ?ch2 = Finite f2"
    and sf2: "chunk_size_fillfactor target ?ch2 = Finite (G f2 (chunk_size ?ch2))"
    using usable_chunk_fillfactors [OF size2 t u2] unfolding G_def nt_def by blast
  have ff: "f2 = f" using f f2 same(1) by simp
  have "1 \<le> (of_int target :: rat)" using t(1) by simp
  then have nt1: "1 \<le> nt" unfolding nt_def by (rule nearest_ge_fixed) simp
  have "(of_int (chunk_size ch) :: rat) \<le> of_int size2" using sz(1) by (simp only: of_int_le_iff)
  then have "nearest (of_int (chunk_size ch) :: rat) \<le> nearest (of_int size2)"
    by (rule nearest_mono)
  then have "nearest (of_int (chunk_size ch)) / f \<le> nearest (of_int size2) / f"
    using fh by (intro divide_right_mono) simp_all
  then have "nearest (nearest (of_int (chunk_size ch)) / f) \<le> nearest (nearest (of_int size2) / f)"
    by (rule nearest_mono)
  then have "\<lfloor>nearest (nearest (of_int (chunk_size ch)) / f)\<rfloor> \<le> \<lfloor>nearest (nearest (of_int size2) / f)\<rfloor>"
    by (rule floor_mono)
  then have "(of_int \<lfloor>nearest (nearest (of_int (chunk_size ch)) / f)\<rfloor> :: rat) \<le>
      of_int \<lfloor>nearest (nearest (of_int size2) / f)\<rfloor>"
    by (simp only: of_int_le_iff)
  then have "nearest (of_int \<lfloor>nearest (nearest (of_int (chunk_size ch)) / f)\<rfloor> :: rat) \<le>
      nearest (of_int \<lfloor>nearest (nearest (of_int size2) / f)\<rfloor>)"
    by (rule nearest_mono)
  then have "nearest (of_int \<lfloor>nearest (nearest (of_int (chunk_size ch)) / f)\<rfloor>) / nt \<le>
      nearest (of_int \<lfloor>nearest (nearest (of_int size2) / f)\<rfloor>) / nt"
    using nt1 by (intro divide_right_mono) simp_all
  then have gg: "G f (chunk_size ch) \<le> G f size2"
    unfolding G_def by (rule nearest_mono)
  define ns :: rat where "ns = nearest (of_int (slice_interval_of ch))"
  have ns0: "0 \<le> ns"
    using double_of_int_nonneg(2) [of "slice_interval_of ch"] s0 s58 by (simp add: ns_def)
  have g0: "0 < G f (chunk_size ch)" using g by (rule less_trans [rotated]) simp
  then have g20: "0 < G f size2" using gg by simp
  have "ns / G f size2 \<le> ns / G f (chunk_size ch)"
    using ns0 g0 gg by (intro divide_left_mono) simp_all
  then have le: "nearest (ns / G f size2) \<le> nearest (ns / G f (chunk_size ch))"
    by (rule nearest_mono)
  obtain r where r: "implied_interval target ch = Finite r"
    using implied_interval_bounds [OF b t u1] by blast
  have b2: "bounded_chunk ?ch2" using size2 s0 s58 by (simp add: bounded_chunk_def same)
  obtain r2 where r2: "implied_interval target ?ch2 = Finite r2"
    using implied_interval_bounds [OF b2 t u2] by blast
  have ds: "double_of_int (slice_interval_of ch) = Finite ns"
    using double_of_int_nonneg(1) [of "slice_interval_of ch"] s0 s58 by (simp add: ns_def)
  have d1: "double_div (Finite ns) (Finite (G f (chunk_size ch))) = Finite r"
    using r by (simp add: implied_interval_def ds sf)
  have d2: "double_div (Finite ns) (Finite (G f size2)) = Finite r2"
    using r2 by (simp add: implied_interval_def same ds sf2 ff)
  have e1: "r = nearest (ns / G f (chunk_size ch))"
  proof (cases "ns = 0")
    case True
    then show ?thesis using d1 g0 by (simp add: double_div_def signed_zero_def)
  next
    case False
    then have "round_double (ns / G f (chunk_size ch)) = Finite r"
      using d1 g0 ns0 by (simp add: double_div_def)
    moreover have "0 \<le> nearest (ns / G f (chunk_size ch))"
      using ns0 g0 by (intro nearest_nonneg) simp
    ultimately show ?thesis
      using False g0 by (auto simp: round_double_def Let_def split: if_splits)
  qed
  have e2: "r2 = nearest (ns / G f size2)"
  proof (cases "ns = 0")
    case True
    then show ?thesis using d2 g20 by (simp add: double_div_def signed_zero_def)
  next
    case False
    then have "round_double (ns / G f size2) = Finite r2"
      using d2 g20 ns0 by (simp add: double_div_def)
    moreover have "0 \<le> nearest (ns / G f size2)"
      using ns0 g20 by (intro nearest_nonneg) simp
    ultimately show ?thesis
      using False g20 by (auto simp: round_double_def Let_def split: if_splits)
  qed
  show ?thesis using r r2 le e1 e2 by simp
qed

lemma accumulate_step:
  assumes "0 \<le> acc" "acc \<le> j * 2 ^ 61" "0 \<le> j" "j \<le> 2" "0 \<le> r" "r \<le> 2 ^ 61"
  shows "double_to_int64 (double_add (double_of_int acc) (Finite r)) =
           \<lfloor>nearest (nearest (of_int acc) + r)\<rfloor>"
    and "0 \<le> \<lfloor>nearest (nearest (of_int acc) + r)\<rfloor>"
    and "\<lfloor>nearest (nearest (of_int acc) + r)\<rfloor> \<le> (j + 1) * 2 ^ 61"
proof -
  define na :: rat where "na = nearest (of_int acc)"
  have "j * 2 ^ 61 \<le> 2 * 2 ^ 61" using assms(4) by simp
  then have a63: "acc \<le> 2 ^ 63" using assms(2) by simp
  have da: "double_of_int acc = Finite na" and na0: "0 \<le> na"
    using double_of_int_nonneg(1,2) [OF assms(1) a63] by (simp_all add: na_def)
  have "(of_int acc :: rat) \<le> of_int (j * 2 ^ 61)" using assms(2) by (simp only: of_int_le_iff)
  then have "(of_int acc :: rat) \<le> of_int j * 2 ^ 61" by simp
  then have naj: "na \<le> of_int j * 2 ^ 61"
    unfolding na_def by (rule nearest_le_fixed [OF _ nearest_multiple_61]) (use assms(3,4) in simp_all)
  have "na + r \<le> of_int (j + 1) * 2 ^ 61" using naj assms(6) by (simp add: algebra_simps)
  then have s: "nearest (na + r) \<le> of_int (j + 1) * 2 ^ 61"
    by (rule nearest_le_fixed [OF _ nearest_multiple_61]) (use assms(3,4) in simp_all)
  have "(of_int (j + 1) :: rat) \<le> 3" using assms(4) by simp
  then have "(of_int (j + 1) :: rat) * 2 ^ 61 \<le> 3 * 2 ^ 61" by simp
  also have "\<dots> < 2 ^ 63" by simp
  finally have lt: "(of_int (j + 1) :: rat) * 2 ^ 61 < 2 ^ 63" .
  have s63: "nearest (na + r) < 2 ^ 63" using s lt by simp
  then have "nearest (na + r) < 2 ^ 1024" by (rule less_trans) simp
  then have "double_add (Finite na) (Finite r) = Finite (nearest (na + r))"
    using na0 assms(5) by (intro double_add_nonneg)
  moreover have s0: "0 \<le> nearest (na + r)" using na0 assms(5) by (intro nearest_nonneg) simp
  ultimately show "double_to_int64 (double_add (double_of_int acc) (Finite r)) =
      \<lfloor>nearest (nearest (of_int acc) + r)\<rfloor>"
    using s63 by (simp add: da double_to_int64_nonneg na_def)
  show "0 \<le> \<lfloor>nearest (nearest (of_int acc) + r)\<rfloor>" using s0 by (simp add: na_def)
  have "\<lfloor>nearest (na + r)\<rfloor> \<le> \<lfloor>(of_int ((j + 1) * 2 ^ 61) :: rat)\<rfloor>"
    using s by (intro floor_mono) simp
  then show "\<lfloor>nearest (nearest (of_int acc) + r)\<rfloor> \<le> (j + 1) * 2 ^ 61"
    by (simp only: floor_of_int na_def)
qed

lemma accumulate_step_mono:
  assumes "acc2 \<le> acc1" "r2 \<le> r1"
  shows "\<lfloor>nearest (nearest (of_int acc2) + r2)\<rfloor> \<le> \<lfloor>nearest (nearest (of_int acc1) + r1)\<rfloor>"
proof -
  have "(of_int acc2 :: rat) \<le> of_int acc1" using assms(1) by simp
  then have "nearest (of_int acc2 :: rat) \<le> nearest (of_int acc1)" by (rule nearest_mono)
  then have "nearest (of_int acc2) + r2 \<le> nearest (of_int acc1) + r1" using assms(2) by simp
  then have "nearest (nearest (of_int acc2) + r2) \<le> nearest (nearest (of_int acc1) + r1)"
    by (rule nearest_mono)
  then show ?thesis by (rule floor_mono)
qed

lemma chunk_step_usable:
  assumes "classify target ch = USABLE"
  shows "chunk_step target ch st =
           st\<lparr>chunk_interval :=
                double_to_int64
                  (double_add (double_of_int (chunk_interval st)) (implied_interval target ch)),
              num_intervals := num_intervals st + 1\<rparr>"
  using assms by (simp add: chunk_step_classify implied_interval_def)

lemma chunk_step_not_usable:
  assumes "classify target ch \<noteq> USABLE"
  shows "chunk_interval (chunk_step target ch st) = chunk_interval st"
    and "num_intervals (chunk_step target ch st) = num_intervals st"
  using assms by (cases "classify target ch"; simp add: chunk_step_classify)+

lemma window_loop_chunk_interval:
  assumes "\<forall>ch \<in> set chunks. bounded_chunk ch" "0 < target" "target \<le> 2 ^ 63"
    and "0 \<le> chunk_interval st2" "chunk_interval st2 \<le> chunk_interval st1"
    and "chunk_interval st1 \<le> num_intervals st1 * 2 ^ 61"
    and "0 \<le> num_intervals st1" "num_intervals st1 + int (length chunks) \<le> 3"
    and "num_intervals st2 = num_intervals st1"
  shows "0 \<le> chunk_interval (window_loop target chunks st2) \<and>
         chunk_interval (window_loop target chunks st2) \<le>
           chunk_interval (window_loop target chunks st1) \<and>
         chunk_interval (window_loop target chunks st1) \<le>
           num_intervals (window_loop target chunks st1) * 2 ^ 61 \<and>
         num_intervals (window_loop target chunks st2) =
           num_intervals (window_loop target chunks st1)"
  using assms
proof (induction chunks arbitrary: st1 st2)
  case Nil
  then show ?case by simp
next
  case (Cons ch rest)
  have bch: "bounded_chunk ch" and brest: "\<forall>c \<in> set rest. bounded_chunk c"
    using Cons.prems(1) by simp_all
  show ?case
  proof (cases "classify target ch = USABLE")
    case True
    obtain r where r: "implied_interval target ch = Finite r" and r0: "0 \<le> r" and r61: "r \<le> 2 ^ 61"
      using implied_interval_bounds [OF bch Cons.prems(2,3) True] by blast
    have j2: "num_intervals st1 \<le> 2" using Cons.prems(8) by simp
    have a1: "0 \<le> chunk_interval st1" using Cons.prems(4,5) by simp
    have a2: "chunk_interval st2 \<le> num_intervals st1 * 2 ^ 61" using Cons.prems(5,6) by simp
    note s1 = accumulate_step [OF a1 Cons.prems(6,7) j2 r0 r61]
    note s2 = accumulate_step [OF Cons.prems(4) a2 Cons.prems(7) j2 r0 r61]
    have m: "\<lfloor>nearest (nearest (of_int (chunk_interval st2)) + r)\<rfloor> \<le>
        \<lfloor>nearest (nearest (of_int (chunk_interval st1)) + r)\<rfloor>"
      using Cons.prems(5) by (intro accumulate_step_mono) simp_all
    show ?thesis
      unfolding window_loop.simps chunk_step_usable [OF True] r
      by (rule Cons.IH [OF brest Cons.prems(2,3)])
        (use s1 s2 m Cons.prems(7,8,9) in \<open>simp_all add: algebra_simps\<close>)
  next
    case False
    show ?thesis
      unfolding window_loop.simps
      by (rule Cons.IH [OF brest Cons.prems(2,3)])
        (use Cons.prems in \<open>simp_all add: chunk_step_not_usable [OF False]\<close>)
  qed
qed

lemma window_loop_from_initial:
  assumes "\<forall>ch \<in> set chunks. bounded_chunk ch" "0 < target" "target \<le> 2 ^ 63"
    and "length chunks \<le> 3"
  shows "0 \<le> chunk_interval (window_loop target chunks initial_state)"
    and "chunk_interval (window_loop target chunks initial_state) \<le>
           num_intervals (window_loop target chunks initial_state) * 2 ^ 61"
  using window_loop_chunk_interval [OF assms(1,2,3), of initial_state initial_state] assms(4)
  by (simp_all add: initial_state_def)

lemma candidate_interval_usable:
  assumes "samples USABLE target chunks \<noteq> []"
  shows "candidate_interval target chunks =
           Some (c_div (chunk_interval (window_loop target chunks initial_state))
                   (num_intervals (window_loop target chunks initial_state)))"
    and "0 < num_intervals (window_loop target chunks initial_state)"
  using assms
  by (simp_all add: candidate_interval_def Let_def window_loop_num_intervals initial_state_def)

text \<open>
  Claim C8, as stated, fails: a larger size need not give a smaller candidate, because
  the sum is truncated to an integer. With a target of 1 GiB and a slice width of 86400,
  a chunk of 1288495104 bytes and the same chunk with one more page of 8192 bytes are both
  usable and both give the candidate 71999.
\<close>

theorem candidate_interval_not_strictly_antimono:
  "classify 1073741824 \<lparr>chunk_size = 1288495104, range_start = 0, range_end = 86400, chunk_minmax = Some (0, 86400)\<rparr> = USABLE \<and>
   classify 1073741824 \<lparr>chunk_size = 1288503296, range_start = 0, range_end = 86400, chunk_minmax = Some (0, 86400)\<rparr> = USABLE \<and>
   candidate_interval 1073741824 [\<lparr>chunk_size = 1288495104, range_start = 0, range_end = 86400, chunk_minmax = Some (0, 86400)\<rparr>] = Some 71999 \<and>
   candidate_interval 1073741824 [\<lparr>chunk_size = 1288503296, range_start = 0, range_end = 86400, chunk_minmax = Some (0, 86400)\<rparr>] = Some 71999"
proof -
  have xa1: "round_double (375326031445385 / 2251799813685248) = Finite (375326031445385 / 2251799813685248)"
    by (rule round_double_eqI [where e = "- 3" and n = 6005216503126160]) simp_all
  have xa2: "round_double (71999 / 86400) = Finite (1876473782239863 / 2251799813685248)"
    by (rule round_double_eqI [where e = "- 1" and n = 7505895128959452]) simp_all
  have xa3: "round_double (157287 / 131072) = Finite (157287 / 131072)"
    by (rule round_double_eqI [where e = 0 and n = 5404340168687616]) simp_all
  have xa4: "round_double (3774873600 / 52429) = Finite (77309116417125 / 1073741824)"
    by (rule round_double_eqI [where e = 16 and n = 4947783450696000]) simp_all
  have xa5: "round_double (77309116417125 / 1073741824) = Finite (77309116417125 / 1073741824)"
    by (rule round_double_eqI [where e = 16 and n = 4947783450696000]) simp_all
  have xb1: "round_double (375326031445385 / 2251799813685248) = Finite (375326031445385 / 2251799813685248)"
    by (rule round_double_eqI [where e = "- 3" and n = 6005216503126160]) simp_all
  have xb2: "round_double (71999 / 86400) = Finite (1876473782239863 / 2251799813685248)"
    by (rule round_double_eqI [where e = "- 1" and n = 7505895128959452]) simp_all
  have xb3: "round_double (19661 / 16384) = Finite (19661 / 16384)"
    by (rule round_double_eqI [where e = 0 and n = 5404374528425984]) simp_all
  have xb4: "round_double (1415577600 / 19661) = Finite (4947751993855995 / 68719476736)"
    by (rule round_double_eqI [where e = 16 and n = 4947751993855995]) simp_all
  have xb5: "round_double (4947751993855995 / 68719476736) = Finite (4947751993855995 / 68719476736)"
    by (rule round_double_eqI [where e = 16 and n = 4947751993855995]) simp_all
  show ?thesis
    by (simp add: candidate_interval_def samples_eval estimator_eval double_eval xa1 xa2 xa3 xa4 xa5 xb1 xb2 xb3 xb4 xb5)
qed

text \<open>
  Claim C8, amended. In a window of at most \<open>DEFAULT_CHUNK_WINDOW\<close> chunks within the
  bounds, for a positive target size: when the size of one usable chunk grows and the chunk
  stays usable, the candidate interval does not grow.
\<close>

theorem candidate_interval_antimono:
  assumes t: "0 < target" "target \<le> 2 ^ 63"
    and len: "length (before @ chunk # after) \<le> DEFAULT_CHUNK_WINDOW"
    and bnd: "\<forall>ch \<in> set (before @ chunk # after). bounded_chunk ch"
    and sz: "chunk_size chunk < size2" "size2 \<le> 2 ^ 61"
    and u1: "classify target chunk = USABLE"
    and u2: "classify target (chunk\<lparr>chunk_size := size2\<rparr>) = USABLE"
  shows "\<exists>i1 i2. candidate_interval target (before @ chunk # after) = Some i1 \<and>
           candidate_interval target (before @ chunk\<lparr>chunk_size := size2\<rparr> # after) = Some i2 \<and>
           i2 \<le> i1"
proof -
  let ?c2 = "chunk\<lparr>chunk_size := size2\<rparr>"
  define sb where "sb = window_loop target before initial_state"
  have bb: "\<forall>ch \<in> set before. bounded_chunk ch" and bc: "bounded_chunk chunk"
    and ba: "\<forall>ch \<in> set after. bounded_chunk ch"
    using bnd by simp_all
  have l: "length before + 1 + length after \<le> 3"
    using len by (simp add: DEFAULT_CHUNK_WINDOW_def)
  then have lb: "length before \<le> 3" by simp
  have b0: "0 \<le> chunk_interval sb"
    and b1: "chunk_interval sb \<le> num_intervals sb * 2 ^ 61"
    using window_loop_from_initial [OF bb t lb] by (simp_all add: sb_def)
  have nb: "num_intervals sb = int (length (samples USABLE target before))"
    by (simp add: sb_def window_loop_num_intervals initial_state_def)
  have "length (samples USABLE target before) \<le> length before"
    by (simp add: samples_def)
  then have nb2: "num_intervals sb + 1 + int (length after) \<le> 3" and nb0: "0 \<le> num_intervals sb"
    using l nb by simp_all
  then have j2: "num_intervals sb \<le> 2" by simp
  obtain r r2 where r: "implied_interval target chunk = Finite r"
    and r2: "implied_interval target ?c2 = Finite r2" and rr: "r2 \<le> r"
    using implied_interval_antimono [OF bc t _ sz(2) u1 u2] sz(1) by auto
  obtain r' where "implied_interval target chunk = Finite r'" "0 \<le> r'" "r' \<le> 2 ^ 61"
    using implied_interval_bounds [OF bc t u1] by blast
  then have r0: "0 \<le> r" and r61: "r \<le> 2 ^ 61" using r by simp_all
  have bc2: "bounded_chunk ?c2"
    using bc sz by (simp add: bounded_chunk_def slice_interval_of_def)
  obtain r'' where "implied_interval target ?c2 = Finite r''" "0 \<le> r''" "r'' \<le> 2 ^ 61"
    using implied_interval_bounds [OF bc2 t u2] by blast
  then have r20: "0 \<le> r2" and r261: "r2 \<le> 2 ^ 61" using r2 by simp_all
  define s1 where "s1 = chunk_step target chunk sb"
  define s2 where "s2 = chunk_step target ?c2 sb"
  note a1 = accumulate_step [OF b0 b1 nb0 j2 r0 r61]
  note a2 = accumulate_step [OF b0 b1 nb0 j2 r20 r261]
  have c1: "chunk_interval s1 = \<lfloor>nearest (nearest (of_int (chunk_interval sb)) + r)\<rfloor>"
    and n1: "num_intervals s1 = num_intervals sb + 1"
    by (simp_all add: s1_def chunk_step_usable [OF u1] r a1(1))
  have c2: "chunk_interval s2 = \<lfloor>nearest (nearest (of_int (chunk_interval sb)) + r2)\<rfloor>"
    and n2: "num_intervals s2 = num_intervals sb + 1"
    by (simp_all add: s2_def chunk_step_usable [OF u2] r2 a2(1))
  have m: "chunk_interval s2 \<le> chunk_interval s1"
    unfolding c1 c2 using rr by (intro accumulate_step_mono) simp_all
  have "0 \<le> chunk_interval (window_loop target after s2) \<and>
      chunk_interval (window_loop target after s2) \<le> chunk_interval (window_loop target after s1) \<and>
      chunk_interval (window_loop target after s1) \<le>
        num_intervals (window_loop target after s1) * 2 ^ 61 \<and>
      num_intervals (window_loop target after s2) = num_intervals (window_loop target after s1)"
    by (rule window_loop_chunk_interval [OF ba t])
      (use a1 a2 m c1 c2 n1 n2 nb0 nb2 in \<open>simp_all add: algebra_simps\<close>)
  then have f0: "0 \<le> chunk_interval (window_loop target after s2)"
    and fm: "chunk_interval (window_loop target after s2) \<le>
        chunk_interval (window_loop target after s1)"
    and fn: "num_intervals (window_loop target after s2) =
        num_intervals (window_loop target after s1)"
    by simp_all
  have w1: "window_loop target (before @ chunk # after) initial_state =
      window_loop target after s1"
    by (simp add: window_loop_append s1_def sb_def)
  have w2: "window_loop target (before @ ?c2 # after) initial_state =
      window_loop target after s2"
    by (simp add: window_loop_append s2_def sb_def)
  have e1: "samples USABLE target (before @ chunk # after) \<noteq> []"
    using u1 by (simp add: samples_def)
  have e2: "samples USABLE target (before @ ?c2 # after) \<noteq> []"
    using u2 by (simp add: samples_def)
  note k1 = candidate_interval_usable [OF e1, unfolded w1]
  note k2 = candidate_interval_usable [OF e2, unfolded w2]
  have "c_div (chunk_interval (window_loop target after s2))
          (num_intervals (window_loop target after s2)) \<le>
        c_div (chunk_interval (window_loop target after s1))
          (num_intervals (window_loop target after s1))"
    using f0 fm k1(2) unfolding fn
    by (simp add: c_div_nonneg zdiv_mono1)
  then show ?thesis using k1(1) k2(1) by simp
qed

text \<open>
  From 120000000 to 150000000 bytes against a target of 100000000: the candidate falls
  (from 72000 to 57600).
\<close>

theorem candidate_interval_antimono_witness:
  "\<exists>i1 i2. candidate_interval 100000000 ([] @ \<lparr>chunk_size = 120000000, range_start = 0, range_end = 86400, chunk_minmax = Some (0, 86400)\<rparr> # []) = Some i1 \<and>
      candidate_interval 100000000 ([] @ \<lparr>chunk_size = 120000000, range_start = 0, range_end = 86400, chunk_minmax = Some (0, 86400)\<rparr>\<lparr>chunk_size := 150000000\<rparr> # []) = Some i2 \<and>
      i2 \<le> i1"
proof -
  have p1: "round_double (1501199875790165 / 9007199254740992) = Finite (1501199875790165 / 9007199254740992)"
    by (rule round_double_eqI [where e = "- 3" and n = 6004799503160660]) simp_all
  have p2: "round_double (5 / 6) = Finite (7505999378950827 / 9007199254740992)"
    by (rule round_double_eqI [where e = "- 1" and n = 7505999378950827]) simp_all
  have p3: "round_double (6 / 5) = Finite (5404319552844595 / 4503599627370496)"
    by (rule round_double_eqI [where e = 0 and n = 5404319552844595]) simp_all
  have p4: "round_double (77822201560962170880 / 1080863910568919) = Finite (72000)"
    by (rule round_double_eqI [where e = 16 and n = 4947802324992000]) simp_all
  have q1: "round_double (3002399751580331 / 9007199254740992) = Finite (3002399751580331 / 9007199254740992)"
    by (rule round_double_eqI [where e = "- 2" and n = 6004799503160662]) simp_all
  have q2: "round_double (2 / 3) = Finite (6004799503160661 / 9007199254740992)"
    by (rule round_double_eqI [where e = "- 1" and n = 6004799503160661]) simp_all
  have q3: "round_double (3 / 2) = Finite (3 / 2)"
    by (rule round_double_eqI [where e = 0 and n = 6755399441055744]) simp_all
  have u1: "classify 100000000 \<lparr>chunk_size = 120000000, range_start = 0, range_end = 86400, chunk_minmax = Some (0, 86400)\<rparr> = USABLE"
    by (simp add: samples_eval double_eval p1 p2 p3 p4)
  have u2: "classify 100000000 (\<lparr>chunk_size = 120000000, range_start = 0, range_end = 86400, chunk_minmax = Some (0, 86400)\<rparr>\<lparr>chunk_size := 150000000\<rparr>) = USABLE"
    by (simp add: samples_eval double_eval q1 q2 q3)
  have b: "\<forall>ch \<in> set ([] @ \<lparr>chunk_size = 120000000, range_start = 0, range_end = 86400, chunk_minmax = Some (0, 86400)\<rparr> # []). bounded_chunk ch"
    by (simp add: bounded_chunk_def slice_interval_of_def int64_def)
  have l: "length ([] @ \<lparr>chunk_size = 120000000, range_start = 0, range_end = 86400, chunk_minmax = Some (0, 86400)\<rparr> # []) \<le> DEFAULT_CHUNK_WINDOW"
    by (simp add: DEFAULT_CHUNK_WINDOW_def)
  show ?thesis
    by (rule candidate_interval_antimono [OF _ _ l b _ _ u1 u2]) simp_all
qed

text \<open>
  Claim C2, as stated, fails: the mean of the implied intervals is truncated to an
  integer and can be 0. With the current interval 10, a target of 100000000 bytes and one
  chunk of slice width 10, filled from end to end, of 2000000000 bytes, the size fillfactor
  is 20, the implied interval 0.5, and the call returns 0.
\<close>

theorem calculate_chunk_interval_returns_zero:
  "calculate_chunk_interval 3 1 10 100000000 [\<lparr>chunk_size = 2000000000, range_start = 0, range_end = 10, chunk_minmax = Some (0, 10)\<rparr>] = Inr (0, [LOG_making_change 0])"
proof -
  have z1: "round_double (1 / 2) = Finite (1 / 2)"
    by (rule round_double_eqI [where e = "- 1" and n = 4503599627370496]) simp_all
  show ?thesis
    by (simp add: estimator_eval double_eval z1)
qed

text \<open>
  Claim C2, amended. For a positive current interval and target size and a window of at
  most \<open>DEFAULT_CHUNK_WINDOW\<close> chunks within the bounds, the call returns the current
  interval or the candidate. Off the path of the undersized chunks the returned interval is
  not negative. On that path it is positive when the increased mean slice width, as
  computed in double precision, is below \<open>2 ^ 63\<close>; otherwise the conversion to \<^verbatim>\<open>int64\<close>
  gives \<open>- 2 ^ 63\<close>, which differs from the current interval by more than the threshold
  and is returned.
\<close>

theorem calculate_chunk_interval_sign:
  assumes "nargs = CHUNK_SIZING_FUNC_NARGS" "0 < hypertable_id"
    and c: "0 < current_interval" "current_interval < 2 ^ 63"
    and t: "0 < target" "target \<le> 2 ^ 63"
    and len: "length chunks \<le> DEFAULT_CHUNK_WINDOW"
    and bnd: "\<forall>ch \<in> set chunks. bounded_chunk ch"
  shows "\<exists>i msgs.
           calculate_chunk_interval nargs hypertable_id current_interval target chunks =
             Inr (i, msgs) \<and>
           (i = current_interval \<or> candidate_interval target chunks = Some i) \<and>
           (if samples USABLE target chunks = [] \<and>
               1 < length (samples UNDERSIZED target chunks)
            then (if double_lt (boost_product target chunks) (Finite (2 ^ 63))
                  then 0 < i else i = - (2 ^ 63))
            else 0 \<le> i)"
proof -
  have n: "nargs = 3" using assms(1) by (simp add: CHUNK_SIZING_FUNC_NARGS_def)
  have l3: "length chunks \<le> 3" using len by (simp add: DEFAULT_CHUNK_WINDOW_def)
  note calc = calculate_chunk_interval_candidate [OF n assms(2), of current_interval target chunks]
  consider (boost) "samples USABLE target chunks = []"
      "1 < length (samples UNDERSIZED target chunks)"
    | (none) "samples USABLE target chunks = []"
      "length (samples UNDERSIZED target chunks) \<le> 1"
    | (usable) "samples USABLE target chunks \<noteq> []"
    by linarith
  then show ?thesis
  proof cases
    case boost
    note k = boosted_interval_candidate [OF boost]
    note b = boosted_interval_cases [OF bnd t l3 boost(2)]
    show ?thesis
    proof (cases "double_lt (boost_product target chunks) (Finite (2 ^ 63))")
      case True
      then have "1 \<le> boosted_interval target chunks" using b by simp
      then show ?thesis
        using True boost c(1) by (simp add: calc k keep_or_change_def Let_def)
    next
      case False
      then have m: "boosted_interval target chunks = - (2 ^ 63)" using b by simp
      have c63: "current_interval \<le> 2 ^ 63" using c(2) by simp
      have "double_gt (interval_diff_of (- (2 ^ 63)) current_interval)
          INTERVAL_MIN_CHANGE_THRESH"
        by (rule lowest_candidate_is_adopted [OF c(1) c63])
      then have "\<not> double_le (interval_diff_of (- (2 ^ 63)) current_interval)
          INTERVAL_MIN_CHANGE_THRESH"
        by (simp add: double_gt_def double_le_def)
      then show ?thesis
        using False boost by (simp add: calc k m keep_or_change_def Let_def)
    qed
  next
    case none
    then have "candidate_interval target chunks = None"
      by (simp add: candidate_interval_cases)
    then show ?thesis using none c(1) by (simp add: calc)
  next
    case usable
    note k = candidate_interval_usable [OF usable]
    have "0 \<le> chunk_interval (window_loop target chunks initial_state)"
      by (rule window_loop_from_initial(1) [OF bnd t l3])
    then have "0 \<le> c_div (chunk_interval (window_loop target chunks initial_state))
        (num_intervals (window_loop target chunks initial_state))"
      using k(2) by (simp add: c_div_nonneg pos_imp_zdiv_nonneg_iff)
    then show ?thesis
      using usable c(1) by (simp add: calc k(1) keep_or_change_def Let_def)
  qed
qed

text \<open>
  The input at which the call returns 0; two undersized chunks of 1000000 and 3000000
  bytes against a target of 100000000, where the call returns 712800; and two chunks of
  8192 bytes with slices of seven days in microseconds against a target of 1 TiB, where the
  increased mean exceeds \<open>2 ^ 63\<close> and the call returns \<open>- 2 ^ 63\<close>.
\<close>

theorem calculate_chunk_interval_sign_witness:
  "(\<exists>i msgs. calculate_chunk_interval 3 1 10 100000000 [\<lparr>chunk_size = 2000000000, range_start = 0, range_end = 10, chunk_minmax = Some (0, 10)\<rparr>] = Inr (i, msgs) \<and>
      (i = 10 \<or> candidate_interval 100000000 [\<lparr>chunk_size = 2000000000, range_start = 0, range_end = 10, chunk_minmax = Some (0, 10)\<rparr>] = Some i) \<and> 0 \<le> i) \<and>
   (\<exists>i msgs. calculate_chunk_interval 3 1 86400 100000000 [\<lparr>chunk_size = 1000000, range_start = 0, range_end = 86400, chunk_minmax = Some (0, 86400)\<rparr>, \<lparr>chunk_size = 3000000, range_start = 86400, range_end = 172800, chunk_minmax = Some (86400, 172800)\<rparr>] = Inr (i, msgs) \<and>
      (i = 86400 \<or> candidate_interval 100000000 [\<lparr>chunk_size = 1000000, range_start = 0, range_end = 86400, chunk_minmax = Some (0, 86400)\<rparr>, \<lparr>chunk_size = 3000000, range_start = 86400, range_end = 172800, chunk_minmax = Some (86400, 172800)\<rparr>] = Some i) \<and> 0 < i) \<and>
   (\<exists>i msgs. calculate_chunk_interval 3 1 604800000000 1099511627776 [\<lparr>chunk_size = 8192, range_start = 0, range_end = 604800000000, chunk_minmax = Some (0, 604800000000)\<rparr>, \<lparr>chunk_size = 8192, range_start = 604800000000, range_end = 1209600000000, chunk_minmax = Some (604800000000, 1209600000000)\<rparr>] = Inr (i, msgs) \<and>
      (i = 604800000000 \<or> candidate_interval 1099511627776 [\<lparr>chunk_size = 8192, range_start = 0, range_end = 604800000000, chunk_minmax = Some (0, 604800000000)\<rparr>, \<lparr>chunk_size = 8192, range_start = 604800000000, range_end = 1209600000000, chunk_minmax = Some (604800000000, 1209600000000)\<rparr>] = Some i) \<and> i = - (2 ^ 63))"
proof -
  have w1: "round_double (1 / 134217728) = Finite (1 / 134217728)"
    by (rule round_double_eqI [where e = "- 27" and n = 4503599627370496]) simp_all
  have w2: "round_double (1 / 67108864) = Finite (1 / 67108864)"
    by (rule round_double_eqI [where e = "- 26" and n = 4503599627370496]) simp_all
  have w3: "round_double (1 / 100) = Finite (5764607523034235 / 576460752303423488)"
    by (rule round_double_eqI [where e = "- 7" and n = 5764607523034235]) simp_all
  have w4: "round_double (5764607523034235 / 576460752303423488) = Finite (5764607523034235 / 576460752303423488)"
    by (rule round_double_eqI [where e = "- 7" and n = 5764607523034235]) simp_all
  have w5: "round_double (5764607523034235 / 288230376151711744) = Finite (5764607523034235 / 288230376151711744)"
    by (rule round_double_eqI [where e = "- 6" and n = 5764607523034235]) simp_all
  have w6: "round_double (3 / 100) = Finite (1080863910568919 / 36028797018963968)"
    by (rule round_double_eqI [where e = "- 6" and n = 8646911284551352]) simp_all
  have w7: "round_double (23058430092136939 / 576460752303423488) = Finite (5764607523034235 / 144115188075855872)"
    by (rule round_double_eqI [where e = "- 5" and n = 5764607523034235]) simp_all
  have w8: "round_double (1 / 2) = Finite (1 / 2)"
    by (rule round_double_eqI [where e = "- 1" and n = 4503599627370496]) simp_all
  have w9: "round_double (- (29 / 4)) = Finite (- (29 / 4))"
    by (rule round_double_eqI [where e = 2 and n = "- 8162774324609024"]) simp_all
  have w10: "round_double (33 / 4) = Finite (33 / 4)"
    by (rule round_double_eqI [where e = 3 and n = 4644337115725824]) simp_all
  have w11: "round_double (9511602413006488 / 1152921504606847) = Finite (33 / 4)"
    by (rule round_double_eqI [where e = 3 and n = 4644337115725824]) simp_all
  have w12: "round_double (- (1125899906842624 / 73828125)) = Finite (- (4093717061128903 / 268435456))"
    by (rule round_double_eqI [where e = 23 and n = "- 8187434122257806"]) simp_all
  have w13: "round_double (4093717329564359 / 268435456) = Finite (4093717329564359 / 268435456)"
    by (rule round_double_eqI [where e = 23 and n = 8187434659128718]) simp_all
  have w14: "round_double (5944751508129055 / 268435456) = Finite (5944751508129055 / 268435456)"
    by (rule round_double_eqI [where e = 24 and n = 5944751508129055]) simp_all
  have w15: "round_double (- 9223372036854775808) = Finite (- 9223372036854775808)"
    by (rule round_double_eqI [where e = 63 and n = "- 4503599627370496"]) simp_all
  have w16: "round_double (438889857436090388671875 / 32768) = Finite (13393855512576000000)"
    by (rule round_double_eqI [where e = 63 and n = 6539968512000000]) simp_all
  have uz: "samples USABLE 100000000 [\<lparr>chunk_size = 2000000000, range_start = 0, range_end = 10, chunk_minmax = Some (0, 10)\<rparr>] = [\<lparr>chunk_size = 2000000000, range_start = 0, range_end = 10, chunk_minmax = Some (0, 10)\<rparr>]"
    by (simp add: samples_eval double_eval w1 w2 w3 w4 w5 w6 w7 w8 w9 w10 w11 w12 w13 w14 w15 w16)
  have uu: "samples USABLE 100000000 [\<lparr>chunk_size = 1000000, range_start = 0, range_end = 86400, chunk_minmax = Some (0, 86400)\<rparr>, \<lparr>chunk_size = 3000000, range_start = 86400, range_end = 172800, chunk_minmax = Some (86400, 172800)\<rparr>] = []"
    and vu: "samples UNDERSIZED 100000000 [\<lparr>chunk_size = 1000000, range_start = 0, range_end = 86400, chunk_minmax = Some (0, 86400)\<rparr>, \<lparr>chunk_size = 3000000, range_start = 86400, range_end = 172800, chunk_minmax = Some (86400, 172800)\<rparr>] = [\<lparr>chunk_size = 1000000, range_start = 0, range_end = 86400, chunk_minmax = Some (0, 86400)\<rparr>, \<lparr>chunk_size = 3000000, range_start = 86400, range_end = 172800, chunk_minmax = Some (86400, 172800)\<rparr>]"
    by (simp_all add: samples_eval double_eval w1 w2 w3 w4 w5 w6 w7 w8 w9 w10 w11 w12 w13 w14 w15 w16)
  have uo: "samples USABLE 1099511627776 [\<lparr>chunk_size = 8192, range_start = 0, range_end = 604800000000, chunk_minmax = Some (0, 604800000000)\<rparr>, \<lparr>chunk_size = 8192, range_start = 604800000000, range_end = 1209600000000, chunk_minmax = Some (604800000000, 1209600000000)\<rparr>] = []"
    and vo: "samples UNDERSIZED 1099511627776 [\<lparr>chunk_size = 8192, range_start = 0, range_end = 604800000000, chunk_minmax = Some (0, 604800000000)\<rparr>, \<lparr>chunk_size = 8192, range_start = 604800000000, range_end = 1209600000000, chunk_minmax = Some (604800000000, 1209600000000)\<rparr>] = [\<lparr>chunk_size = 8192, range_start = 0, range_end = 604800000000, chunk_minmax = Some (0, 604800000000)\<rparr>, \<lparr>chunk_size = 8192, range_start = 604800000000, range_end = 1209600000000, chunk_minmax = Some (604800000000, 1209600000000)\<rparr>]"
    by (simp_all add: samples_eval double_eval w1 w2 w3 w4 w5 w6 w7 w8 w9 w10 w11 w12 w13 w14 w15 w16)
  have su: "undersized_interval_sum [\<lparr>chunk_size = 1000000, range_start = 0, range_end = 86400, chunk_minmax = Some (0, 86400)\<rparr>, \<lparr>chunk_size = 3000000, range_start = 86400, range_end = 172800, chunk_minmax = Some (86400, 172800)\<rparr>] = 172800"
    by (simp add: undersized_interval_sum_def slice_interval_of_def int64_def)
  have fu: "undersized_fillfactor_sum 100000000 [\<lparr>chunk_size = 1000000, range_start = 0, range_end = 86400, chunk_minmax = Some (0, 86400)\<rparr>, \<lparr>chunk_size = 3000000, range_start = 86400, range_end = 172800, chunk_minmax = Some (86400, 172800)\<rparr>] =
      Finite (5764607523034235 / 144115188075855872)"
    by (simp add: undersized_fillfactor_sum_def samples_eval double_eval w1 w2 w3 w4 w5 w6 w7 w8 w9 w10 w11 w12 w13 w14 w15 w16)
  have pu: "boost_product 100000000 [\<lparr>chunk_size = 1000000, range_start = 0, range_end = 86400, chunk_minmax = Some (0, 86400)\<rparr>, \<lparr>chunk_size = 3000000, range_start = 86400, range_end = 172800, chunk_minmax = Some (86400, 172800)\<rparr>] =
      Finite (712800)"
    by (simp add: boost_product_def boost_factor_def undersized_avg_fillfactor_def
        undersized_avg_interval_def vu su fu UNDERSIZED_FILLFACTOR_THRESH_value c_div_def
        double_eval w1 w2 w3 w4 w5 w6 w7 w8 w9 w10 w11 w12 w13 w14 w15 w16)
  have so: "undersized_interval_sum [\<lparr>chunk_size = 8192, range_start = 0, range_end = 604800000000, chunk_minmax = Some (0, 604800000000)\<rparr>, \<lparr>chunk_size = 8192, range_start = 604800000000, range_end = 1209600000000, chunk_minmax = Some (604800000000, 1209600000000)\<rparr>] = 1209600000000"
    by (simp add: undersized_interval_sum_def slice_interval_of_def int64_def)
  have fo: "undersized_fillfactor_sum 1099511627776 [\<lparr>chunk_size = 8192, range_start = 0, range_end = 604800000000, chunk_minmax = Some (0, 604800000000)\<rparr>, \<lparr>chunk_size = 8192, range_start = 604800000000, range_end = 1209600000000, chunk_minmax = Some (604800000000, 1209600000000)\<rparr>] =
      Finite (1 / 67108864)"
    by (simp add: undersized_fillfactor_sum_def samples_eval double_eval w1 w2 w3 w4 w5 w6 w7 w8 w9 w10 w11 w12 w13 w14 w15 w16)
  have po: "boost_product 1099511627776 [\<lparr>chunk_size = 8192, range_start = 0, range_end = 604800000000, chunk_minmax = Some (0, 604800000000)\<rparr>, \<lparr>chunk_size = 8192, range_start = 604800000000, range_end = 1209600000000, chunk_minmax = Some (604800000000, 1209600000000)\<rparr>] =
      Finite (13393855512576000000)"
    by (simp add: boost_product_def boost_factor_def undersized_avg_fillfactor_def
        undersized_avg_interval_def vo so fo UNDERSIZED_FILLFACTOR_THRESH_value c_div_def
        double_eval w1 w2 w3 w4 w5 w6 w7 w8 w9 w10 w11 w12 w13 w14 w15 w16)
  have bz: "\<forall>ch \<in> set [\<lparr>chunk_size = 2000000000, range_start = 0, range_end = 10, chunk_minmax = Some (0, 10)\<rparr>]. bounded_chunk ch"
    and bu: "\<forall>ch \<in> set [\<lparr>chunk_size = 1000000, range_start = 0, range_end = 86400, chunk_minmax = Some (0, 86400)\<rparr>, \<lparr>chunk_size = 3000000, range_start = 86400, range_end = 172800, chunk_minmax = Some (86400, 172800)\<rparr>]. bounded_chunk ch"
    and bo: "\<forall>ch \<in> set [\<lparr>chunk_size = 8192, range_start = 0, range_end = 604800000000, chunk_minmax = Some (0, 604800000000)\<rparr>, \<lparr>chunk_size = 8192, range_start = 604800000000, range_end = 1209600000000, chunk_minmax = Some (604800000000, 1209600000000)\<rparr>]. bounded_chunk ch"
    by (simp_all add: bounded_chunk_def slice_interval_of_def int64_def)
  have lz: "length [\<lparr>chunk_size = 2000000000, range_start = 0, range_end = 10, chunk_minmax = Some (0, 10)\<rparr>] \<le> DEFAULT_CHUNK_WINDOW"
    and lu: "length [\<lparr>chunk_size = 1000000, range_start = 0, range_end = 86400, chunk_minmax = Some (0, 86400)\<rparr>, \<lparr>chunk_size = 3000000, range_start = 86400, range_end = 172800, chunk_minmax = Some (86400, 172800)\<rparr>] \<le> DEFAULT_CHUNK_WINDOW"
    and lo: "length [\<lparr>chunk_size = 8192, range_start = 0, range_end = 604800000000, chunk_minmax = Some (0, 604800000000)\<rparr>, \<lparr>chunk_size = 8192, range_start = 604800000000, range_end = 1209600000000, chunk_minmax = Some (604800000000, 1209600000000)\<rparr>] \<le> DEFAULT_CHUNK_WINDOW"
    by (simp_all add: DEFAULT_CHUNK_WINDOW_def)
  have n: "(3::int) = CHUNK_SIZING_FUNC_NARGS" by (simp add: CHUNK_SIZING_FUNC_NARGS_def)
  have z: "\<exists>i msgs. calculate_chunk_interval 3 1 10 100000000 [\<lparr>chunk_size = 2000000000, range_start = 0, range_end = 10, chunk_minmax = Some (0, 10)\<rparr>] = Inr (i, msgs) \<and>
      (i = 10 \<or> candidate_interval 100000000 [\<lparr>chunk_size = 2000000000, range_start = 0, range_end = 10, chunk_minmax = Some (0, 10)\<rparr>] = Some i) \<and> 0 \<le> i"
    using calculate_chunk_interval_sign [OF n _ _ _ _ _ lz bz, where hypertable_id = 1
        and current_interval = 10 and target = 100000000] uz
    by simp
  have u: "\<exists>i msgs. calculate_chunk_interval 3 1 86400 100000000 [\<lparr>chunk_size = 1000000, range_start = 0, range_end = 86400, chunk_minmax = Some (0, 86400)\<rparr>, \<lparr>chunk_size = 3000000, range_start = 86400, range_end = 172800, chunk_minmax = Some (86400, 172800)\<rparr>] = Inr (i, msgs) \<and>
      (i = 86400 \<or> candidate_interval 100000000 [\<lparr>chunk_size = 1000000, range_start = 0, range_end = 86400, chunk_minmax = Some (0, 86400)\<rparr>, \<lparr>chunk_size = 3000000, range_start = 86400, range_end = 172800, chunk_minmax = Some (86400, 172800)\<rparr>] = Some i) \<and> 0 < i"
    using calculate_chunk_interval_sign [OF n _ _ _ _ _ lu bu, where hypertable_id = 1
        and current_interval = 86400 and target = 100000000] uu vu pu
    by simp
  have o: "\<exists>i msgs. calculate_chunk_interval 3 1 604800000000 1099511627776 [\<lparr>chunk_size = 8192, range_start = 0, range_end = 604800000000, chunk_minmax = Some (0, 604800000000)\<rparr>, \<lparr>chunk_size = 8192, range_start = 604800000000, range_end = 1209600000000, chunk_minmax = Some (604800000000, 1209600000000)\<rparr>] = Inr (i, msgs) \<and>
      (i = 604800000000 \<or> candidate_interval 1099511627776 [\<lparr>chunk_size = 8192, range_start = 0, range_end = 604800000000, chunk_minmax = Some (0, 604800000000)\<rparr>, \<lparr>chunk_size = 8192, range_start = 604800000000, range_end = 1209600000000, chunk_minmax = Some (604800000000, 1209600000000)\<rparr>] = Some i) \<and> i = - (2 ^ 63)"
    using calculate_chunk_interval_sign [OF n _ _ _ _ _ lo bo, where hypertable_id = 1
        and current_interval = 604800000000 and target = 1099511627776] uo vo po
    by simp
  show ?thesis by (rule conjI [OF z conjI [OF u o]])
qed

section \<open>The located range in the estimator\<close>

text \<open>
  Claim C1. The two strategies do not agree. Take a chunk with the slice from 0 to 86400
  that holds the values 0, 86399 and 43200. With an ascending index on the column, the
  backward scan comes first and its value, the largest, is stored in \<^verbatim>\<open>minmax[0]\<close>; the
  forward scan's value, the smallest, is stored in \<^verbatim>\<open>minmax[1]\<close>: the caller reads the
  minimum 86399 and the maximum 0. Without an index, the heap scan of the same tuples gives
  the minimum 0 and the maximum 86399, and so does an index in descending order. For a
  chunk of 120000000 bytes against a target of 100000000, the estimator ignores the chunk
  after the ascending index and keeps the interval 86400, and uses it after the heap scan and
  returns 71999. (The heap scan itself compares against the second element of the caller's
  array as it finds it: from \<open>(0, 100000)\<close> it returns the maximum 100000.)
\<close>

theorem locator_strategies_disagree:
  "chunk_minmax_of (chunk_get_minmax \<lparr>rel_tuples = [[Some 0], [Some 86399], [Some 43200]], rel_indexes = [\<lparr>idx_attnum = 1, idx_tuples = [[Some 0], [Some 43200], [Some 86399]]\<rparr>]\<rparr> (Some btint8cmp) 1 (0, 0)) = Some (86399, 0) \<and>
   events (chunk_get_minmax \<lparr>rel_tuples = [[Some 0], [Some 86399], [Some 43200]], rel_indexes = [\<lparr>idx_attnum = 1, idx_tuples = [[Some 0], [Some 43200], [Some 86399]]\<rparr>]\<rparr> (Some btint8cmp) 1 (0, 0)) = [] \<and>
   chunk_minmax_of (chunk_get_minmax \<lparr>rel_tuples = [[Some 0], [Some 86399], [Some 43200]], rel_indexes = []\<rparr> (Some btint8cmp) 1 (0, 0)) = Some (0, 86399) \<and>
   events (chunk_get_minmax \<lparr>rel_tuples = [[Some 0], [Some 86399], [Some 43200]], rel_indexes = []\<rparr> (Some btint8cmp) 1 (0, 0)) =
     [WARNING_no_index_found, HEAP_SCAN] \<and>
   chunk_minmax_of (chunk_get_minmax \<lparr>rel_tuples = [[Some 0], [Some 86399], [Some 43200]], rel_indexes = [\<lparr>idx_attnum = 1, idx_tuples = [[Some 86399], [Some 43200], [Some 0]]\<rparr>]\<rparr> (Some btint8cmp) 1 (0, 0)) = Some (0, 86399) \<and>
   calculate_chunk_interval 3 1 86400 100000000 [\<lparr>chunk_size = 120000000, range_start = 0, range_end = 86400, chunk_minmax = Some (86399, 0)\<rparr>] =
     Inr (86400, [DEBUG1_use_previous_size 86400]) \<and>
   calculate_chunk_interval 3 1 86400 100000000 [\<lparr>chunk_size = 120000000, range_start = 0, range_end = 86400, chunk_minmax = Some (0, 86399)\<rparr>] =
     Inr (71999, [LOG_making_change 71999]) \<and>
   chunk_minmax_of (chunk_get_minmax \<lparr>rel_tuples = [[Some 0], [Some 86399], [Some 43200]], rel_indexes = []\<rparr> (Some btint8cmp) 1 (0, 100000)) = Some (0, 100000)"
proof -
  have loc:
    "chunk_minmax_of (chunk_get_minmax \<lparr>rel_tuples = [[Some 0], [Some 86399], [Some 43200]], rel_indexes = [\<lparr>idx_attnum = 1, idx_tuples = [[Some 0], [Some 43200], [Some 86399]]\<rparr>]\<rparr> (Some btint8cmp) 1 (0, 0)) = Some (86399, 0)"
    "events (chunk_get_minmax \<lparr>rel_tuples = [[Some 0], [Some 86399], [Some 43200]], rel_indexes = [\<lparr>idx_attnum = 1, idx_tuples = [[Some 0], [Some 43200], [Some 86399]]\<rparr>]\<rparr> (Some btint8cmp) 1 (0, 0)) = []"
    "chunk_minmax_of (chunk_get_minmax \<lparr>rel_tuples = [[Some 0], [Some 86399], [Some 43200]], rel_indexes = []\<rparr> (Some btint8cmp) 1 (0, 0)) = Some (0, 86399)"
    "events (chunk_get_minmax \<lparr>rel_tuples = [[Some 0], [Some 86399], [Some 43200]], rel_indexes = []\<rparr> (Some btint8cmp) 1 (0, 0)) =
       [WARNING_no_index_found, HEAP_SCAN]"
    "chunk_minmax_of (chunk_get_minmax \<lparr>rel_tuples = [[Some 0], [Some 86399], [Some 43200]], rel_indexes = [\<lparr>idx_attnum = 1, idx_tuples = [[Some 86399], [Some 43200], [Some 0]]\<rparr>]\<rparr> (Some btint8cmp) 1 (0, 0)) = Some (0, 86399)"
    "chunk_minmax_of (chunk_get_minmax \<lparr>rel_tuples = [[Some 0], [Some 86399], [Some 43200]], rel_indexes = []\<rparr> (Some btint8cmp) 1 (0, 100000)) = Some (0, 100000)"
    by (simp_all add: chunk_minmax_of_def chunk_get_minmax_def relation_minmax_indexscan_def
        minmax_indexscan_def minmax_heapscan_def index_getnext_def heap_getattr_def arr2_set_def
        arr2_get_def heapscan_step_def btint8cmp_def Let_def)
  have a1: "round_double (- (86399 / 86400)) = Finite (- (4503547502374809 / 4503599627370496))"
    by (rule round_double_eqI [where e = "- 1" and n = "- 9007095004749618"]) simp_all
  have a2: "round_double (- (30000347 / 25000000)) = Finite (- (5404382062807423 / 4503599627370496))"
    by (rule round_double_eqI [where e = 0 and n = "- 5404382062807423"]) simp_all
  have a3: "round_double (- (180143985094819840000000 / 1501182500791603)) = Finite (- (4026578443917175 / 33554432))"
    by (rule round_double_eqI [where e = 26 and n = "- 8053156887834350"]) simp_all
  have ca: "calculate_chunk_interval 3 1 86400 100000000 [\<lparr>chunk_size = 120000000, range_start = 0, range_end = 86400, chunk_minmax = Some (86399, 0)\<rparr>] =
      Inr (86400, [DEBUG1_use_previous_size 86400])"
    by (simp add: estimator_eval double_eval a1 a2 a3)
  have b1: "round_double (375326031445385 / 2251799813685248) = Finite (375326031445385 / 2251799813685248)"
    by (rule round_double_eqI [where e = "- 3" and n = 6005216503126160]) simp_all
  have b2: "round_double (71999 / 86400) = Finite (1876473782239863 / 2251799813685248)"
    by (rule round_double_eqI [where e = "- 1" and n = 7505895128959452]) simp_all
  have b3: "round_double (86399 / 86400) = Finite (4503547502374809 / 4503599627370496)"
    by (rule round_double_eqI [where e = "- 1" and n = 9007095004749618]) simp_all
  have b4: "round_double (30000347 / 25000000) = Finite (5404382062807423 / 4503599627370496)"
    by (rule round_double_eqI [where e = 0 and n = 5404382062807423]) simp_all
  have b5: "round_double (2473872548036861 / 34359738368) = Finite (2473872548036861 / 34359738368)"
    by (rule round_double_eqI [where e = 16 and n = 4947745096073722]) simp_all
  have b6: "round_double (389111007804810854400 / 5404382062807423) = Finite (2473872548036861 / 34359738368)"
    by (rule round_double_eqI [where e = 16 and n = 4947745096073722]) simp_all
  have b7: "round_double (180143985094819840000000 / 1501182500791603) = Finite (4026578443917175 / 33554432)"
    by (rule round_double_eqI [where e = 26 and n = 8053156887834350]) simp_all
  have cb: "calculate_chunk_interval 3 1 86400 100000000 [\<lparr>chunk_size = 120000000, range_start = 0, range_end = 86400, chunk_minmax = Some (0, 86399)\<rparr>] =
      Inr (71999, [LOG_making_change 71999])"
    by (simp add: estimator_eval double_eval b1 b2 b3 b4 b5 b6 b7)
  show ?thesis using loc ca cb by simp
qed

end
